(* ===== verification/Prelude.thy ===== *)
theory Prelude
  imports Main "HOL-Library.State_Monad" "HOL-Library.Word"
begin

text \<open>
  Shared ground of the development.

  The code under verification runs against two services it does not contain: the
  Kubernetes API server and the Garage admin API.  Both are parameters: functions from a
  state of the outside world (a type variable) to an answer and the next state.  A piece
  of the code is a computation in the state monad of \<^theory_text>\<open>HOL-Library.State_Monad\<close>
  over a \<open>world\<close>: the outside state, and the log of the calls made so far, in order, each
  with its answer.  The log is not read by the code; it is what the safety theorems speak
  about.

  \<open>wp\<close> is the weakest precondition of such a computation; its rules are collected in
  \<open>wp_simps\<close> and turn a claim about a whole handler into one goal per path.
\<close>

named_theorems wp_simps "weakest preconditions of the monad's operations and of the calls"
named_theorems produces_intros "rules for the events a computation produces"

type_synonym int64 = "64 word"

section \<open>Weakest preconditions\<close>

definition wp :: "('s, 'a) state \<Rightarrow> ('a \<Rightarrow> 's \<Rightarrow> bool) \<Rightarrow> 's \<Rightarrow> bool" where
  "wp m Q s = (case run_state m s of (a, s') \<Rightarrow> Q a s')"

lemma wp_return [wp_simps]: "wp (State_Monad.return x) Q = Q x"
  by (simp add: wp_def fun_eq_iff)

lemma wp_bind [wp_simps]: "wp (State_Monad.bind m f) Q = wp m (\<lambda>a. wp (f a) Q)"
  by (simp add: wp_def fun_eq_iff split: prod.splits)

lemma wp_if [wp_simps]:
  "wp (if c then m else n) Q s = ((c \<longrightarrow> wp m Q s) \<and> (\<not> c \<longrightarrow> wp n Q s))"
  by simp

lemma wp_case_sum [wp_simps]:
  "wp (case x of Inl e \<Rightarrow> f e | Inr v \<Rightarrow> g v) Q s =
     ((\<forall>e. x = Inl e \<longrightarrow> wp (f e) Q s) \<and> (\<forall>v. x = Inr v \<longrightarrow> wp (g v) Q s))"
  by (cases x) auto

lemma wp_case_option [wp_simps]:
  "wp (case x of None \<Rightarrow> f | Some v \<Rightarrow> g v) Q s =
     ((x = None \<longrightarrow> wp f Q s) \<and> (\<forall>v. x = Some v \<longrightarrow> wp (g v) Q s))"
  by (cases x) auto

lemma wp_case_prod [wp_simps]:
  "wp (case x of (a, b) \<Rightarrow> f a b) Q s = (\<forall>a b. x = (a, b) \<longrightarrow> wp (f a b) Q s)"
  by (cases x) auto

lemma wp_mono: "wp m Q s \<Longrightarrow> (\<And>a s'. Q a s' \<Longrightarrow> R a s') \<Longrightarrow> wp m R s"
  by (auto simp: wp_def split: prod.splits)

lemma wp_conj: "wp m (\<lambda>a t. Q a t \<and> R a t) s = (wp m Q s \<and> wp m R s)"
  by (auto simp: wp_def split: prod.splits)

lemma wp_run: "wp m Q s \<Longrightarrow> run_state m s = (a, s') \<Longrightarrow> Q a s'"
  by (simp add: wp_def)

lemma wpI: "(\<And>a s'. run_state m s = (a, s') \<Longrightarrow> Q a s') \<Longrightarrow> wp m Q s"
  by (simp add: wp_def split: prod.splits)

section \<open>The world: outside state and call log\<close>

record ('s, 'e) world =
  ext :: 's
  log :: "'e list"

text \<open>
  \<open>call f ev\<close> makes one call to the outside: it runs \<open>f\<close> on the outside state and logs
  \<open>ev r\<close>, where \<open>r\<close> is the answer.  \<open>emit\<close> logs an action whose answer the code ignores.
\<close>

definition call :: "('s \<Rightarrow> 'a \<times> 's) \<Rightarrow> ('a \<Rightarrow> 'e) \<Rightarrow> (('s, 'e) world, 'a) state" where
  "call f ev = State (\<lambda>w. case f (ext w) of (r, s) \<Rightarrow>
     (r, w\<lparr>ext := s, log := log w @ [ev r]\<rparr>))"

definition emit :: "'e \<Rightarrow> (('s, 'e) world, unit) state" where
  "emit ev = State (\<lambda>w. ((), w\<lparr>log := log w @ [ev]\<rparr>))"

text \<open>An effect on the outside that is neither logged nor a call the theorems speak of
  (reading the clock).\<close>

definition observe :: "('s \<Rightarrow> 'a \<times> 's) \<Rightarrow> (('s, 'e) world, 'a) state" where
  "observe f = State (\<lambda>w. case f (ext w) of (r, s) \<Rightarrow> (r, w\<lparr>ext := s\<rparr>))"

lemma wp_call [wp_simps]:
  "wp (call f ev) Q w =
     (\<forall>r s. f (ext w) = (r, s) \<longrightarrow> Q r (w\<lparr>ext := s, log := log w @ [ev r]\<rparr>))"
  by (auto simp: wp_def call_def split: prod.splits)

lemma wp_emit [wp_simps]: "wp (emit ev) Q w = Q () (w\<lparr>log := log w @ [ev]\<rparr>)"
  by (simp add: wp_def emit_def)

lemma wp_observe [wp_simps]:
  "wp (observe f) Q w = (\<forall>r s. f (ext w) = (r, s) \<longrightarrow> Q r (w\<lparr>ext := s\<rparr>))"
  by (auto simp: wp_def observe_def split: prod.splits)

text \<open>The events a computation added: what the log gained from \<open>w\<close> to \<open>w'\<close>.\<close>

definition new_events :: "('s, 'e) world \<Rightarrow> ('s, 'e) world \<Rightarrow> 'e list" where
  "new_events w w' = drop (length (log w)) (log w')"

lemma new_events_same [simp]: "new_events w (w\<lparr>ext := s\<rparr>) = []"
  by (simp add: new_events_def)

lemma new_events_append:
  "log w' = log w @ es \<Longrightarrow> new_events w w' = es"
  by (simp add: new_events_def)

lemma run_call [simp]:
  "run_state (call f ev) w =
     (fst (f (ext w)), w\<lparr>ext := snd (f (ext w)), log := log w @ [ev (fst (f (ext w)))]\<rparr>)"
  by (simp add: call_def split: prod.splits)

lemma run_emit [simp]: "run_state (emit ev) w = ((), w\<lparr>log := log w @ [ev]\<rparr>)"
  by (simp add: emit_def)

lemma run_observe [simp]:
  "run_state (observe f) w = (fst (f (ext w)), w\<lparr>ext := snd (f (ext w))\<rparr>)"
  by (simp add: observe_def split: prod.splits)

text \<open>
  \<open>produces m Q\<close>: from any world, \<open>m\<close> appends events \<open>es\<close> to the log and ends with a result
  \<open>a\<close> such that \<open>Q a es\<close>.  It forgets the outside state, so it composes: a handler's trace
  is the concatenation of the traces of its parts.
\<close>

definition produces :: "(('s, 'e) world, 'a) state \<Rightarrow> ('a \<Rightarrow> 'e list \<Rightarrow> bool) \<Rightarrow> bool" where
  "produces m Q \<longleftrightarrow> (\<forall>w. wp m (\<lambda>a w'. \<exists>es. log w' = log w @ es \<and> Q a es) w)"

lemma produces_return [produces_intros]: "Q x [] \<Longrightarrow> produces (State_Monad.return x) Q"
  by (simp add: produces_def wp_simps)

lemma produces_bind [produces_intros]:
  assumes "produces m (\<lambda>a es. produces (f a) (\<lambda>b fs. Q b (es @ fs)))"
  shows "produces (State_Monad.bind (m :: (('s, 'e) world, 'a) state) f) Q"
  unfolding produces_def wp_bind
proof
  fix w
  show "wp m (\<lambda>a. wp (f a) (\<lambda>b w'. \<exists>es. log w' = log w @ es \<and> Q b es)) w"
  proof (rule wp_mono)
    show "wp m (\<lambda>a w'. \<exists>es. log w' = log w @ es \<and>
        produces (f a) (\<lambda>b fs. Q b (es @ fs))) w"
      using assms by (simp add: produces_def)
  next
    fix a and w' :: "('s, 'e) world"
    assume "\<exists>es. log w' = log w @ es \<and> produces (f a) (\<lambda>b fs. Q b (es @ fs))"
    then obtain es where es: "log w' = log w @ es"
      and f: "produces (f a) (\<lambda>b fs. Q b (es @ fs))" by blast
    from f have "wp (f a) (\<lambda>b v. \<exists>fs. log v = log w' @ fs \<and> Q b (es @ fs)) w'"
      unfolding produces_def ..
    then show "wp (f a) (\<lambda>b v. \<exists>fs. log v = log w @ fs \<and> Q b fs) w'"
      by (rule wp_mono) (auto simp: es)
  qed
qed

lemma produces_call [produces_intros]: "(\<And>r. Q r [ev r]) \<Longrightarrow> produces (call f ev) Q"
  by (simp add: produces_def wp_simps)

lemma produces_emit [produces_intros]: "Q () [ev] \<Longrightarrow> produces (emit ev) Q"
  by (simp add: produces_def wp_simps)

lemma produces_observe [produces_intros]: "(\<And>r. Q r []) \<Longrightarrow> produces (observe f) Q"
  by (simp add: produces_def wp_simps)

lemma produces_if [produces_intros]:
  "(c \<Longrightarrow> produces m Q) \<Longrightarrow> (\<not> c \<Longrightarrow> produces n Q) \<Longrightarrow> produces (if c then m else n) Q"
  by simp

lemma produces_case_sum [produces_intros]:
  "(\<And>e. x = Inl e \<Longrightarrow> produces (f e) Q) \<Longrightarrow> (\<And>v. x = Inr v \<Longrightarrow> produces (g v) Q) \<Longrightarrow>
     produces (case x of Inl e \<Rightarrow> f e | Inr v \<Rightarrow> g v) Q"
  by (cases x) auto

lemma produces_case_option [produces_intros]:
  "(x = None \<Longrightarrow> produces f Q) \<Longrightarrow> (\<And>v. x = Some v \<Longrightarrow> produces (g v) Q) \<Longrightarrow>
     produces (case x of None \<Rightarrow> f | Some v \<Rightarrow> g v) Q"
  by (cases x) auto

lemma produces_case_prod [produces_intros]:
  "(\<And>a b. x = (a, b) \<Longrightarrow> produces (f a b) Q) \<Longrightarrow> produces (case x of (a, b) \<Rightarrow> f a b) Q"
  by (cases x) auto

lemma produces_mono:
  "produces m Q \<Longrightarrow> (\<And>a es. Q a es \<Longrightarrow> R a es) \<Longrightarrow> produces m R"
  unfolding produces_def by (blast intro: wp_mono)

lemma produces_conj:
  assumes "produces m Q" and "produces m R"
  shows "produces m (\<lambda>a es. Q a es \<and> R a es)"
  unfolding produces_def
proof
  fix w
  from assms have "wp m (\<lambda>a w'. (\<exists>es. log w' = log w @ es \<and> Q a es) \<and>
      (\<exists>es. log w' = log w @ es \<and> R a es)) w"
    by (simp add: produces_def wp_conj)
  then show "wp m (\<lambda>a w'. \<exists>es. log w' = log w @ es \<and> Q a es \<and> R a es) w"
    by (rule wp_mono) auto
qed

lemma produces_run:
  assumes "produces m Q" and "run_state m w = (a, w')"
  shows "Q a (new_events w w')"
proof -
  from assms obtain es where "log w' = log w @ es" "Q a es"
    by (auto simp: produces_def dest: wp_run)
  then show ?thesis by (simp add: new_events_append)
qed

lemma produces_log:
  assumes "produces m Q"
  obtains es where "log (snd (run_state m w)) = log w @ es" and "Q (fst (run_state m w)) es"
  using assms by (auto simp: produces_def wp_def case_prod_beta)

text \<open>Evaluating a computation on a given world.\<close>

definition run_events :: "(('s, 'e) world, 'a) state \<Rightarrow> ('s, 'e) world \<Rightarrow> 'e list" where
  "run_events m w = new_events w (snd (run_state m w))"

lemma run_bind:
  "run_state (State_Monad.bind m f) s = run_state (f (fst (run_state m s))) (snd (run_state m s))"
  by (simp add: State_Monad.bind_def split: prod.splits)

lemma run_return: "run_state (State_Monad.return x) s = (x, s)"
  by (simp add: State_Monad.return_def)

lemmas run_eval = run_bind run_return

section \<open>Generic facts\<close>

lemma in_set_append_single [simp]: "x \<in> set (xs @ [y]) \<longleftrightarrow> x \<in> set xs \<or> x = y"
  by auto

lemma split_after:
  assumes "es @ fs = pre @ e # post" and "e \<notin> set es"
  obtains pre' where "pre = es @ pre'" and "fs = pre' @ e # post"
  using assms by (auto simp: append_eq_append_conv2 append_eq_Cons_conv)

lemma app_single [simp]:
  "pre @ x # post = [y] \<longleftrightarrow> pre = [] \<and> x = y \<and> post = []"
  "[y] = pre @ x # post \<longleftrightarrow> pre = [] \<and> x = y \<and> post = []"
  by (auto simp: append_eq_Cons_conv Cons_eq_append_conv)

lemma app_pair [simp]:
  "pre @ x # post = [y, z] \<longleftrightarrow>
     pre = [] \<and> x = y \<and> post = [z] \<or> pre = [y] \<and> x = z \<and> post = []"
  "[y, z] = pre @ x # post \<longleftrightarrow>
     pre = [] \<and> x = y \<and> post = [z] \<or> pre = [y] \<and> x = z \<and> post = []"
  by (auto simp: append_eq_Cons_conv Cons_eq_append_conv)

lemma list_all_notin: "list_all P xs \<Longrightarrow> \<not> P x \<Longrightarrow> x \<notin> set xs"
  by (auto simp: list_all_iff)

lemma sint64_range: "- (2 ^ 63) \<le> sint (x :: int64)" "sint (x :: int64) < 2 ^ 63"
  using sint_range_size [of x] by (simp_all add: word_size)

lemma sint64_of_int:
  "- (2 ^ 63) \<le> i \<Longrightarrow> i < 2 ^ 63 \<Longrightarrow> sint (word_of_int i :: int64) = i"
  using signed_take_bit_int_eq_self [of 63 i] by (simp add: signed_of_int)

end
