(* ===== verification/GoBase.thy ===== *)
theory GoBase
  imports Prelude
begin

text \<open>
  What the code uses of Go and its standard library: 64-bit integers, strings as byte
  sequences with the verbs of \<open>fmt\<close> (\<open>%s\<close>, \<open>%v\<close>, \<open>%d\<close>, \<open>%q\<close>, \<open>%x\<close>), and error values with
  \<open>fmt.Errorf\<close>, \<open>errors.Join\<close> and \<open>errors.Is\<close>.
\<close>

section \<open>Formatting\<close>

fun show_nat :: "nat \<Rightarrow> string" where
  "show_nat n =
     (if n < 10 then [char_of (48 + n)] else show_nat (n div 10) @ [char_of (48 + n mod 10)])"

declare show_nat.simps [simp del]

definition show_int :: "int \<Rightarrow> string" where
  "show_int i = (if i < 0 then ''-'' @ show_nat (nat (- i)) else show_nat (nat i))"

definition hex_digit :: "nat \<Rightarrow> char" where
  "hex_digit n = char_of (if n < 10 then 48 + n else 87 + n)"

definition hex_byte :: "8 word \<Rightarrow> string" where
  "hex_byte b = [hex_digit (unat b div 16), hex_digit (unat b mod 16)]"

text \<open>\<open>%x\<close> of a byte slice: two lower-case digits per byte.\<close>

definition format_x :: "8 word list \<Rightarrow> string" where
  "format_x bs = concat (map hex_byte bs)"

lemma length_format_x [simp]: "length (format_x bs) = 2 * length bs"
  by (induction bs) (simp_all add: format_x_def hex_byte_def)

text \<open>
  \<open>%q\<close> (\<open>strconv.Quote\<close>): bytes below 128 exactly as Go escapes them; bytes from 128 on are
  the parts of UTF-8 sequences and pass through, as Go lets printable runes through.
\<close>

definition quote_char :: "char \<Rightarrow> string" where
  "quote_char c =
    (let n = of_char c :: nat; bs = CHR 0x5C in
     if c = CHR 0x22 then [bs, CHR 0x22]
     else if c = bs then [bs, bs]
     else if n = 7 then [bs, CHR ''a'']
     else if n = 8 then [bs, CHR ''b'']
     else if n = 12 then [bs, CHR ''f'']
     else if n = 10 then [bs, CHR ''n'']
     else if n = 13 then [bs, CHR ''r'']
     else if n = 9 then [bs, CHR ''t'']
     else if n = 11 then [bs, CHR ''v'']
     else if n < 32 \<or> n = 127 then
       [bs, CHR ''x'', hex_digit (n div 16), hex_digit (n mod 16)]
     else [c])"

definition quote :: "string \<Rightarrow> string" where
  "quote s = [CHR 0x22] @ concat (map quote_char s) @ [CHR 0x22]"

fun intercalate :: "string \<Rightarrow> string list \<Rightarrow> string" where
  "intercalate sep [] = []"
| "intercalate sep [x] = x"
| "intercalate sep (x # y # ys) = x @ sep @ intercalate sep (y # ys)"

text \<open>The bytes of a string (\<open>[]byte(s)\<close>).\<close>

definition bytes_of :: "string \<Rightarrow> 8 word list" where
  "bytes_of s = map of_char s"

lemma length_bytes_of [simp]: "length (bytes_of s) = length s"
  by (simp add: bytes_of_def)

section \<open>Errors\<close>

text \<open>
  Every package-level error variable (\<open>errors.New\<close> at top level) is a sentinel, compared
  by identity.  An \<open>APIError\<close> is the \<open>*StatusError\<close> of the Kubernetes client with its
  \<open>StatusReason\<close>; an \<open>ErrorString\<close> is any other leaf (\<open>fmt.Errorf\<close> without \<open>%w\<close>, transport
  and decoding errors).  \<open>Wrapped m es\<close> is \<open>fmt.Errorf\<close> with the operands \<open>es\<close> of its \<open>%w\<close>
  verbs and the formatted message \<open>m\<close>; \<open>Joined es\<close> is \<open>errors.Join\<close>.
\<close>

datatype sentinel =
    ErrBucketExists
  | ErrResourceNotFound
  | ErrMultipleMatches
  | errNameConflict
  | errDependencyNotReady

datatype error =
    Sentinel sentinel
  | APIError string string
  | ErrorString string
  | Wrapped string "error list"
  | Joined "error list"

fun sentinel_text :: "sentinel \<Rightarrow> string" where
  "sentinel_text ErrBucketExists = ''bucket with alias already exists''"
| "sentinel_text ErrResourceNotFound = ''resource not found''"
| "sentinel_text ErrMultipleMatches = ''multiple resources match''"
| "sentinel_text errNameConflict = ''name conflict with existing resource''"
| "sentinel_text errDependencyNotReady = ''resource dependency is not ready''"

fun errmsg :: "error \<Rightarrow> string" where
  "errmsg (Sentinel s) = sentinel_text s"
| "errmsg (APIError r m) = m"
| "errmsg (ErrorString m) = m"
| "errmsg (Wrapped m es) = m"
| "errmsg (Joined es) = intercalate [CHR 0x0A] (map errmsg es)"

fun errors_Is :: "error \<Rightarrow> sentinel \<Rightarrow> bool" where
  "errors_Is (Sentinel s) t = (s = t)"
| "errors_Is (APIError r m) t = False"
| "errors_Is (ErrorString m) t = False"
| "errors_Is (Wrapped m es) t = list_ex (\<lambda>e. errors_Is e t) es"
| "errors_Is (Joined es) t = list_ex (\<lambda>e. errors_Is e t) es"

text \<open>\<open>fmt.Errorf("pre%w", err)\<close>, the form the code uses throughout.\<close>

definition wrap :: "string \<Rightarrow> error \<Rightarrow> error" where
  "wrap pre e = Wrapped (pre @ errmsg e) [e]"

lemma errors_Is_wrap [simp]: "errors_Is (wrap pre e) t = errors_Is e t"
  by (simp add: wrap_def)

end
