(* ===== verification/S3.thy ===== *)
theory S3
  imports GoBase
begin

text \<open>
  The vocabulary both sides share (\<^verbatim>\<open>internal/s3/bucket.go\<close>): buckets, quotas, access keys
  and permissions as the Garage client returns them.  Its three error variables are the
  sentinels \<open>ErrBucketExists\<close>, \<open>ErrResourceNotFound\<close> and \<open>ErrMultipleMatches\<close> of
  \<open>GoBase\<close>.  A \<open>nil\<close> slice and an empty one are the same list here; the code never
  distinguishes them.
\<close>

record s3_quotas =
  q_MaxObjects :: int64
  q_MaxSize :: int64

record s3_bucket =
  sb_ID :: string
  sb_GlobalAliases :: "string list"
  sb_Quotas :: s3_quotas

record s3_access_key =
  sk_ID :: string
  sk_Secret :: string
  sk_Name :: string

record s3_permissions =
  p_Owner :: bool
  p_Read :: bool
  p_Write :: bool

text \<open>The zero values \<open>s3.Bucket{}\<close> and \<open>s3.Permissions{}\<close>.\<close>

definition zero_quotas :: s3_quotas where
  "zero_quotas = \<lparr>q_MaxObjects = 0, q_MaxSize = 0\<rparr>"

definition zero_bucket :: s3_bucket where
  "zero_bucket = \<lparr>sb_ID = [], sb_GlobalAliases = [], sb_Quotas = zero_quotas\<rparr>"

definition no_permissions :: s3_permissions where
  "no_permissions = \<lparr>p_Owner = False, p_Read = False, p_Write = False\<rparr>"

text \<open>Permissions are ordered flag by flag; the library's order on functions then compares
  whole tables of them.\<close>

instantiation s3_permissions_ext :: (order) order
begin

definition less_eq_s3_permissions_ext ::
  "'a s3_permissions_scheme \<Rightarrow> 'a s3_permissions_scheme \<Rightarrow> bool" where
  "less_eq_s3_permissions_ext p q \<longleftrightarrow> p_Owner p \<le> p_Owner q \<and> p_Read p \<le> p_Read q \<and>
     p_Write p \<le> p_Write q \<and> s3_permissions.more p \<le> s3_permissions.more q"

definition less_s3_permissions_ext ::
  "'a s3_permissions_scheme \<Rightarrow> 'a s3_permissions_scheme \<Rightarrow> bool" where
  "less_s3_permissions_ext p q \<longleftrightarrow> p \<le> q \<and> \<not> q \<le> p"

instance
  by intro_classes
    (auto simp: less_eq_s3_permissions_ext_def less_s3_permissions_ext_def intro: s3_permissions.equality)

end

lemma perm_le_def:
  "p \<le> q \<longleftrightarrow> (p_Owner p \<longrightarrow> p_Owner q) \<and> (p_Read p \<longrightarrow> p_Read q) \<and> (p_Write p \<longrightarrow> p_Write q)"
  for p q :: s3_permissions
  by (auto simp: less_eq_s3_permissions_ext_def)

definition perm_join :: "s3_permissions \<Rightarrow> s3_permissions \<Rightarrow> s3_permissions" where
  "perm_join p q = \<lparr>p_Owner = p_Owner p \<or> p_Owner q, p_Read = p_Read p \<or> p_Read q,
     p_Write = p_Write p \<or> p_Write q\<rparr>"

definition perm_minus :: "s3_permissions \<Rightarrow> s3_permissions \<Rightarrow> s3_permissions" where
  "perm_minus p q = \<lparr>p_Owner = p_Owner p \<and> \<not> p_Owner q, p_Read = p_Read p \<and> \<not> p_Read q,
     p_Write = p_Write p \<and> \<not> p_Write q\<rparr>"

lemma no_permissions_le [simp]: "no_permissions \<le> p"
  by (simp add: perm_le_def no_permissions_def)

lemma perm_minus_le [simp]: "perm_minus p q \<le> p"
  by (simp add: perm_le_def perm_minus_def)

lemma perm_le_joinI: "p \<le> perm_join p q" "q \<le> perm_join p q"
  by (simp_all add: perm_le_def perm_join_def)

end
