(* ===== verification/GarageApi.thy ===== *)
theory GarageApi
  imports S3
begin

text \<open>
  The messages of the Garage admin API (\<^verbatim>\<open>internal/garage/api_types.go\<close>) and their JSON form.
  JSON text is \<open>encoding/json\<close>'s business; the model starts at the JSON value.  Decoding
  follows that package: an object's keys are taken in order, matched to a field up to letter
  case, unknown keys are skipped, \<open>null\<close> leaves a field alone (or makes a pointer \<open>nil\<close>), and
  a value of the wrong kind is an error.
\<close>

datatype json =
    JNull
  | JBool bool
  | JNum int
  | JFrac string
  | JStr string
  | JArr "json list"
  | JObj "(string \<times> json) list"

section \<open>Messages\<close>

record AdminTokenInfo =
  ti_Name :: string
  ti_Expired :: bool
  ti_Scope :: "string list"
  ti_Expiration :: "string option"

record ErrorResponse =
  er_Code :: string
  er_Message :: string

record Quotas =
  gq_MaxObjects :: "int64 option"
  gq_MaxSize :: "int64 option"

record BucketUpdateRequest =
  bu_Quotas :: Quotas

record BucketResponse =
  br_ID :: string
  br_GlobalAliases :: "string list"
  br_Quotas :: Quotas

record CreateKeyRequest =
  ck_Name :: string
  ck_NeverExpires :: bool

record BucketKeyPerm =
  bkp_Owner :: bool
  bkp_Read :: bool
  bkp_Write :: bool

record KeyInfoBucketResponse =
  ki_ID :: string
  ki_GlobalAliases :: "string list"
  ki_Permissions :: BucketKeyPerm

record AccessKeyResponse =
  ak_AccessKeyID :: string
  ak_Buckets :: "KeyInfoBucketResponse list"
  ak_SecretAccessKey :: string
  ak_Name :: string

record AllowBucketKeyRequest =
  abk_AccessKeyID :: string
  abk_BucketID :: string
  abk_Permissions :: BucketKeyPerm

definition quotasFromS3 :: "s3_quotas \<Rightarrow> Quotas" where
  "quotasFromS3 q =
     \<lparr>gq_MaxObjects = (if sint (q_MaxObjects q) > 0 then Some (q_MaxObjects q) else None),
      gq_MaxSize = (if sint (q_MaxSize q) > 0 then Some (q_MaxSize q) else None)\<rparr>"

definition quotasToS3 :: "Quotas \<Rightarrow> s3_quotas" where
  "quotasToS3 q =
     \<lparr>q_MaxObjects = (case gq_MaxObjects q of None \<Rightarrow> 0 | Some v \<Rightarrow> v),
      q_MaxSize = (case gq_MaxSize q of None \<Rightarrow> 0 | Some v \<Rightarrow> v)\<rparr>"

text \<open>The struct conversions \<open>BucketKeyPerm(p)\<close> and \<open>s3.Permissions(p)\<close>.\<close>

definition perm_to_garage :: "s3_permissions \<Rightarrow> BucketKeyPerm" where
  "perm_to_garage p = \<lparr>bkp_Owner = p_Owner p, bkp_Read = p_Read p, bkp_Write = p_Write p\<rparr>"

definition perm_from_garage :: "BucketKeyPerm \<Rightarrow> s3_permissions" where
  "perm_from_garage p = \<lparr>p_Owner = bkp_Owner p, p_Read = bkp_Read p, p_Write = bkp_Write p\<rparr>"

lemma perm_from_to [simp]: "perm_from_garage (perm_to_garage p) = p"
  by (simp add: perm_from_garage_def perm_to_garage_def)

section \<open>Encoding\<close>

definition enc_opt_int :: "int64 option \<Rightarrow> json" where
  "enc_opt_int v = (case v of None \<Rightarrow> JNull | Some i \<Rightarrow> JNum (sint i))"

text \<open>\<open>maxObjects\<close> is written even when \<open>nil\<close>, as \<open>null\<close>; \<open>maxSize\<close> is omitted when \<open>nil\<close>.\<close>

definition enc_quotas :: "Quotas \<Rightarrow> json" where
  "enc_quotas q = JObj
     ((''maxObjects'', enc_opt_int (gq_MaxObjects q)) #
      (case gq_MaxSize q of None \<Rightarrow> [] | Some i \<Rightarrow> [(''maxSize'', JNum (sint i))]))"

definition enc_bucket_update :: "BucketUpdateRequest \<Rightarrow> json" where
  "enc_bucket_update r = JObj [(''quotas'', enc_quotas (bu_Quotas r))]"

definition enc_create_key :: "CreateKeyRequest \<Rightarrow> json" where
  "enc_create_key r = JObj [(''name'', JStr (ck_Name r)), (''neverExpires'', JBool (ck_NeverExpires r))]"

definition enc_perm :: "BucketKeyPerm \<Rightarrow> json" where
  "enc_perm p = JObj [(''owner'', JBool (bkp_Owner p)), (''read'', JBool (bkp_Read p)),
     (''write'', JBool (bkp_Write p))]"

definition enc_allow :: "AllowBucketKeyRequest \<Rightarrow> json" where
  "enc_allow r = JObj [(''accessKeyId'', JStr (abk_AccessKeyID r)),
     (''bucketId'', JStr (abk_BucketID r)), (''permissions'', enc_perm (abk_Permissions r))]"

section \<open>Decoding\<close>

definition decode_error :: error where
  "decode_error = ErrorString ''json: cannot unmarshal value''"

text \<open>A decoder updates a value it is given, as \<open>Decode\<close> does; \<open>Inl\<close> is its error.\<close>

fun dec_string :: "json \<Rightarrow> string \<Rightarrow> error + string" where
  "dec_string JNull s = Inr s"
| "dec_string (JStr t) s = Inr t"
| "dec_string j s = Inl decode_error"

fun dec_bool :: "json \<Rightarrow> bool \<Rightarrow> error + bool" where
  "dec_bool JNull b = Inr b"
| "dec_bool (JBool c) b = Inr c"
| "dec_bool j b = Inl decode_error"

fun dec_ptr :: "(json \<Rightarrow> 'a \<Rightarrow> error + 'a) \<Rightarrow> 'a \<Rightarrow> json \<Rightarrow> 'a option \<Rightarrow> error + 'a option" where
  "dec_ptr d z JNull v = Inr None"
| "dec_ptr d z j v = (case d j (case v of None \<Rightarrow> z | Some x \<Rightarrow> x) of
     Inl e \<Rightarrow> Inl e | Inr x \<Rightarrow> Inr (Some x))"

fun dec_int64 :: "json \<Rightarrow> int64 \<Rightarrow> error + int64" where
  "dec_int64 JNull i = Inr i"
| "dec_int64 (JNum n) i =
     (if - (2 ^ 63) \<le> n \<and> n < 2 ^ 63 then Inr (word_of_int n) else Inl decode_error)"
| "dec_int64 j i = Inl decode_error"

fun dec_elems :: "(json \<Rightarrow> 'a \<Rightarrow> error + 'a) \<Rightarrow> 'a \<Rightarrow> json list \<Rightarrow> error + 'a list" where
  "dec_elems d z [] = Inr []"
| "dec_elems d z (j # js) = (case d j z of Inl e \<Rightarrow> Inl e | Inr x \<Rightarrow>
     (case dec_elems d z js of Inl e \<Rightarrow> Inl e | Inr xs \<Rightarrow> Inr (x # xs)))"

fun dec_list :: "(json \<Rightarrow> 'a \<Rightarrow> error + 'a) \<Rightarrow> 'a \<Rightarrow> json \<Rightarrow> 'a list \<Rightarrow> error + 'a list" where
  "dec_list d z JNull v = Inr []"
| "dec_list d z (JArr js) v = dec_elems d z js"
| "dec_list d z j v = Inl decode_error"

definition lower_char :: "char \<Rightarrow> char" where
  "lower_char c = (let n = of_char c :: nat in if 65 \<le> n \<and> n \<le> 90 then char_of (n + 32) else c)"

definition key_matches :: "string \<Rightarrow> string \<Rightarrow> bool" where
  "key_matches k field \<longleftrightarrow> map lower_char k = map lower_char field"

type_synonym 'r field_decoder = "string \<times> (json \<Rightarrow> 'r \<Rightarrow> error + 'r)"

fun find_field :: "'r field_decoder list \<Rightarrow> string \<Rightarrow> (json \<Rightarrow> 'r \<Rightarrow> error + 'r) option" where
  "find_field [] k = None"
| "find_field ((f, d) # fs) k = (if key_matches k f then Some d else find_field fs k)"

fun dec_fields :: "'r field_decoder list \<Rightarrow> (string \<times> json) list \<Rightarrow> 'r \<Rightarrow> error + 'r" where
  "dec_fields fs [] r = Inr r"
| "dec_fields fs ((k, j) # kvs) r = (case find_field fs k of
     None \<Rightarrow> dec_fields fs kvs r
   | Some d \<Rightarrow> (case d j r of Inl e \<Rightarrow> Inl e | Inr r' \<Rightarrow> dec_fields fs kvs r'))"

fun dec_struct :: "'r field_decoder list \<Rightarrow> json \<Rightarrow> 'r \<Rightarrow> error + 'r" where
  "dec_struct fs JNull r = Inr r"
| "dec_struct fs (JObj kvs) r = dec_fields fs kvs r"
| "dec_struct fs j r = Inl decode_error"

text \<open>One field: decode into its current value, store the result.\<close>

definition dfield ::
  "string \<Rightarrow> ('r \<Rightarrow> 'a) \<Rightarrow> ('a \<Rightarrow> 'r \<Rightarrow> 'r) \<Rightarrow> (json \<Rightarrow> 'a \<Rightarrow> error + 'a) \<Rightarrow> 'r field_decoder" where
  "dfield name get put d =
     (name, \<lambda>j r. case d j (get r) of Inl e \<Rightarrow> Inl e | Inr x \<Rightarrow> Inr (put x r))"

definition zero_Quotas :: Quotas where
  "zero_Quotas = \<lparr>gq_MaxObjects = None, gq_MaxSize = None\<rparr>"

definition dec_quotas :: "json \<Rightarrow> Quotas \<Rightarrow> error + Quotas" where
  "dec_quotas = dec_struct
     [dfield ''maxObjects'' gq_MaxObjects (\<lambda>x r. r\<lparr>gq_MaxObjects := x\<rparr>) (dec_ptr dec_int64 0),
      dfield ''maxSize'' gq_MaxSize (\<lambda>x r. r\<lparr>gq_MaxSize := x\<rparr>) (dec_ptr dec_int64 0)]"

definition zero_BucketResponse :: BucketResponse where
  "zero_BucketResponse = \<lparr>br_ID = [], br_GlobalAliases = [], br_Quotas = zero_Quotas\<rparr>"

definition dec_bucket_response :: "json \<Rightarrow> BucketResponse \<Rightarrow> error + BucketResponse" where
  "dec_bucket_response = dec_struct
     [dfield ''id'' br_ID (\<lambda>x r. r\<lparr>br_ID := x\<rparr>) dec_string,
      dfield ''globalAliases'' br_GlobalAliases (\<lambda>x r. r\<lparr>br_GlobalAliases := x\<rparr>)
        (dec_list dec_string []),
      dfield ''quotas'' br_Quotas (\<lambda>x r. r\<lparr>br_Quotas := x\<rparr>) dec_quotas]"

definition zero_perm :: BucketKeyPerm where
  "zero_perm = \<lparr>bkp_Owner = False, bkp_Read = False, bkp_Write = False\<rparr>"

definition dec_perm :: "json \<Rightarrow> BucketKeyPerm \<Rightarrow> error + BucketKeyPerm" where
  "dec_perm = dec_struct
     [dfield ''owner'' bkp_Owner (\<lambda>x r. r\<lparr>bkp_Owner := x\<rparr>) dec_bool,
      dfield ''read'' bkp_Read (\<lambda>x r. r\<lparr>bkp_Read := x\<rparr>) dec_bool,
      dfield ''write'' bkp_Write (\<lambda>x r. r\<lparr>bkp_Write := x\<rparr>) dec_bool]"

definition zero_KeyInfoBucket :: KeyInfoBucketResponse where
  "zero_KeyInfoBucket = \<lparr>ki_ID = [], ki_GlobalAliases = [], ki_Permissions = zero_perm\<rparr>"

definition dec_key_info_bucket ::
  "json \<Rightarrow> KeyInfoBucketResponse \<Rightarrow> error + KeyInfoBucketResponse" where
  "dec_key_info_bucket = dec_struct
     [dfield ''id'' ki_ID (\<lambda>x r. r\<lparr>ki_ID := x\<rparr>) dec_string,
      dfield ''globalAliases'' ki_GlobalAliases (\<lambda>x r. r\<lparr>ki_GlobalAliases := x\<rparr>)
        (dec_list dec_string []),
      dfield ''permissions'' ki_Permissions (\<lambda>x r. r\<lparr>ki_Permissions := x\<rparr>) dec_perm]"

definition zero_AccessKeyResponse :: AccessKeyResponse where
  "zero_AccessKeyResponse =
     \<lparr>ak_AccessKeyID = [], ak_Buckets = [], ak_SecretAccessKey = [], ak_Name = []\<rparr>"

definition dec_access_key :: "json \<Rightarrow> AccessKeyResponse \<Rightarrow> error + AccessKeyResponse" where
  "dec_access_key = dec_struct
     [dfield ''accessKeyId'' ak_AccessKeyID (\<lambda>x r. r\<lparr>ak_AccessKeyID := x\<rparr>) dec_string,
      dfield ''buckets'' ak_Buckets (\<lambda>x r. r\<lparr>ak_Buckets := x\<rparr>)
        (dec_list dec_key_info_bucket zero_KeyInfoBucket),
      dfield ''secretAccessKey'' ak_SecretAccessKey (\<lambda>x r. r\<lparr>ak_SecretAccessKey := x\<rparr>) dec_string,
      dfield ''name'' ak_Name (\<lambda>x r. r\<lparr>ak_Name := x\<rparr>) dec_string]"

definition zero_ErrorResponse :: ErrorResponse where
  "zero_ErrorResponse = \<lparr>er_Code = [], er_Message = []\<rparr>"

definition dec_error_response :: "json \<Rightarrow> ErrorResponse \<Rightarrow> error + ErrorResponse" where
  "dec_error_response = dec_struct
     [dfield ''code'' er_Code (\<lambda>x r. r\<lparr>er_Code := x\<rparr>) dec_string,
      dfield ''message'' er_Message (\<lambda>x r. r\<lparr>er_Message := x\<rparr>) dec_string]"

definition zero_AdminTokenInfo :: AdminTokenInfo where
  "zero_AdminTokenInfo = \<lparr>ti_Name = [], ti_Expired = False, ti_Scope = [], ti_Expiration = None\<rparr>"

definition dec_token_info :: "json \<Rightarrow> AdminTokenInfo \<Rightarrow> error + AdminTokenInfo" where
  "dec_token_info = dec_struct
     [dfield ''name'' ti_Name (\<lambda>x r. r\<lparr>ti_Name := x\<rparr>) dec_string,
      dfield ''expired'' ti_Expired (\<lambda>x r. r\<lparr>ti_Expired := x\<rparr>) dec_bool,
      dfield ''scope'' ti_Scope (\<lambda>x r. r\<lparr>ti_Scope := x\<rparr>) (dec_list dec_string []),
      dfield ''expiration'' ti_Expiration (\<lambda>x r. r\<lparr>ti_Expiration := x\<rparr>) (dec_ptr dec_string [])]"

definition dec_allow :: "json \<Rightarrow> AllowBucketKeyRequest \<Rightarrow> error + AllowBucketKeyRequest" where
  "dec_allow = dec_struct
     [dfield ''accessKeyId'' abk_AccessKeyID (\<lambda>x r. r\<lparr>abk_AccessKeyID := x\<rparr>) dec_string,
      dfield ''bucketId'' abk_BucketID (\<lambda>x r. r\<lparr>abk_BucketID := x\<rparr>) dec_string,
      dfield ''permissions'' abk_Permissions (\<lambda>x r. r\<lparr>abk_Permissions := x\<rparr>) dec_perm]"

definition zero_allow :: AllowBucketKeyRequest where
  "zero_allow = \<lparr>abk_AccessKeyID = [], abk_BucketID = [], abk_Permissions = zero_perm\<rparr>"

section \<open>Round trips\<close>

lemma lower_char_simps:
  "lower_char CHR ''a'' = CHR ''a''" "lower_char CHR ''b'' = CHR ''b''"
  by (simp_all add: lower_char_def)

lemma dec_perm_enc: "dec_perm (enc_perm p) r = Inr p"
  by (simp add: dec_perm_def enc_perm_def dfield_def key_matches_def lower_char_def)

lemma dec_allow_enc: "dec_allow (enc_allow q) r = Inr q"
  by (simp add: dec_allow_def enc_allow_def dfield_def key_matches_def lower_char_def dec_perm_enc)

lemma dec_quotas_enc:
  "dec_quotas (enc_quotas q) zero_Quotas = Inr q"
  using sint64_range
  by (cases q; cases "gq_MaxObjects q"; cases "gq_MaxSize q")
    (simp_all add: dec_quotas_def enc_quotas_def enc_opt_int_def dfield_def key_matches_def
      lower_char_def zero_Quotas_def not_le not_less)

lemma sint_zero_cases: "\<not> 0 < sint x \<Longrightarrow> \<not> sint x < 0 \<Longrightarrow> x = (0 :: int64)"
  by (metis linorder_less_linear sint_0 word_eq_iff_signed)

lemma quotas_keep:
  "0 \<le> sint (q_MaxObjects q) \<Longrightarrow> 0 \<le> sint (q_MaxSize q) \<Longrightarrow>
     quotasToS3 (quotasFromS3 q) = q"
  using sint_zero_cases [of "q_MaxObjects q"] sint_zero_cases [of "q_MaxSize q"]
  by (cases q) (auto simp: quotasToS3_def quotasFromS3_def not_less)

text \<open>
  C39: quotas survive the trip to Garage and back exactly when neither is negative: encoded as
  an UpdateBucket request, decoded and converted back, a quota of the spec is itself when it
  is at least zero and zero (no limit) when it is negative.
\<close>

theorem quotas_roundtrip:
  "\<exists>g. dec_quotas (enc_quotas (quotasFromS3 q)) zero_Quotas = Inr g \<and>
     quotasToS3 g = \<lparr>q_MaxObjects = (if sint (q_MaxObjects q) < 0 then 0 else q_MaxObjects q),
                     q_MaxSize = (if sint (q_MaxSize q) < 0 then 0 else q_MaxSize q)\<rparr> \<and>
     (quotasToS3 g = q \<longleftrightarrow> 0 \<le> sint (q_MaxObjects q) \<and> 0 \<le> sint (q_MaxSize q))"
proof -
  have v: "quotasToS3 (quotasFromS3 q) =
      \<lparr>q_MaxObjects = (if sint (q_MaxObjects q) < 0 then 0 else q_MaxObjects q),
       q_MaxSize = (if sint (q_MaxSize q) < 0 then 0 else q_MaxSize q)\<rparr>"
    using sint_zero_cases [of "q_MaxObjects q"] sint_zero_cases [of "q_MaxSize q"]
    by (auto simp: quotasToS3_def quotasFromS3_def)
  moreover have "quotasToS3 (quotasFromS3 q) = q \<longleftrightarrow>
      0 \<le> sint (q_MaxObjects q) \<and> 0 \<le> sint (q_MaxSize q)"
    unfolding v by (cases q) (auto simp: not_less)
  ultimately show ?thesis using dec_quotas_enc [of "quotasFromS3 q"] by blast
qed

end
