(* ===== verification/GarageClient.thy ===== *)
theory GarageClient
  imports GarageApi
begin

text \<open>
  The client of the Garage admin API (\<^verbatim>\<open>internal/garage/client.go\<close>) with its request
  metrics (\<^verbatim>\<open>internal/garage/metrics.go\<close>).

  \<open>net/http\<close> and the network are the parameter \<open>transport\<close>: a request goes out, a response
  or an error comes back, and the outside state changes.  It stands for everything \<open>send\<close>
  does after the request is described: joining and parsing the URL, building the request and
  \<open>Do\<close>; all their failures are \<open>Inl\<close> answers.  A response body is its text and, when the
  text is JSON, its value.  The log of the client's world holds every exchange and every
  metrics record.
\<close>

section \<open>Requests, responses, the log\<close>

record http_request =
  rq_Method :: string
  rq_BaseURL :: string
  rq_Path :: string
  rq_Query :: "(string \<times> string) list"
  rq_Header :: "(string \<times> string) list"
  rq_Body :: "json option"

record http_response =
  rs_StatusCode :: int
  rs_Text :: string
  rs_Json :: "json option"

datatype http_event =
    Exchange http_request "error + http_response"
  | Recorded string

type_synonym 's gworld = "('s, http_event) world"
type_synonym 's transport = "http_request \<Rightarrow> 's \<Rightarrow> (error + http_response) \<times> 's"

section \<open>metrics.go\<close>

definition codeHTTP2xx :: string where "codeHTTP2xx = ''2xx''"
definition codeHTTP3xx :: string where "codeHTTP3xx = ''3xx''"
definition codeHTTP4xx :: string where "codeHTTP4xx = ''4xx''"
definition codeHTTP5xx :: string where "codeHTTP5xx = ''5xx''"
definition codeError :: string where "codeError = ''error''"

definition statusClass :: "int \<Rightarrow> string" where
  "statusClass code =
     (if 200 \<le> code \<and> code < 300 then codeHTTP2xx
      else if 300 \<le> code \<and> code < 400 then codeHTTP3xx
      else if 400 \<le> code \<and> code < 500 then codeHTTP4xx
      else codeHTTP5xx)"

section \<open>client.go: the HTTP layer\<close>

text \<open>\<open>httpClient\<close> is the transport; \<open>metrics\<close> is only tested for \<open>nil\<close>.\<close>

record adminAPIHttpClient =
  hc_token :: string
  hc_baseURL :: string
  hc_metrics :: bool

definition WithMetrics :: "adminAPIHttpClient \<Rightarrow> adminAPIHttpClient" where
  "WithMetrics c = c\<lparr>hc_metrics := True\<rparr>"

definition NewClient ::
  "string \<Rightarrow> string \<Rightarrow> (adminAPIHttpClient \<Rightarrow> adminAPIHttpClient) list \<Rightarrow> adminAPIHttpClient" where
  "NewClient apiAddr token opts =
     foldl (\<lambda>c opt. opt c) \<lparr>hc_token = token, hc_baseURL = apiAddr, hc_metrics = False\<rparr> opts"

definition mk_request ::
  "adminAPIHttpClient \<Rightarrow> string \<Rightarrow> string \<Rightarrow> (string \<times> string) list \<Rightarrow> json option \<Rightarrow> http_request" where
  "mk_request c method path query body =
     \<lparr>rq_Method = method, rq_BaseURL = hc_baseURL c, rq_Path = path, rq_Query = query,
      rq_Header = [(''Authorization'', ''Bearer '' @ hc_token c),
                   (''Content-Type'', ''application/json'')],
      rq_Body = body\<rparr>"

definition send ::
  "'s transport \<Rightarrow> adminAPIHttpClient \<Rightarrow> string \<Rightarrow> string \<Rightarrow> (string \<times> string) list \<Rightarrow> json option \<Rightarrow>
     ('s gworld, error + http_response) state" where
  "send T c method path query body =
     (let req = mk_request c method path query body in call (T req) (Exchange req))"

definition doRequest ::
  "'s transport \<Rightarrow> adminAPIHttpClient \<Rightarrow> string \<Rightarrow> string \<Rightarrow> (string \<times> string) list \<Rightarrow> json option \<Rightarrow>
     ('s gworld, error + http_response) state" where
  "doRequest T c method path query body = do {
     r \<leftarrow> send T c method path query body;
     _ \<leftarrow> (if hc_metrics c
          then emit (Recorded (case r of Inl e \<Rightarrow> codeError | Inr resp \<Rightarrow> statusClass (rs_StatusCode resp)))
          else State_Monad.return ());
     State_Monad.return r
   }"

definition unmarshalBody :: "(json \<Rightarrow> 'a \<Rightarrow> error + 'a) \<Rightarrow> 'a \<Rightarrow> http_response \<Rightarrow> error + 'a" where
  "unmarshalBody d z resp = (case rs_Json resp of
     None \<Rightarrow> Inl (ErrorString ''json: invalid body'')
   | Some j \<Rightarrow> d j z)"

definition unexpected_status :: "string \<Rightarrow> http_response \<Rightarrow> error" where
  "unexpected_status pre resp =
     ErrorString (pre @ ''unexpected status code '' @ show_int (rs_StatusCode resp))"

section \<open>ClusterClient\<close>

definition Health :: "'s transport \<Rightarrow> adminAPIHttpClient \<Rightarrow> ('s gworld, error option) state" where
  "Health T c = do {
     r \<leftarrow> doRequest T c ''GET'' ''/v2/GetCurrentAdminTokenInfo'' [] None;
     State_Monad.return (case r of
       Inl e \<Rightarrow> Some (wrap ''garage admin api health: '' e)
     | Inr resp \<Rightarrow>
         if rs_StatusCode resp \<noteq> 200 then
           if rs_StatusCode resp = 403
           then Some (ErrorString (''garage admin api health: forbidden (status '' @
                  show_int (rs_StatusCode resp) @ '')''))
           else Some (unexpected_status ''garage admin api health: '' resp)
         else None)
   }"

definition CurrentTokenInfo ::
  "'s transport \<Rightarrow> adminAPIHttpClient \<Rightarrow> ('s gworld, error + AdminTokenInfo) state" where
  "CurrentTokenInfo T c = do {
     r \<leftarrow> doRequest T c ''GET'' ''/v2/GetCurrentAdminTokenInfo'' [] None;
     State_Monad.return (case r of
       Inl e \<Rightarrow> Inl (wrap ''garage admin token info: '' e)
     | Inr resp \<Rightarrow>
         if rs_StatusCode resp \<noteq> 200 then
           if rs_StatusCode resp = 403
           then Inl (ErrorString (''garage admin token info: token rejected (status '' @
                  show_int (rs_StatusCode resp) @ '')''))
           else Inl (unexpected_status ''garage admin token info: '' resp)
         else unmarshalBody dec_token_info zero_AdminTokenInfo resp)
   }"

section \<open>AccessKeyClient\<close>

definition key_to_s3 :: "AccessKeyResponse \<Rightarrow> s3_access_key" where
  "key_to_s3 r = \<lparr>sk_ID = ak_AccessKeyID r, sk_Secret = ak_SecretAccessKey r, sk_Name = ak_Name r\<rparr>"

definition AccessKeyClient_Create ::
  "'s transport \<Rightarrow> adminAPIHttpClient \<Rightarrow> string \<Rightarrow> ('s gworld, error + s3_access_key) state" where
  "AccessKeyClient_Create T c keyName = do {
     let request = \<lparr>ck_Name = keyName, ck_NeverExpires = True\<rparr>;
     r \<leftarrow> doRequest T c ''POST'' ''/v2/CreateKey'' [] (Some (enc_create_key request));
     State_Monad.return (case r of
       Inl e \<Rightarrow> Inl (wrap ''create key: '' e)
     | Inr resp \<Rightarrow>
         if rs_StatusCode resp \<noteq> 200 then Inl (unexpected_status [] resp)
         else (case unmarshalBody dec_access_key zero_AccessKeyResponse resp of
                 Inl e \<Rightarrow> Inl e
               | Inr result \<Rightarrow> Inr (key_to_s3 result)))
   }"

definition key_query :: "string \<Rightarrow> string \<Rightarrow> bool \<Rightarrow> (string \<times> string) list" where
  "key_query ident search retrieveSecret =
     (if ident \<noteq> [] then [(''id'', ident)] else []) @
     (if search \<noteq> [] then [(''search'', search)] else []) @
     [(''showSecretKey'', if retrieveSecret then ''true'' else ''false'')]"

definition AccessKeyClient_get ::
  "'s transport \<Rightarrow> adminAPIHttpClient \<Rightarrow> string \<Rightarrow> string \<Rightarrow> bool \<Rightarrow>
     ('s gworld, error + AccessKeyResponse) state" where
  "AccessKeyClient_get T c ident search retrieveSecret = do {
     r \<leftarrow> doRequest T c ''GET'' ''/v2/GetKeyInfo'' (key_query ident search retrieveSecret) None;
     State_Monad.return (case r of
       Inl e \<Rightarrow> Inl (wrap ''get key: '' e)
     | Inr resp \<Rightarrow>
         if rs_StatusCode resp \<noteq> 200 then
           if rs_StatusCode resp = 404
           then Inl (Wrapped (sentinel_text ErrResourceNotFound @ '': id '' @ [CHR 0x27] @ ident @
                  [CHR 0x27] @ ''; search '' @ [CHR 0x27] @ search @ [CHR 0x27])
                  [Sentinel ErrResourceNotFound])
           else if rs_StatusCode resp = 400 \<and> search \<noteq> [] \<and> ident = []
           then (case unmarshalBody dec_error_response zero_ErrorResponse resp of
                   Inl e \<Rightarrow> Inl (Wrapped (sentinel_text ErrMultipleMatches @ '': search '' @
                     quote search @ '': unreadable error body: '' @ errmsg e)
                     [Sentinel ErrMultipleMatches, e])
                 | Inr apiErr \<Rightarrow> Inl (Wrapped (sentinel_text ErrMultipleMatches @ '': search '' @
                     quote search @ '': '' @ er_Message apiErr) [Sentinel ErrMultipleMatches]))
           else Inl (unexpected_status [] resp)
         else unmarshalBody dec_access_key zero_AccessKeyResponse resp)
   }"

definition AccessKeyClient_Get ::
  "'s transport \<Rightarrow> adminAPIHttpClient \<Rightarrow> string \<Rightarrow> ('s gworld, error + s3_access_key) state" where
  "AccessKeyClient_Get T c ident = do {
     r \<leftarrow> AccessKeyClient_get T c ident [] True;
     State_Monad.return (case r of Inl e \<Rightarrow> Inl e | Inr result \<Rightarrow> Inr (key_to_s3 result))
   }"

definition AccessKeyClient_Lookup ::
  "'s transport \<Rightarrow> adminAPIHttpClient \<Rightarrow> string \<Rightarrow> ('s gworld, error + s3_access_key) state" where
  "AccessKeyClient_Lookup T c search = do {
     r \<leftarrow> AccessKeyClient_get T c [] search True;
     State_Monad.return (case r of Inl e \<Rightarrow> Inl e | Inr result \<Rightarrow> Inr (key_to_s3 result))
   }"

definition AccessKeyClient_Delete ::
  "'s transport \<Rightarrow> adminAPIHttpClient \<Rightarrow> string \<Rightarrow> ('s gworld, error option) state" where
  "AccessKeyClient_Delete T c ident = do {
     r \<leftarrow> doRequest T c ''POST'' ''/v2/DeleteKey'' [(''id'', ident)] None;
     State_Monad.return (case r of
       Inl e \<Rightarrow> Some (wrap (''delete key '' @ ident @ '': '') e)
     | Inr resp \<Rightarrow>
         if rs_StatusCode resp \<noteq> 200 then
           if rs_StatusCode resp = 404
           then Some (wrap (''delete key '' @ ident @ '': '') (Sentinel ErrResourceNotFound))
           else Some (unexpected_status ''delete key: '' resp)
         else None)
   }"

section \<open>BucketClient\<close>

definition bucket_to_s3 :: "BucketResponse \<Rightarrow> s3_bucket" where
  "bucket_to_s3 r = \<lparr>sb_ID = br_ID r, sb_GlobalAliases = br_GlobalAliases r,
     sb_Quotas = quotasToS3 (br_Quotas r)\<rparr>"

text \<open>On a conflict the code formats a \<open>nil\<close> error with \<open>%w\<close>: the message shows Go's
  bad-verb marker and only \<open>ErrBucketExists\<close> is wrapped.\<close>

definition BucketClient_Create ::
  "'s transport \<Rightarrow> adminAPIHttpClient \<Rightarrow> string \<Rightarrow> ('s gworld, error + s3_bucket) state" where
  "BucketClient_Create T c globalAlias = do {
     r \<leftarrow> doRequest T c ''POST'' ''/v2/CreateBucket'' []
            (Some (JObj [(''globalAlias'', JStr globalAlias)]));
     State_Monad.return (case r of
       Inl e \<Rightarrow> Inl e
     | Inr resp \<Rightarrow>
         if rs_StatusCode resp \<noteq> 200 then
           if rs_StatusCode resp = 409
           then Inl (Wrapped (sentinel_text ErrBucketExists @ '': %!w(<nil>)'') [Sentinel ErrBucketExists])
           else Inl (unexpected_status [] resp)
         else (case unmarshalBody dec_bucket_response zero_BucketResponse resp of
                 Inl e \<Rightarrow> Inl e
               | Inr result \<Rightarrow> Inr (bucket_to_s3 result)))
   }"

definition getBucketResponse ::
  "'s transport \<Rightarrow> adminAPIHttpClient \<Rightarrow> string \<Rightarrow> ('s gworld, error + BucketResponse) state" where
  "getBucketResponse T c globalAlias = do {
     r \<leftarrow> doRequest T c ''GET'' ''/v2/GetBucketInfo'' [(''globalAlias'', globalAlias)] None;
     State_Monad.return (case r of
       Inl e \<Rightarrow> Inl (wrap (''retrieve bucket '' @ [CHR 0x27] @ globalAlias @ [CHR 0x27] @ '': '') e)
     | Inr resp \<Rightarrow>
         if rs_StatusCode resp \<noteq> 200 then
           if rs_StatusCode resp = 404
           then Inl (Wrapped (sentinel_text ErrResourceNotFound @ '': with alias '' @ globalAlias)
                  [Sentinel ErrResourceNotFound])
           else Inl (unexpected_status [] resp)
         else (case unmarshalBody dec_bucket_response zero_BucketResponse resp of
                 Inl e \<Rightarrow> Inl (wrap ''reading /v2/GetBucketInfo response: '' e)
               | Inr result \<Rightarrow> Inr result))
   }"

definition BucketClient_Get ::
  "'s transport \<Rightarrow> adminAPIHttpClient \<Rightarrow> string \<Rightarrow> ('s gworld, error + s3_bucket) state" where
  "BucketClient_Get T c globalAlias = do {
     r \<leftarrow> getBucketResponse T c globalAlias;
     State_Monad.return (case r of Inl e \<Rightarrow> Inl e | Inr result \<Rightarrow> Inr (bucket_to_s3 result))
   }"

definition BucketClient_Update ::
  "'s transport \<Rightarrow> adminAPIHttpClient \<Rightarrow> string \<Rightarrow> s3_quotas \<Rightarrow> ('s gworld, error option) state" where
  "BucketClient_Update T c ident quotas = do {
     let request = \<lparr>bu_Quotas = quotasFromS3 quotas\<rparr>;
     r \<leftarrow> doRequest T c ''POST'' ''/v2/UpdateBucket'' [(''id'', ident)] (Some (enc_bucket_update request));
     State_Monad.return (case r of
       Inl e \<Rightarrow> Some (wrap ''update bucket request: '' e)
     | Inr resp \<Rightarrow>
         if rs_StatusCode resp \<noteq> 200 then
           if rs_StatusCode resp = 404
           then Some (Wrapped (''update bucket: '' @ sentinel_text ErrResourceNotFound @ '' for id '' @
                  [CHR 0x27] @ ident @ [CHR 0x27]) [Sentinel ErrResourceNotFound])
           else Some (ErrorString (''update bucket: unexpected status code '' @
                  show_int (rs_StatusCode resp) @ '': '' @ rs_Text resp))
         else None)
   }"

section \<open>PermissionClient\<close>

definition allowBucketKey ::
  "'s transport \<Rightarrow> adminAPIHttpClient \<Rightarrow> string \<Rightarrow> string \<Rightarrow> s3_permissions \<Rightarrow>
     ('s gworld, error option) state" where
  "allowBucketKey T c keyID bucketID permissions = do {
     let request = \<lparr>abk_AccessKeyID = keyID, abk_BucketID = bucketID,
                    abk_Permissions = perm_to_garage permissions\<rparr>;
     r \<leftarrow> doRequest T c ''POST'' ''/v2/AllowBucketKey'' [] (Some (enc_allow request));
     State_Monad.return (case r of
       Inl e \<Rightarrow> Some (wrap ''allow bucket key request: '' e)
     | Inr resp \<Rightarrow>
         if rs_StatusCode resp \<noteq> 200
         then Some (ErrorString (''update bucket: unexpected status code '' @
                show_int (rs_StatusCode resp) @ '': '' @ rs_Text resp))
         else None)
   }"

definition denyBucketKey ::
  "'s transport \<Rightarrow> adminAPIHttpClient \<Rightarrow> string \<Rightarrow> string \<Rightarrow> s3_permissions \<Rightarrow>
     ('s gworld, error option) state" where
  "denyBucketKey T c keyID bucketID denyPermissions = do {
     let request = \<lparr>abk_AccessKeyID = keyID, abk_BucketID = bucketID,
                    abk_Permissions = perm_to_garage denyPermissions\<rparr>;
     r \<leftarrow> doRequest T c ''POST'' ''/v2/DenyBucketKey'' [] (Some (enc_allow request));
     State_Monad.return (case r of
       Inl e \<Rightarrow> Some (wrap ''deny bucket key request: '' e)
     | Inr resp \<Rightarrow>
         if rs_StatusCode resp \<noteq> 200 then
           if rs_StatusCode resp = 404
           then Some (Wrapped (sentinel_text ErrResourceNotFound @ '': '' @ rs_Text resp)
                  [Sentinel ErrResourceNotFound])
           else Some (ErrorString (''deny bucket key: unexpected status code '' @
                  show_int (rs_StatusCode resp) @ '': '' @ rs_Text resp))
         else None)
   }"

definition SetPermissions ::
  "'s transport \<Rightarrow> adminAPIHttpClient \<Rightarrow> string \<Rightarrow> string \<Rightarrow> s3_permissions \<Rightarrow>
     ('s gworld, error option) state" where
  "SetPermissions T c keyID bucketID permissions = do {
     let denyPermissions = \<lparr>p_Owner = \<not> p_Owner permissions, p_Read = \<not> p_Read permissions,
                            p_Write = \<not> p_Write permissions\<rparr>;
     err \<leftarrow> denyBucketKey T c keyID bucketID denyPermissions;
     (case err of
        Some e \<Rightarrow> State_Monad.return (Some e)
      | None \<Rightarrow>
          if \<not> p_Owner permissions \<and> \<not> p_Read permissions \<and> \<not> p_Write permissions
          then State_Monad.return None
          else allowBucketKey T c keyID bucketID permissions)
   }"

definition GetPermissions ::
  "'s transport \<Rightarrow> adminAPIHttpClient \<Rightarrow> string \<Rightarrow> string \<Rightarrow>
     ('s gworld, error + s3_permissions) state" where
  "GetPermissions T c keyID bucketID = do {
     r \<leftarrow> AccessKeyClient_get T c keyID [] False;
     State_Monad.return (case r of
       Inl e \<Rightarrow> Inl e
     | Inr key \<Rightarrow> (case List.find (\<lambda>b. ki_ID b = bucketID) (ak_Buckets key) of
         Some b \<Rightarrow> Inr (perm_from_garage (ki_Permissions b))
       | None \<Rightarrow> Inr no_permissions))
   }"

end
