(* ===== verification/GarageSpec.thy ===== *)
theory GarageSpec
  imports GarageClient
begin

text \<open>
  What the Garage client promises its callers.

  The abstract view of the service is a sequence of writes and a permission table.  Both are
  read off the client's log: \<open>http_write\<close> reads a request back as the write it asks for,
  \<open>perm_effect\<close> is the documented effect of an AllowBucketKey or DenyBucketKey call that Garage
  carried out (flags set to true are granted, respectively removed, the others are kept): one it
  acknowledged, or one whose answer was lost.

  Three locales are the interfaces the controllers use (\<open>BucketClient\<close>, \<open>AccessKeyManager\<close>,
  and \<open>PermissionClient\<close> with \<open>OwnershipVerifier\<close>); each is interpreted on the client's own
  functions, for every transport.
\<close>

section \<open>Running one request\<close>

definition request_events ::
  "adminAPIHttpClient \<Rightarrow> http_request \<Rightarrow> error + http_response \<Rightarrow> http_event list" where
  "request_events c rq r = Exchange rq r #
     (if hc_metrics c
      then [Recorded (case r of Inl e \<Rightarrow> codeError | Inr resp \<Rightarrow> statusClass (rs_StatusCode resp))]
      else [])"

lemma wp_doRequest [wp_simps]:
  "wp (doRequest T c method path q body) Q w =
     (\<forall>r s. T (mk_request c method path q body) (ext w) = (r, s) \<longrightarrow>
        Q r (w\<lparr>ext := s, log := log w @
               request_events c (mk_request c method path q body) r\<rparr>))"
  by (auto simp: doRequest_def send_def Let_def wp_simps request_events_def)

section \<open>Writes\<close>

datatype garage_write =
    WCreateBucket string
  | WUpdateBucket string s3_quotas
  | WCreateKey string
  | WDeleteKey string
  | WAllow string string s3_permissions
  | WDeny string string s3_permissions

definition perm_write ::
  "(string \<Rightarrow> string \<Rightarrow> s3_permissions \<Rightarrow> garage_write) \<Rightarrow> json \<Rightarrow> garage_write option" where
  "perm_write f j = (case dec_allow j zero_allow of
     Inl e \<Rightarrow> None
   | Inr a \<Rightarrow> Some (f (abk_AccessKeyID a) (abk_BucketID a) (perm_from_garage (abk_Permissions a))))"

definition http_write :: "http_request \<Rightarrow> garage_write option" where
  "http_write rq =
    (if rq_Method rq \<noteq> ''POST'' then None
     else if rq_Path rq = ''/v2/CreateBucket'' then
       (case rq_Body rq of Some (JObj [(k, JStr a)]) \<Rightarrow> Some (WCreateBucket a) | _ \<Rightarrow> None)
     else if rq_Path rq = ''/v2/UpdateBucket'' then
       (case (rq_Query rq, rq_Body rq) of
          ([(k, i)], Some (JObj [(k', j)])) \<Rightarrow>
            (case dec_quotas j zero_Quotas of
               Inl e \<Rightarrow> None | Inr g \<Rightarrow> Some (WUpdateBucket i (quotasToS3 g)))
        | _ \<Rightarrow> None)
     else if rq_Path rq = ''/v2/CreateKey'' then
       (case rq_Body rq of Some (JObj ((k, JStr n) # kvs)) \<Rightarrow> Some (WCreateKey n) | _ \<Rightarrow> None)
     else if rq_Path rq = ''/v2/DeleteKey'' then
       (case rq_Query rq of [(k, i)] \<Rightarrow> Some (WDeleteKey i) | _ \<Rightarrow> None)
     else if rq_Path rq = ''/v2/AllowBucketKey'' then Option.bind (rq_Body rq) (perm_write WAllow)
     else if rq_Path rq = ''/v2/DenyBucketKey'' then Option.bind (rq_Body rq) (perm_write WDeny)
     else None)"

fun event_writes :: "http_event \<Rightarrow> garage_write list" where
  "event_writes (Exchange rq r) = (case http_write rq of None \<Rightarrow> [] | Some x \<Rightarrow> [x])"
| "event_writes (Recorded m) = []"

definition garage_writes :: "'s gworld \<Rightarrow> garage_write list" where
  "garage_writes w = concat (map event_writes (log w))"

lemma event_writes_request [simp]:
  "concat (map event_writes (request_events c rq r)) =
     (case http_write rq of None \<Rightarrow> [] | Some x \<Rightarrow> [x])"
  by (simp add: request_events_def split: option.splits)

lemma http_write_simps [simp]:
  "http_write (mk_request c ''GET'' path q b) = None"
  "http_write (mk_request c ''POST'' ''/v2/CreateBucket'' q (Some (JObj [(''globalAlias'', JStr a)]))) =
     Some (WCreateBucket a)"
  "http_write (mk_request c ''POST'' ''/v2/UpdateBucket'' [(''id'', i)]
       (Some (enc_bucket_update \<lparr>bu_Quotas = quotasFromS3 qs\<rparr>))) =
     Some (WUpdateBucket i (quotasToS3 (quotasFromS3 qs)))"
  "http_write (mk_request c ''POST'' ''/v2/CreateKey'' q
       (Some (enc_create_key \<lparr>ck_Name = n, ck_NeverExpires = e\<rparr>))) = Some (WCreateKey n)"
  "http_write (mk_request c ''POST'' ''/v2/DeleteKey'' [(''id'', i)] b) = Some (WDeleteKey i)"
  "http_write (mk_request c ''POST'' ''/v2/AllowBucketKey'' q
       (Some (enc_allow \<lparr>abk_AccessKeyID = k, abk_BucketID = bk,
                abk_Permissions = perm_to_garage p\<rparr>))) = Some (WAllow k bk p)"
  "http_write (mk_request c ''POST'' ''/v2/DenyBucketKey'' q
       (Some (enc_allow \<lparr>abk_AccessKeyID = k, abk_BucketID = bk,
                abk_Permissions = perm_to_garage p\<rparr>))) = Some (WDeny k bk p)"
  by (simp_all add: http_write_def mk_request_def enc_bucket_update_def enc_create_key_def
      perm_write_def dec_allow_enc dec_quotas_enc)

section \<open>The permission table\<close>

type_synonym perm_table = "string \<Rightarrow> string \<Rightarrow> s3_permissions"

definition set_entry :: "perm_table \<Rightarrow> string \<Rightarrow> string \<Rightarrow> s3_permissions \<Rightarrow> perm_table" where
  "set_entry t k b p = t(k := (t k)(b := p))"

lemma set_entry_simps [simp]:
  "set_entry t k b p k b = p"
  "(k', b') \<noteq> (k, b) \<Longrightarrow> set_entry t k b p k' b' = t k' b'"
  "set_entry (set_entry t k b p) k b q = set_entry t k b q"
  "set_entry t k b (t k b) = t"
  by (auto simp: set_entry_def)

fun write_effect :: "garage_write \<Rightarrow> perm_table \<Rightarrow> perm_table" where
  "write_effect (WAllow k b p) t = set_entry t k b (perm_join (t k b) p)"
| "write_effect (WDeny k b p) t = set_entry t k b (perm_minus (t k b) p)"
| "write_effect _ t = t"

definition acknowledged :: "error + http_response \<Rightarrow> bool" where
  "acknowledged r = (case r of Inl e \<Rightarrow> False | Inr resp \<Rightarrow> rs_StatusCode resp = 200)"

text \<open>What the log does not tell: Garage's table before the first exchange, and which of the
  requests it did not acknowledge it carried out all the same, by their position in the log (a
  lost response, a failure after the write).  All that follows holds for any such server.\<close>

record permission_server =
  start_table :: perm_table
  carried_out :: "nat \<Rightarrow> bool"

fun perm_effect :: "bool \<Rightarrow> http_event \<Rightarrow> perm_table \<Rightarrow> perm_table" where
  "perm_effect hit (Exchange rq r) t =
     (if acknowledged r \<or> hit then (case http_write rq of None \<Rightarrow> t | Some x \<Rightarrow> write_effect x t)
      else t)"
| "perm_effect hit (Recorded m) t = t"

text \<open>The table after a run of the client.\<close>

definition granted_from :: "permission_server \<Rightarrow> 's gworld \<Rightarrow> perm_table" where
  "granted_from srv w =
     fold (\<lambda>(n, e). perm_effect (carried_out srv n) e) (enumerate 0 (log w)) (start_table srv)"

lemma enumerate_append: "enumerate n (xs @ ys) = enumerate n xs @ enumerate (n + length xs) ys"
  by (induction xs arbitrary: n) simp_all

lemma granted_from_request:
  "granted_from srv (w\<lparr>ext := s, log := log w @ request_events c rq r\<rparr>) =
     perm_effect (carried_out srv (length (log w))) (Exchange rq r) (granted_from srv w)"
  by (simp add: granted_from_def request_events_def enumerate_append)

lemma garage_writes_request:
  "garage_writes (w\<lparr>ext := s, log := log w @ request_events c rq r\<rparr>) =
     garage_writes w @ (case http_write rq of None \<Rightarrow> [] | Some x \<Rightarrow> [x])"
  by (simp add: garage_writes_def)

lemmas request_view = granted_from_request garage_writes_request

text \<open>A server with a given table that carries out what it acknowledges and nothing else.\<close>

definition server_with :: "perm_table \<Rightarrow> permission_server" where
  "server_with t = \<lparr>start_table = t, carried_out = \<lambda>_. False\<rparr>"

lemma granted_from_start [simp]: "granted_from srv \<lparr>ext = s, log = []\<rparr> = start_table srv"
  by (simp add: granted_from_def)

lemma server_with_simps [simp]:
  "start_table (server_with t) = t" "carried_out (server_with t) n = False"
  by (simp_all add: server_with_def)

section \<open>The bucket service\<close>

locale bucket_service =
  fixes create :: "string \<Rightarrow> 's \<Rightarrow> (error + s3_bucket) \<times> 's"
    and get :: "string \<Rightarrow> 's \<Rightarrow> (error + s3_bucket) \<times> 's"
    and update :: "string \<Rightarrow> s3_quotas \<Rightarrow> 's \<Rightarrow> error option \<times> 's"
    and writes :: "'s \<Rightarrow> garage_write list"
  assumes get_writes: "get a s = (r, s') \<Longrightarrow> writes s' = writes s"
    and create_writes: "create a s = (r, s') \<Longrightarrow> writes s' = writes s @ [WCreateBucket a]"
    and update_writes: "update i q s = (r', s') \<Longrightarrow>
      writes s' = writes s @ [WUpdateBucket i (quotasToS3 (quotasFromS3 q))]"
begin

text \<open>Looking before creating: at most one bucket is created, and none when it was found.\<close>

lemma get_then_create:
  assumes "get a s = (r, s1)" and "create a s1 = (r', s2)"
  shows "writes s2 = writes s @ [WCreateBucket a]"
  using get_writes [OF assms(1)] create_writes [OF assms(2)] by simp

lemma get_then_update:
  assumes "get a s = (r, s1)" and "update i q s1 = (r', s2)"
    and "0 \<le> sint (q_MaxObjects q)" and "0 \<le> sint (q_MaxSize q)"
  shows "writes s2 = writes s @ [WUpdateBucket i q]"
proof -
  have "quotasToS3 (quotasFromS3 q) = q"
    using quotas_keep assms(3,4) by blast
  then show ?thesis
    using get_writes [OF assms(1)] update_writes [OF assms(2)] by simp
qed

end

section \<open>The key service\<close>

locale key_service =
  fixes create :: "string \<Rightarrow> 's \<Rightarrow> (error + s3_access_key) \<times> 's"
    and get :: "string \<Rightarrow> 's \<Rightarrow> (error + s3_access_key) \<times> 's"
    and lookup :: "string \<Rightarrow> 's \<Rightarrow> (error + s3_access_key) \<times> 's"
    and delete :: "string \<Rightarrow> 's \<Rightarrow> error option \<times> 's"
    and writes :: "'s \<Rightarrow> garage_write list"
  assumes create_writes: "create n s = (r, s') \<Longrightarrow> writes s' = writes s @ [WCreateKey n]"
    and get_writes: "get i s = (r, s') \<Longrightarrow> writes s' = writes s"
    and lookup_writes: "lookup n s = (r, s') \<Longrightarrow> writes s' = writes s"
    and delete_writes: "delete i s = (r', s') \<Longrightarrow> writes s' = writes s @ [WDeleteKey i]"

section \<open>The permission service\<close>

locale permission_service =
  fixes set_perms :: "string \<Rightarrow> string \<Rightarrow> s3_permissions \<Rightarrow> 's \<Rightarrow> error option \<times> 's"
    and get_perms :: "string \<Rightarrow> string \<Rightarrow> 's \<Rightarrow> (error + s3_permissions) \<times> 's"
    and granted :: "'s \<Rightarrow> perm_table"
  assumes set_ok: "set_perms k b p s = (None, s') \<Longrightarrow> granted s' = set_entry (granted s) k b p"
    and set_err: "set_perms k b p s = (Some e, s') \<Longrightarrow>
      \<exists>q. granted s' = set_entry (granted s) k b q \<and> (q \<le> granted s k b \<or> q = p)"
    and get_frame: "get_perms k b s = (r, s') \<Longrightarrow> granted s' = granted s"
begin

lemma set_frame:
  assumes "set_perms k b p s = (r, s')" and "(k', b') \<noteq> (k, b)"
  shows "granted s' k' b' = granted s k' b'"
  using assms set_ok [of k b p s s'] set_err [of k b p s _ s'] by (cases r) auto

lemma set_bound:
  assumes "set_perms k b p s = (r, s')"
  shows "granted s' k b \<le> perm_join (granted s k b) p"
proof (cases r)
  case None
  with assms set_ok show ?thesis by (simp add: perm_le_joinI)
next
  case (Some e)
  with assms set_err obtain q where "granted s' = set_entry (granted s) k b q"
    and "q \<le> granted s k b \<or> q = p" by blast
  then show ?thesis by (auto intro: order_trans perm_le_joinI)
qed

text \<open>A revocation never adds a flag, whatever it returns.\<close>

lemma revoke_le:
  assumes "set_perms k b no_permissions s = (r, s')"
  shows "granted s' k' b' \<le> granted s k' b'"
proof (cases "(k', b') = (k, b)")
  case True
  with assms set_ok [of k b no_permissions s s'] set_err [of k b no_permissions s _ s']
  show ?thesis by (cases r) auto
next
  case False
  then show ?thesis using set_frame [OF assms] by simp
qed

lemma set_twice:
  assumes "set_perms k b p s = (None, s1)" and "set_perms k b q s1 = (None, s2)"
  shows "granted s2 = set_entry (granted s) k b q"
  using set_ok [OF assms(1)] set_ok [OF assms(2)] by simp

end

section \<open>The client provides them\<close>

lemma run_wp: "run_state m s = (a, s') \<Longrightarrow> wp m Q s \<Longrightarrow> Q a s'"
  by (simp add: wp_def)

lemma BucketClient_Get_view:
  "wp (BucketClient_Get T c a) (\<lambda>r w'. garage_writes w' = garage_writes w \<and>
     granted_from srv w' = granted_from srv w) w"
  by (simp add: BucketClient_Get_def getBucketResponse_def wp_simps request_view)

lemma BucketClient_Create_view:
  "wp (BucketClient_Create T c a) (\<lambda>r w'. garage_writes w' = garage_writes w @ [WCreateBucket a] \<and>
     granted_from srv w' = granted_from srv w) w"
  by (simp add: BucketClient_Create_def wp_simps request_view)

lemma BucketClient_Update_view:
  "wp (BucketClient_Update T c i q) (\<lambda>r w'.
     garage_writes w' = garage_writes w @ [WUpdateBucket i (quotasToS3 (quotasFromS3 q))] \<and>
     granted_from srv w' = granted_from srv w) w"
  by (simp add: BucketClient_Update_def Let_def wp_simps request_view)

interpretation garage_buckets: bucket_service
  "\<lambda>a. run_state (BucketClient_Create T c a)" "\<lambda>a. run_state (BucketClient_Get T c a)"
  "\<lambda>i q. run_state (BucketClient_Update T c i q)" garage_writes
  for T :: "'s transport" and c
  by unfold_locales
    (auto dest: run_wp [OF _ BucketClient_Get_view] run_wp [OF _ BucketClient_Create_view]
      run_wp [OF _ BucketClient_Update_view])

lemma AccessKeyClient_get_view:
  "wp (AccessKeyClient_get T c i n b) (\<lambda>r w'. garage_writes w' = garage_writes w \<and>
     granted_from srv w' = granted_from srv w) w"
  by (simp add: AccessKeyClient_get_def wp_simps request_view)

lemma AccessKeyClient_Get_view:
  "wp (AccessKeyClient_Get T c i) (\<lambda>r w'. garage_writes w' = garage_writes w \<and>
     granted_from srv w' = granted_from srv w) w"
  by (simp add: AccessKeyClient_Get_def AccessKeyClient_get_view wp_simps)

lemma AccessKeyClient_Lookup_view:
  "wp (AccessKeyClient_Lookup T c i) (\<lambda>r w'. garage_writes w' = garage_writes w \<and>
     granted_from srv w' = granted_from srv w) w"
  by (simp add: AccessKeyClient_Lookup_def AccessKeyClient_get_view wp_simps)

lemma AccessKeyClient_Create_view:
  "wp (AccessKeyClient_Create T c n) (\<lambda>r w'. garage_writes w' = garage_writes w @ [WCreateKey n] \<and>
     granted_from srv w' = granted_from srv w) w"
  by (simp add: AccessKeyClient_Create_def Let_def wp_simps request_view)

lemma AccessKeyClient_Delete_view:
  "wp (AccessKeyClient_Delete T c i) (\<lambda>r w'. garage_writes w' = garage_writes w @ [WDeleteKey i] \<and>
     granted_from srv w' = granted_from srv w) w"
  by (simp add: AccessKeyClient_Delete_def wp_simps request_view)

interpretation garage_keys: key_service
  "\<lambda>n. run_state (AccessKeyClient_Create T c n)" "\<lambda>i. run_state (AccessKeyClient_Get T c i)"
  "\<lambda>n. run_state (AccessKeyClient_Lookup T c n)" "\<lambda>i. run_state (AccessKeyClient_Delete T c i)"
  garage_writes
  for T :: "'s transport" and c
  by unfold_locales
    (auto dest: run_wp [OF _ AccessKeyClient_Get_view] run_wp [OF _ AccessKeyClient_Lookup_view]
      run_wp [OF _ AccessKeyClient_Create_view] run_wp [OF _ AccessKeyClient_Delete_view])

definition perm_not :: "s3_permissions \<Rightarrow> s3_permissions" where
  "perm_not p = \<lparr>p_Owner = \<not> p_Owner p, p_Read = \<not> p_Read p, p_Write = \<not> p_Write p\<rparr>"

lemma perm_deny_allow: "perm_join (perm_minus x (perm_not p)) p = p"
  by (cases p) (auto simp: perm_join_def perm_minus_def perm_not_def)

lemma perm_deny_all:
  "\<not> p_Owner p \<Longrightarrow> \<not> p_Read p \<Longrightarrow> \<not> p_Write p \<Longrightarrow> perm_minus x (perm_not p) = p"
  by (cases p) (auto simp: perm_minus_def perm_not_def)

lemma denyBucketKey_view:
  "wp (denyBucketKey T c k b d) (\<lambda>r w'.
     (granted_from srv w' = set_entry (granted_from srv w) k b (perm_minus (granted_from srv w k b) d) \<and>
        (r = None \<or> (\<exists>n. carried_out srv n)) \<or>
      r \<noteq> None \<and> granted_from srv w' = granted_from srv w) \<and>
     garage_writes w' = garage_writes w @ [WDeny k b d]) w"
  by (auto simp: denyBucketKey_def Let_def wp_simps request_view acknowledged_def
      split: sum.splits)

lemma allowBucketKey_view:
  "wp (allowBucketKey T c k b p) (\<lambda>r w'.
     (granted_from srv w' = set_entry (granted_from srv w) k b (perm_join (granted_from srv w k b) p) \<and>
        (r = None \<or> (\<exists>n. carried_out srv n)) \<or>
      r \<noteq> None \<and> granted_from srv w' = granted_from srv w) \<and>
     garage_writes w' = garage_writes w @ [WAllow k b p]) w"
  by (auto simp: allowBucketKey_def Let_def wp_simps request_view acknowledged_def
      split: sum.splits)

text \<open>How a \<open>SetPermissions\<close> call may end, in terms of the table and the writes.\<close>

definition set_outcome ::
  "permission_server \<Rightarrow> 's gworld \<Rightarrow> string \<Rightarrow> string \<Rightarrow> s3_permissions \<Rightarrow> error option \<Rightarrow>
     's gworld \<Rightarrow> bool" where
  "set_outcome srv w k b p r w' \<longleftrightarrow>
     (r = None \<longrightarrow> granted_from srv w' = set_entry (granted_from srv w) k b p) \<and>
     (r \<noteq> None \<longrightarrow> (\<exists>q. granted_from srv w' = set_entry (granted_from srv w) k b q \<and>
        (q \<le> granted_from srv w k b \<or> q = p \<and> (\<exists>n. carried_out srv n)))) \<and>
     garage_writes w' \<in> {garage_writes w @ [WDeny k b (perm_not p)],
        garage_writes w @ [WDeny k b (perm_not p), WAllow k b p]}"

lemma SetPermissions_view: "wp (SetPermissions T c k b p) (set_outcome srv w k b p) w"
proof -
  let ?g = "granted_from srv w" and ?d = "perm_minus (granted_from srv w k b) (perm_not p)"
  have keep: "\<exists>q. ?g = set_entry ?g k b q \<and> (q \<le> ?g k b \<or> q = p \<and> (\<exists>n. carried_out srv n))"
    by (intro exI [of _ "?g k b"]) simp
  have allow: "wp (allowBucketKey T c k b p) (set_outcome srv w k b p) s'"
    if "granted_from srv s' = set_entry ?g k b ?d"
      and "garage_writes s' = garage_writes w @ [WDeny k b (perm_not p)]" for s'
    by (rule wp_mono [OF allowBucketKey_view [of T c k b p srv s']])
      (auto simp: set_outcome_def that perm_deny_allow)
  have denied_all: "set_outcome srv w k b p None s'"
    if "granted_from srv s' = set_entry ?g k b ?d"
      and "garage_writes s' = garage_writes w @ [WDeny k b (perm_not p)]"
      and "\<not> p_Owner p" "\<not> p_Read p" "\<not> p_Write p" for s'
    using that by (simp add: set_outcome_def perm_deny_all)
  have failed: "set_outcome srv w k b p (Some e) s'"
    if "granted_from srv s' = set_entry ?g k b ?d \<or> granted_from srv s' = ?g"
      and "garage_writes s' = garage_writes w @ [WDeny k b (perm_not p)]" for e s'
    using that keep by (auto simp: set_outcome_def)
  show ?thesis
    unfolding SetPermissions_def perm_not_def [symmetric] Let_def wp_simps
  proof (rule wp_mono [OF denyBucketKey_view [of T c k b "perm_not p" srv w]], goal_cases)
    case (1 r s')
    then show ?case
      by (cases r) (auto simp: wp_return wp_if allow denied_all failed)
  qed
qed

lemma GetPermissions_view:
  "wp (GetPermissions T c k b) (\<lambda>r w'. garage_writes w' = garage_writes w \<and>
     granted_from srv w' = granted_from srv w) w"
  by (simp add: GetPermissions_def AccessKeyClient_get_view wp_simps)

interpretation garage_permissions: permission_service
  "\<lambda>k b p. run_state (SetPermissions T c k b p)" "\<lambda>k b. run_state (GetPermissions T c k b)"
  "granted_from srv"
  for T :: "'s transport" and c srv
  by unfold_locales
    (use run_wp [OF _ SetPermissions_view, unfolded set_outcome_def]
         run_wp [OF _ GetPermissions_view] in \<open>blast+\<close>)

end
