(* ===== verification/GarageProps.thy ===== *)
theory GarageProps
  imports GarageSpec
begin

text \<open>
  The properties of the Garage client: the effect of \<open>SetPermissions\<close> on the permission
  table, the evidence behind \<open>GetPermissions\<close>, the errors a status code turns into, and the
  request metrics.
\<close>

section \<open>Decoding errors\<close>

text \<open>A decoder's own errors never carry one of the package's sentinels.\<close>

definition plain_errors :: "(json \<Rightarrow> 'a \<Rightarrow> error + 'a) \<Rightarrow> bool" where
  "plain_errors d \<longleftrightarrow> (\<forall>j x e. d j x = Inl e \<longrightarrow> e = decode_error)"

lemma plain_errors_basic [simp]:
  "plain_errors dec_string" "plain_errors dec_bool" "plain_errors dec_int64"
  by (auto simp: plain_errors_def elim!: dec_string.elims dec_bool.elims dec_int64.elims
      split: if_splits)

lemma plain_errors_ptr: "plain_errors d \<Longrightarrow> plain_errors (dec_ptr d z)"
  unfolding plain_errors_def by (intro allI impI, erule dec_ptr.elims) (auto split: sum.splits)

lemma plain_errors_elems:
  "plain_errors d \<Longrightarrow> dec_elems d z js = Inl e \<Longrightarrow> e = decode_error"
  by (induction js) (auto simp: plain_errors_def split: sum.splits)

lemma plain_errors_list:
  assumes "plain_errors d"
  shows "plain_errors (dec_list d z)"
proof -
  have "dec_list d z j x = Inl e \<Longrightarrow> e = decode_error" for j x e
    by (cases j) (auto dest: plain_errors_elems [OF assms])
  then show ?thesis by (simp add: plain_errors_def)
qed

lemma plain_errors_field:
  "plain_errors d \<Longrightarrow> plain_errors (snd (dfield n g p d))"
  by (auto simp: plain_errors_def dfield_def split: sum.splits)

lemma plain_errors_find:
  "\<forall>f \<in> set fs. plain_errors (snd f) \<Longrightarrow> find_field fs k = Some d \<Longrightarrow> plain_errors d"
  by (induction fs) (auto split: if_splits)

lemma plain_errors_fields:
  "\<forall>f \<in> set fs. plain_errors (snd f) \<Longrightarrow> dec_fields fs kvs r = Inl e \<Longrightarrow> e = decode_error"
proof (induction kvs arbitrary: r)
  case Nil
  then show ?case by simp
next
  case (Cons kv kvs)
  obtain k j where kv: "kv = (k, j)" by (cases kv)
  show ?case
  proof (cases "find_field fs k")
    case None
    with Cons kv show ?thesis by simp
  next
    case (Some d)
    then have "plain_errors d" using plain_errors_find Cons.prems(1) by blast
    with Cons kv Some show ?thesis by (auto simp: plain_errors_def split: sum.splits)
  qed
qed

lemma plain_errors_struct:
  assumes "\<forall>f \<in> set fs. plain_errors (snd f)"
  shows "plain_errors (dec_struct fs)"
proof -
  have "dec_struct fs j r = Inl e \<Longrightarrow> e = decode_error" for j r e
    by (cases j) (auto dest: plain_errors_fields [OF assms])
  then show ?thesis by (simp add: plain_errors_def)
qed

lemma plain_errors_messages [simp]:
  "plain_errors dec_quotas" "plain_errors dec_perm" "plain_errors dec_key_info_bucket"
  "plain_errors dec_access_key" "plain_errors dec_error_response" "plain_errors dec_bucket_response"
  "plain_errors dec_token_info"
proof -
  show q: "plain_errors dec_quotas" and p: "plain_errors dec_perm"
    unfolding dec_quotas_def dec_perm_def
    by (rule plain_errors_struct; auto intro!: plain_errors_field plain_errors_ptr)+
  show k: "plain_errors dec_key_info_bucket"
    unfolding dec_key_info_bucket_def
    by (rule plain_errors_struct) (auto intro!: plain_errors_field plain_errors_list p)
  show "plain_errors dec_access_key"
    unfolding dec_access_key_def
    by (rule plain_errors_struct) (auto intro!: plain_errors_field plain_errors_list k)
  show "plain_errors dec_error_response" "plain_errors dec_token_info"
    unfolding dec_error_response_def dec_token_info_def
    by (rule plain_errors_struct; auto intro!: plain_errors_field plain_errors_list plain_errors_ptr)+
  show "plain_errors dec_bucket_response"
    unfolding dec_bucket_response_def
    by (rule plain_errors_struct) (auto intro!: plain_errors_field plain_errors_list q)
qed

lemma unmarshal_not_Is:
  assumes "plain_errors d" and "unmarshalBody d z resp = Inl e"
  shows "\<not> errors_Is e s"
proof (cases "rs_Json resp")
  case None
  with assms(2) show ?thesis by (auto simp: unmarshalBody_def)
next
  case (Some j)
  with assms have "e = decode_error" by (auto simp: unmarshalBody_def plain_errors_def)
  then show ?thesis by (simp add: decode_error_def)
qed

section \<open>Properties\<close>

text \<open>
  C9: \<open>SetPermissions\<close> makes the permissions of a key on a bucket exactly the requested
  ones: when it returns \<open>nil\<close>, the acknowledged deny and allow calls have turned the entry of
  that key and bucket into the request, whatever it was before, and no other entry changed.
\<close>

theorem SetPermissions_exact:
  assumes "run_state (SetPermissions T c k b p) w = (None, w')"
  shows "granted_from srv w' = set_entry (granted_from srv w) k b p"
  using assms by (rule garage_permissions.set_ok)

text \<open>A transport that acknowledges every request, for the witnesses.\<close>

definition ack_all :: "unit transport" where
  "ack_all rq s = (Inr \<lparr>rs_StatusCode = 200, rs_Text = [], rs_Json = None\<rparr>, s)"

definition admin_client :: adminAPIHttpClient where
  "admin_client = NewClient ''http://garage:3903'' ''token'' [WithMetrics]"

definition empty_gworld :: "unit gworld" where
  "empty_gworld = \<lparr>ext = (), log = []\<rparr>"

definition rw_perms :: s3_permissions where
  "rw_perms = \<lparr>p_Owner = False, p_Read = True, p_Write = True\<rparr>"

lemma ack_SetPermissions:
  "fst (run_state (SetPermissions ack_all admin_client ''GK1'' ''b1'' rw_perms) empty_gworld) = None"
  by (simp add: SetPermissions_def denyBucketKey_def allowBucketKey_def doRequest_def send_def
      ack_all_def rw_perms_def Let_def split: prod.splits)

theorem SetPermissions_exact_witness:
  "granted_from (server_with (\<lambda>_ _. \<lparr>p_Owner = True, p_Read = False, p_Write = False\<rparr>))
     (snd (run_state (SetPermissions ack_all admin_client ''GK1'' ''b1'' rw_perms) empty_gworld))
     ''GK1'' ''b1'' = rw_perms"
proof -
  let ?m = "SetPermissions ack_all admin_client ''GK1'' ''b1'' rw_perms"
  have "run_state ?m empty_gworld = (None, snd (run_state ?m empty_gworld))"
    using ack_SetPermissions by (metis prod.collapse)
  from SetPermissions_exact [OF this] show ?thesis by simp
qed

text \<open>
  C22: a failed \<open>SetPermissions\<close> leaves no mixture behind: if it returns an error, at whichever
  of its two requests, then no key has gained a flag on any bucket, unless Garage carried out a
  request without acknowledging it; and even then the one entry that may have grown is that of
  the key and bucket of the call, and it holds exactly the permissions that were asked for.
\<close>

theorem SetPermissions_fails_safe:
  assumes "run_state (SetPermissions T c k b p) w = (Some e, w')"
  shows "granted_from srv w' k' b' \<le> granted_from srv w k' b' \<or>
    (k', b') = (k, b) \<and> granted_from srv w' k' b' = p \<and> (\<exists>n. carried_out srv n)"
proof (cases "(k', b') = (k, b)")
  case True
  with run_wp [OF assms SetPermissions_view [of T c k b p srv w]] show ?thesis
    by (auto simp: set_outcome_def)
next
  case False
  with garage_permissions.set_err [OF assms, of srv] show ?thesis by auto
qed

text \<open>A transport that refuses AllowBucketKey after the deny went through.\<close>

definition deny_only :: "unit transport" where
  "deny_only rq s = (Inr \<lparr>rs_StatusCode = (if rq_Path rq = ''/v2/AllowBucketKey'' then 500 else 200),
     rs_Text = ''boom'', rs_Json = None\<rparr>, s)"

theorem SetPermissions_fails_safe_witness:
  "fst (run_state (SetPermissions deny_only admin_client ''GK1'' ''b1'' rw_perms) empty_gworld) \<noteq> None \<and>
   granted_from (server_with (\<lambda>_ _. no_permissions))
     (snd (run_state (SetPermissions deny_only admin_client ''GK1'' ''b1'' rw_perms) empty_gworld))
     ''GK1'' ''b1'' \<le> no_permissions"
proof -
  let ?r = "run_state (SetPermissions deny_only admin_client ''GK1'' ''b1'' rw_perms) empty_gworld"
  have err: "fst ?r \<noteq> None"
    by (simp add: SetPermissions_def denyBucketKey_def allowBucketKey_def doRequest_def send_def
        deny_only_def rw_perms_def Let_def mk_request_def split: prod.splits)
  then obtain e w' where r: "?r = (Some e, w')" by (metis not_Some_eq prod.collapse)
  from SetPermissions_fails_safe [OF r, of "server_with (\<lambda>_ _. no_permissions)" "''GK1''" "''b1''"]
  have "granted_from (server_with (\<lambda>_ _. no_permissions)) w' ''GK1'' ''b1'' \<le> no_permissions"
    by (simp add: empty_gworld_def)
  with err r show ?thesis by simp
qed

text \<open>
  The requests behind \<open>SetPermissions\<close>: it first denies exactly the flags that are not
  requested and only then, if at all, allows exactly the requested ones; nothing else is
  asked of Garage.
\<close>

theorem SetPermissions_requests:
  "garage_writes (snd (run_state (SetPermissions T c k b p) w)) \<in>
     {garage_writes w @ [WDeny k b (perm_not p)],
      garage_writes w @ [WDeny k b (perm_not p), WAllow k b p]}"
  using SetPermissions_view [of T c k b p undefined w]
  by (auto simp: wp_def set_outcome_def split: prod.splits)

text \<open>
  Ownership is never assumed: \<open>GetPermissions\<close> reports a key as owner of a bucket only
  when Garage answered the lookup of that key with status 200 and a body listing this very
  bucket with the owner flag; a key without an entry for the bucket has no permissions.
\<close>

theorem GetPermissions_evidence:
  assumes "run_state (GetPermissions T c k b) w = (Inr p, w')"
  shows "\<exists>resp key.
    fst (T (mk_request c ''GET'' ''/v2/GetKeyInfo'' (key_query k [] False) None) (ext w)) = Inr resp \<and>
    rs_StatusCode resp = 200 \<and>
    unmarshalBody dec_access_key zero_AccessKeyResponse resp = Inr key \<and>
    ((\<exists>e \<in> set (ak_Buckets key). ki_ID e = b \<and> p = perm_from_garage (ki_Permissions e)) \<or>
     (p = no_permissions \<and> (\<forall>e \<in> set (ak_Buckets key). ki_ID e \<noteq> b)))"
    (is "?P p")
proof -
  have "wp (GetPermissions T c k b) (\<lambda>r w'. \<forall>p. r = Inr p \<longrightarrow> ?P p) w"
    by (auto simp: GetPermissions_def AccessKeyClient_get_def wp_simps find_None_iff find_Some_iff
        split: sum.splits if_splits option.splits)
  with assms show ?thesis by (auto simp: wp_def)
qed

text \<open>A Garage that knows one key, owner of bucket \<open>b1\<close>.\<close>

definition one_key_json :: json where
  "one_key_json = JObj [(''accessKeyId'', JStr ''GK1''), (''secretAccessKey'', JStr ''s3cr3t''),
     (''name'', JStr ''owner''),
     (''buckets'', JArr [JObj [(''id'', JStr ''b1''),
        (''permissions'', JObj [(''owner'', JBool True), (''read'', JBool True),
           (''write'', JBool False)])]])]"

definition one_key :: "unit transport" where
  "one_key rq s = (Inr \<lparr>rs_StatusCode = 200, rs_Text = [], rs_Json = Some one_key_json\<rparr>, s)"

lemma one_key_decoded:
  "dec_access_key one_key_json zero_AccessKeyResponse =
     Inr \<lparr>ak_AccessKeyID = ''GK1'',
       ak_Buckets = [\<lparr>ki_ID = ''b1'', ki_GlobalAliases = [],
          ki_Permissions = \<lparr>bkp_Owner = True, bkp_Read = True, bkp_Write = False\<rparr>\<rparr>],
       ak_SecretAccessKey = ''s3cr3t'', ak_Name = ''owner''\<rparr>"
  by (simp add: dec_access_key_def one_key_json_def dfield_def key_matches_def lower_char_def
      dec_key_info_bucket_def dec_perm_def zero_AccessKeyResponse_def zero_KeyInfoBucket_def
      zero_perm_def)

theorem GetPermissions_evidence_witness:
  "\<exists>resp. fst (one_key (mk_request admin_client ''GET'' ''/v2/GetKeyInfo''
       (key_query ''GK1'' [] False) None) ()) = Inr resp \<and> rs_StatusCode resp = 200"
proof -
  let ?r = "run_state (GetPermissions one_key admin_client ''GK1'' ''b1'') empty_gworld"
  have "fst ?r = Inr \<lparr>p_Owner = True, p_Read = True, p_Write = False\<rparr>"
    by (simp add: GetPermissions_def AccessKeyClient_get_def doRequest_def send_def Let_def
        one_key_def unmarshalBody_def one_key_decoded perm_from_garage_def split: prod.splits)
  then have "?r = (Inr \<lparr>p_Owner = True, p_Read = True, p_Write = False\<rparr>, snd ?r)"
    by (metis prod.collapse)
  from GetPermissions_evidence [OF this] show ?thesis
    by (auto simp: empty_gworld_def)
qed

text \<open>
  A key lookup turns each status code into the error its callers test for: with a
  response in hand, the error is \<open>ErrResourceNotFound\<close> exactly for status 404 and
  \<open>ErrMultipleMatches\<close> exactly for a 400 to a search without an id, an unreadable error body
  included; and a result is only returned for status 200.
\<close>

theorem AccessKeyClient_get_errors:
  assumes "T (mk_request c ''GET'' ''/v2/GetKeyInfo'' (key_query i n sec) None) (ext w) = (Inr resp, s)"
  shows "case fst (run_state (AccessKeyClient_get T c i n sec) w) of
      Inl e \<Rightarrow>
        (errors_Is e ErrResourceNotFound \<longleftrightarrow> rs_StatusCode resp = 404) \<and>
        (errors_Is e ErrMultipleMatches \<longleftrightarrow> rs_StatusCode resp = 400 \<and> n \<noteq> [] \<and> i = [])
    | Inr key \<Rightarrow> rs_StatusCode resp = 200"
proof -
  have "wp (AccessKeyClient_get T c i n sec) (\<lambda>r w'. case r of
      Inl e \<Rightarrow>
        (errors_Is e ErrResourceNotFound \<longleftrightarrow> rs_StatusCode resp = 404) \<and>
        (errors_Is e ErrMultipleMatches \<longleftrightarrow> rs_StatusCode resp = 400 \<and> n \<noteq> [] \<and> i = [])
    | Inr key \<Rightarrow> rs_StatusCode resp = 200) w"
    using assms unmarshal_not_Is [of dec_access_key zero_AccessKeyResponse resp]
      unmarshal_not_Is [of dec_error_response zero_ErrorResponse resp]
    by (auto simp: AccessKeyClient_get_def wp_simps unexpected_status_def split: sum.splits)
  then show ?thesis by (simp add: wp_def case_prod_beta)
qed

definition status_only :: "int \<Rightarrow> unit transport" where
  "status_only n rq s = (Inr \<lparr>rs_StatusCode = n, rs_Text = [], rs_Json = None\<rparr>, s)"

theorem AccessKeyClient_get_errors_witness:
  "case fst (run_state (AccessKeyClient_get (status_only 400) admin_client [] ''ns-key-00'' True)
       empty_gworld) of
     Inl e \<Rightarrow> errors_Is e ErrMultipleMatches | Inr key \<Rightarrow> False"
  using AccessKeyClient_get_errors [of "status_only 400" admin_client "[]" "''ns-key-00''" True
      empty_gworld "\<lparr>rs_StatusCode = 400, rs_Text = [], rs_Json = None\<rparr>" "()"]
  by (auto simp: status_only_def split: sum.splits)

text \<open>
  Every admin API request is measured once: after one exchange the client with metrics has
  recorded exactly one status class, \<open>error\<close> exactly when no response came back, and a client
  without metrics records nothing.
\<close>

theorem doRequest_metrics:
  "\<exists>r s'. T (mk_request c m path q body) (ext w) = (r, s') \<and>
     run_state (doRequest T c m path q body) w =
       (r, \<lparr>ext = s', log = log w @ [Exchange (mk_request c m path q body) r] @
         (if hc_metrics c
          then [Recorded (case r of Inl e \<Rightarrow> ''error'' | Inr resp \<Rightarrow>
            if rs_StatusCode resp div 100 = 2 then ''2xx''
            else if rs_StatusCode resp div 100 = 3 then ''3xx''
            else if rs_StatusCode resp div 100 = 4 then ''4xx'' else ''5xx'')]
          else [])\<rparr>)"
proof -
  have d: "n div 100 = k \<longleftrightarrow> 100 * k \<le> n \<and> n < 100 * k + 100" for n k :: int
    by auto
  obtain r s' where "T (mk_request c m path q body) (ext w) = (r, s')" by (cases "T (mk_request c m path q body) (ext w)")
  then show ?thesis
    by (auto simp: doRequest_def send_def Let_def statusClass_def d codeError_def codeHTTP2xx_def
        codeHTTP3xx_def codeHTTP4xx_def codeHTTP5xx_def split: sum.splits)
qed

end
