(* ===== verification/Kube.thy ===== *)
theory Kube
  imports S3
begin

text \<open>
  The Kubernetes side the controllers are written against: object metadata, status
  conditions, the core objects they create, and the functions they call of the libraries
  \<open>k8s.io/apimachinery\<close> and \<open>controller-runtime\<close>.  Those libraries are not part of the
  repository, so their functions are the fields of the record \<open>lib\<close>, a parameter of every
  definition that calls them; the \<open>_laws\<close> predicates state the documented behaviour the
  code relies on, and appear as hypotheses of the theorems that need them.
\<close>

section \<open>Metadata and conditions\<close>

datatype cond_status = ConditionTrue | ConditionFalse | ConditionUnknown

record condition =
  c_Type :: string
  c_Status :: cond_status
  c_ObservedGeneration :: int64
  c_LastTransitionTime :: int
  c_Reason :: string
  c_Message :: string

record owner_ref =
  or_Kind :: string
  or_Name :: string
  or_UID :: string
  or_Controller :: bool

text \<open>
  \<open>metav1.ObjectMeta\<close>: the fields the code reads or writes.  A label map may be \<open>nil\<close>
  (\<open>None\<close>); a \<open>DeletionTimestamp\<close> is absent until the object is being deleted.
\<close>

record objmeta =
  m_Name :: string
  m_Namespace :: string
  m_UID :: string
  m_ResourceVersion :: string
  m_Generation :: int64
  m_CreationTimestamp :: int
  m_DeletionTimestamp :: "int option"
  m_Labels :: "(string \<rightharpoonup> string) option"
  m_OwnerReferences :: "owner_ref list"
  m_Finalizers :: "string list"

text \<open>The zero \<open>ObjectMeta\<close> with a name and a namespace, as the code writes it.\<close>

definition new_meta :: "string \<Rightarrow> string \<Rightarrow> objmeta" where
  "new_meta name ns =
     \<lparr>m_Name = name, m_Namespace = ns, m_UID = [], m_ResourceVersion = [], m_Generation = 0,
      m_CreationTimestamp = 0, m_DeletionTimestamp = None, m_Labels = None,
      m_OwnerReferences = [], m_Finalizers = []\<rparr>"

type_synonym nsname = "string \<times> string"

record configmap =
  cm_Meta :: objmeta
  cm_Data :: "string \<rightharpoonup> string"

record secret =
  s_Meta :: objmeta
  s_Type :: string
  s_Data :: "string \<rightharpoonup> string"

text \<open>A read of a Go map that lacks the key gives the zero value.\<close>

definition map_get :: "(string \<rightharpoonup> string) \<Rightarrow> string \<Rightarrow> string" where
  "map_get m k = (case m k of None \<Rightarrow> [] | Some v \<Rightarrow> v)"

definition label_get :: "(string \<rightharpoonup> string) option \<Rightarrow> string \<Rightarrow> string" where
  "label_get ls k = (case ls of None \<Rightarrow> [] | Some m \<Rightarrow> map_get m k)"

datatype op_result =
  OperationResultNone | OperationResultCreated | OperationResultUpdated

text \<open>\<open>ctrl.Result\<close>: when to run the reconciler again; zero for not at all.\<close>

record ctrl_result =
  RequeueAfter :: int64

definition no_requeue :: ctrl_result where
  "no_requeue = \<lparr>RequeueAfter = 0\<rparr>"

text \<open>How a \<open>Reconcile\<close> call ends: a result and an error (or \<open>nil\<close>), or a panic.\<close>

datatype outcome = Panicked | Returned ctrl_result "error option"

section \<open>The libraries' functions\<close>

record lib =
  FindStatusCondition :: "condition list \<Rightarrow> string \<Rightarrow> condition option"
  SetStatusCondition :: "condition list \<Rightarrow> condition \<Rightarrow> condition list"
  IsNotFound :: "error \<Rightarrow> bool"
  IsForbidden :: "error \<Rightarrow> bool"
  IsConflict :: "error \<Rightarrow> bool"
  IsControlledBy :: "objmeta \<Rightarrow> objmeta \<Rightarrow> bool"
  SetControllerReference :: "objmeta \<Rightarrow> objmeta \<Rightarrow> error + objmeta"
  ContainsFinalizer :: "objmeta \<Rightarrow> string \<Rightarrow> bool"
  AddFinalizer :: "objmeta \<Rightarrow> string \<Rightarrow> objmeta"
  RemoveFinalizer :: "objmeta \<Rightarrow> string \<Rightarrow> objmeta"
  QuantityValue :: "string \<Rightarrow> int64"
  FormatMeta :: "objmeta \<Rightarrow> string"

text \<open>
  \<open>meta.FindStatusCondition\<close> and \<open>meta.SetStatusCondition\<close>: setting a condition makes it
  the one found for its type, with the fields given (the library owns the transition time,
  which it keeps when the status does not change), and leaves the other types alone.
\<close>

definition same_condition :: "condition \<Rightarrow> condition \<Rightarrow> bool" where
  "same_condition c d \<longleftrightarrow>
     c_Type c = c_Type d \<and> c_Status c = c_Status d \<and> c_Reason c = c_Reason d \<and>
     c_Message c = c_Message d \<and> c_ObservedGeneration c = c_ObservedGeneration d"

definition cond_laws :: "lib \<Rightarrow> bool" where
  "cond_laws L \<longleftrightarrow>
     (\<forall>cs c. \<exists>d. FindStatusCondition L (SetStatusCondition L cs c) (c_Type c) = Some d \<and>
        same_condition d c) \<and>
     (\<forall>cs c t. t \<noteq> c_Type c \<longrightarrow>
        FindStatusCondition L (SetStatusCondition L cs c) t = FindStatusCondition L cs t) \<and>
     (\<forall>cs c d. FindStatusCondition L cs (c_Type c) = Some d \<longrightarrow> same_condition d c \<longrightarrow>
        SetStatusCondition L cs c = cs) \<and>
     (\<forall>cs t d. FindStatusCondition L cs t = Some d \<longrightarrow> c_Type d = t)"

text \<open>
  \<open>apierrors.IsNotFound\<close>, \<open>IsForbidden\<close>, \<open>IsConflict\<close>: the reason of a status error, seen
  through \<open>%w\<close> wrapping.  Of several joined errors the answer is only fixed where the parts
  agree; nothing is assumed about which part decides otherwise, except that one of them does.
\<close>

definition reason_test :: "string \<Rightarrow> (error \<Rightarrow> bool) \<Rightarrow> bool" where
  "reason_test r f \<longleftrightarrow>
     (\<forall>s. \<not> f (Sentinel s)) \<and> (\<forall>m. \<not> f (ErrorString m)) \<and>
     (\<forall>r' m. f (APIError r' m) = (r' = r)) \<and>
     (\<forall>m es. f (Wrapped m es) \<longrightarrow> (\<exists>e \<in> set es. f e)) \<and>
     (\<forall>m es. es \<noteq> [] \<longrightarrow> (\<forall>e \<in> set es. f e) \<longrightarrow> f (Wrapped m es)) \<and>
     (\<forall>es. f (Joined es) \<longrightarrow> (\<exists>e \<in> set es. f e)) \<and>
     (\<forall>es. es \<noteq> [] \<longrightarrow> (\<forall>e \<in> set es. f e) \<longrightarrow> f (Joined es))"

definition error_laws :: "lib \<Rightarrow> bool" where
  "error_laws L \<longleftrightarrow>
     reason_test ''NotFound'' (IsNotFound L) \<and> reason_test ''Forbidden'' (IsForbidden L) \<and>
     reason_test ''Conflict'' (IsConflict L)"

text \<open>\<open>controllerutil\<close>'s finalizer functions change nothing but the finalizer list.\<close>

definition finalizer_laws :: "lib \<Rightarrow> bool" where
  "finalizer_laws L \<longleftrightarrow>
     (\<forall>m f. ContainsFinalizer L m f = (f \<in> set (m_Finalizers m))) \<and>
     (\<forall>m f. \<exists>fs. AddFinalizer L m f = m\<lparr>m_Finalizers := fs\<rparr> \<and>
        set fs = insert f (set (m_Finalizers m))) \<and>
     (\<forall>m f. \<exists>fs. RemoveFinalizer L m f = m\<lparr>m_Finalizers := fs\<rparr> \<and>
        set fs = set (m_Finalizers m) - {f})"

text \<open>
  Owner references: an object is controlled by another when a controller reference carries
  the other's UID; \<open>SetControllerReference\<close> either fails or makes it so, changing nothing
  but the references.
\<close>

definition owner_laws :: "lib \<Rightarrow> bool" where
  "owner_laws L \<longleftrightarrow>
     (\<forall>m o'. IsControlledBy L m o' =
        (\<exists>r \<in> set (m_OwnerReferences m). or_Controller r \<and> or_UID r = m_UID o')) \<and>
     (\<forall>o' m m'. SetControllerReference L o' m = Inr m' \<longrightarrow>
        IsControlledBy L m' o' \<and> (\<exists>rs. m' = m\<lparr>m_OwnerReferences := rs\<rparr>))"

lemma find_set_same:
  assumes "cond_laws L" and "t = c_Type c"
  obtains d where "FindStatusCondition L (SetStatusCondition L cs c) t = Some d"
    and "same_condition d c"
proof -
  from assms have "\<exists>d. FindStatusCondition L (SetStatusCondition L cs c) t = Some d \<and>
      same_condition d c"
    by (simp add: cond_laws_def)
  with that show thesis by blast
qed

lemma find_set_other:
  "cond_laws L \<Longrightarrow> t \<noteq> c_Type c \<Longrightarrow>
     FindStatusCondition L (SetStatusCondition L cs c) t = FindStatusCondition L cs t"
  by (simp add: cond_laws_def)

lemma set_same_idle:
  "cond_laws L \<Longrightarrow> FindStatusCondition L cs (c_Type c) = Some d \<Longrightarrow> same_condition d c \<Longrightarrow>
     SetStatusCondition L cs c = cs"
  by (auto simp: cond_laws_def)

lemma reason_test_wrapped:
  assumes "reason_test r f"
  shows "f (Wrapped m [e]) = f e"
proof -
  from assms have "f (Wrapped m [e]) \<longrightarrow> (\<exists>x \<in> set [e]. f x)"
    and "[e] \<noteq> [] \<longrightarrow> (\<forall>x \<in> set [e]. f x) \<longrightarrow> f (Wrapped m [e])"
    unfolding reason_test_def by blast+
  then show ?thesis by auto
qed

lemma reason_test_wrap: "reason_test r f \<Longrightarrow> f (wrap m e) = f e"
  by (simp add: wrap_def reason_test_wrapped)

lemma IsNotFound_wrap [simp]: "error_laws L \<Longrightarrow> IsNotFound L (wrap m e) = IsNotFound L e"
  by (auto simp: error_laws_def reason_test_wrap)

lemma IsNotFound_Sentinel [simp]: "error_laws L \<Longrightarrow> \<not> IsNotFound L (Sentinel s)"
  by (simp add: error_laws_def reason_test_def)

end
