(* ===== verification/ApiTypes.thy ===== *)
theory ApiTypes
  imports Kube
begin

text \<open>
  The custom resources of \<^verbatim>\<open>api/v1alpha1\<close>: \<open>Bucket\<close>, \<open>AccessKey\<close> and \<open>AccessPolicy\<close>.  The
  quantity \<open>MaxSize\<close> is kept as its text; its value in bytes is \<open>QuantityValue\<close> of the
  library.  The bounds and patterns the CRD puts on the fields (the kubebuilder markers) are
  the \<open>_valid\<close> predicates at the end, with the pattern the API server puts on condition
  reasons.
\<close>

record ExistingBucketSpec =
  eb_Name :: string
  eb_OwnerKeySecret :: string

record BucketSpec =
  bs_Name :: string
  bs_ExistingBucket :: "ExistingBucketSpec option"
  bs_MaxSize :: string
  bs_MaxObjects :: int64
  bs_ConfigMapName :: string

record BucketStatus =
  bst_ObservedGeneration :: int64
  bst_Conditions :: "condition list"
  bst_BucketID :: string
  bst_BucketName :: string
  bst_LastSync :: "int option"

record Bucket =
  b_Meta :: objmeta
  b_Spec :: BucketSpec
  b_Status :: BucketStatus

record AccessKeySpec =
  ks_SecretName :: string

record AccessKeyStatus =
  kst_Conditions :: "condition list"
  kst_ObservedGeneration :: int64
  kst_AccessKeyID :: string
  kst_SecretName :: string

record AccessKey =
  k_Meta :: objmeta
  k_Spec :: AccessKeySpec
  k_Status :: AccessKeyStatus

record Permissions =
  perm_Read :: bool
  perm_Write :: bool
  perm_Owner :: bool

record AccessPolicySpec =
  ps_AccessKey :: string
  ps_Bucket :: string
  ps_Permissions :: Permissions

record AccessPolicyStatus =
  pst_Conditions :: "condition list"
  pst_ObservedGeneration :: int64
  pst_BucketID :: string
  pst_AccessKeyID :: string

record AccessPolicy =
  a_Meta :: objmeta
  a_Spec :: AccessPolicySpec
  a_Status :: AccessPolicyStatus

text \<open>Each object's generation, and the update of its conditions in place.\<close>

abbreviation b_Generation :: "Bucket \<Rightarrow> int64" where
  "b_Generation b \<equiv> m_Generation (b_Meta b)"

abbreviation k_Generation :: "AccessKey \<Rightarrow> int64" where
  "k_Generation k \<equiv> m_Generation (k_Meta k)"

abbreviation a_Generation :: "AccessPolicy \<Rightarrow> int64" where
  "a_Generation a \<equiv> m_Generation (a_Meta a)"

definition b_set_conditions :: "condition list \<Rightarrow> Bucket \<Rightarrow> Bucket" where
  "b_set_conditions cs b = b\<lparr>b_Status := (b_Status b)\<lparr>bst_Conditions := cs\<rparr>\<rparr>"

definition k_set_conditions :: "condition list \<Rightarrow> AccessKey \<Rightarrow> AccessKey" where
  "k_set_conditions cs k = k\<lparr>k_Status := (k_Status k)\<lparr>kst_Conditions := cs\<rparr>\<rparr>"

definition a_set_conditions :: "condition list \<Rightarrow> AccessPolicy \<Rightarrow> AccessPolicy" where
  "a_set_conditions cs a = a\<lparr>a_Status := (a_Status a)\<lparr>pst_Conditions := cs\<rparr>\<rparr>"

abbreviation b_Conditions :: "Bucket \<Rightarrow> condition list" where
  "b_Conditions b \<equiv> bst_Conditions (b_Status b)"

abbreviation k_Conditions :: "AccessKey \<Rightarrow> condition list" where
  "k_Conditions k \<equiv> kst_Conditions (k_Status k)"

abbreviation a_Conditions :: "AccessPolicy \<Rightarrow> condition list" where
  "a_Conditions a \<equiv> pst_Conditions (a_Status a)"

lemma b_set_conditions_simps [simp]:
  "b_Meta (b_set_conditions cs b) = b_Meta b"
  "b_Spec (b_set_conditions cs b) = b_Spec b"
  "b_Conditions (b_set_conditions cs b) = cs"
  "bst_ObservedGeneration (b_Status (b_set_conditions cs b)) = bst_ObservedGeneration (b_Status b)"
  "bst_BucketID (b_Status (b_set_conditions cs b)) = bst_BucketID (b_Status b)"
  "bst_BucketName (b_Status (b_set_conditions cs b)) = bst_BucketName (b_Status b)"
  "bst_LastSync (b_Status (b_set_conditions cs b)) = bst_LastSync (b_Status b)"
  by (simp_all add: b_set_conditions_def)

lemma k_set_conditions_simps [simp]:
  "k_Meta (k_set_conditions cs k) = k_Meta k"
  "k_Spec (k_set_conditions cs k) = k_Spec k"
  "k_Conditions (k_set_conditions cs k) = cs"
  "kst_ObservedGeneration (k_Status (k_set_conditions cs k)) = kst_ObservedGeneration (k_Status k)"
  "kst_AccessKeyID (k_Status (k_set_conditions cs k)) = kst_AccessKeyID (k_Status k)"
  "kst_SecretName (k_Status (k_set_conditions cs k)) = kst_SecretName (k_Status k)"
  by (simp_all add: k_set_conditions_def)

lemma a_set_conditions_simps [simp]:
  "a_Meta (a_set_conditions cs a) = a_Meta a"
  "a_Spec (a_set_conditions cs a) = a_Spec a"
  "a_Conditions (a_set_conditions cs a) = cs"
  "pst_ObservedGeneration (a_Status (a_set_conditions cs a)) = pst_ObservedGeneration (a_Status a)"
  "pst_BucketID (a_Status (a_set_conditions cs a)) = pst_BucketID (a_Status a)"
  "pst_AccessKeyID (a_Status (a_set_conditions cs a)) = pst_AccessKeyID (a_Status a)"
  by (simp_all add: a_set_conditions_def)

section \<open>What the CRD admits\<close>

definition is_alpha :: "char \<Rightarrow> bool" where
  "is_alpha c \<longleftrightarrow> (let n = of_char c :: nat in (65 \<le> n \<and> n \<le> 90) \<or> (97 \<le> n \<and> n \<le> 122))"

definition is_alnum_underscore :: "char \<Rightarrow> bool" where
  "is_alnum_underscore c \<longleftrightarrow>
     is_alpha c \<or> (let n = of_char c :: nat in 48 \<le> n \<and> n \<le> 57) \<or> c = CHR ''_''"

text \<open>
  The pattern every CRD of the repository puts on a condition's \<open>reason\<close>,
  \<^verbatim>\<open>^[A-Za-z]([A-Za-z0-9_,:]*[A-Za-z0-9_])?$\<close> with a length from 1 to 1024.
\<close>

definition reason_valid :: "string \<Rightarrow> bool" where
  "reason_valid s \<longleftrightarrow>
     s \<noteq> [] \<and> length s \<le> 1024 \<and> is_alpha (hd s) \<and>
     list_all (\<lambda>c. is_alnum_underscore c \<or> c = CHR '','' \<or> c = CHR '':'') (tl s) \<and>
     is_alnum_underscore (last s)"

text \<open>\<open>spec.name\<close> has 3 to 46 bytes when set; exactly one of \<open>spec.name\<close> and
  \<open>spec.existingBucket\<close> is set.\<close>

definition BucketSpec_valid :: "BucketSpec \<Rightarrow> bool" where
  "BucketSpec_valid s \<longleftrightarrow>
     (bs_Name s \<noteq> [] \<longrightarrow> 3 \<le> length (bs_Name s) \<and> length (bs_Name s) \<le> 46) \<and>
     ((bs_Name s \<noteq> []) \<noteq> (bs_ExistingBucket s \<noteq> None))"

end
