(* ===== verification/KubeClient.thy ===== *)
theory KubeClient
  imports ApiTypes
begin

text \<open>
  The services the controllers call, as parameters: the Kubernetes client
  (\<open>client.Client\<close> of controller-runtime and \<open>controllerutil.CreateOrUpdate\<close>), the clock, and
  the three Garage interfaces the controller package declares.  Every call is one function on
  the outside state; the controllers' log has one event per call, with its answer, and one
  per Kubernetes event the recorder was asked to write.
\<close>

record 's kube =
  kGetBucket :: "nsname \<Rightarrow> 's \<Rightarrow> (error + Bucket) \<times> 's"
  kGetAccessKey :: "nsname \<Rightarrow> 's \<Rightarrow> (error + AccessKey) \<times> 's"
  kGetAccessPolicy :: "nsname \<Rightarrow> 's \<Rightarrow> (error + AccessPolicy) \<times> 's"
  kGetSecret :: "nsname \<Rightarrow> 's \<Rightarrow> (error + secret) \<times> 's"
  kPatchBucketStatus :: "Bucket \<Rightarrow> 's \<Rightarrow> error option \<times> 's"
  kPatchAccessKey :: "AccessKey \<Rightarrow> AccessKey \<Rightarrow> 's \<Rightarrow> (error + AccessKey) \<times> 's"
  kUpdateAccessKey :: "AccessKey \<Rightarrow> 's \<Rightarrow> error option \<times> 's"
  kUpdateAccessKeyStatus :: "AccessKey \<Rightarrow> 's \<Rightarrow> error option \<times> 's"
  kUpdateAccessPolicy :: "AccessPolicy \<Rightarrow> 's \<Rightarrow> error option \<times> 's"
  kPatchAccessPolicyStatus :: "AccessPolicy \<Rightarrow> 's \<Rightarrow> error option \<times> 's"
  kCreateOrUpdateConfigMap ::
    "configmap \<Rightarrow> (configmap \<Rightarrow> error + configmap) \<Rightarrow> 's \<Rightarrow> (op_result \<times> error option) \<times> 's"
  kCreateOrUpdateSecret ::
    "secret \<Rightarrow> (secret \<Rightarrow> error + secret) \<Rightarrow> 's \<Rightarrow> (op_result \<times> error option) \<times> 's"
  kListConfigMaps :: "string \<Rightarrow> string \<times> string \<Rightarrow> 's \<Rightarrow> (error + configmap list) \<times> 's"
  kListAccessPolicies :: "string \<Rightarrow> string \<times> string \<Rightarrow> 's \<Rightarrow> (error + AccessPolicy list) \<times> 's"
  kDeleteConfigMap :: "configmap \<Rightarrow> 's \<Rightarrow> error option \<times> 's"
  kDeleteSecret :: "secret \<Rightarrow> 's \<Rightarrow> error option \<times> 's"
  clockSince :: "int \<Rightarrow> 's \<Rightarrow> int64 \<times> 's"
  BucketStatusEqual :: "BucketStatus \<Rightarrow> BucketStatus \<Rightarrow> bool"
  AccessKeyStatusEqual :: "AccessKeyStatus \<Rightarrow> AccessKeyStatus \<Rightarrow> bool"
  AccessPolicyStatusEqual :: "AccessPolicyStatus \<Rightarrow> AccessPolicyStatus \<Rightarrow> bool"

datatype event_type = EventTypeNormal | EventTypeWarning

datatype ctrl_event =
    GetBucket nsname "error + Bucket"
  | GetAccessKey nsname "error + AccessKey"
  | GetAccessPolicy nsname "error + AccessPolicy"
  | GetSecret nsname "error + secret"
  | PatchBucketStatus Bucket "error option"
  | PatchAccessKey AccessKey "error + AccessKey"
  | UpdateAccessKey AccessKey "error option"
  | UpdateAccessKeyStatus AccessKey "error option"
  | UpdateAccessPolicy AccessPolicy "error option"
  | PatchAccessPolicyStatus AccessPolicy "error option"
  | CreateOrUpdateConfigMap configmap "op_result \<times> error option"
  | CreateOrUpdateSecret secret "op_result \<times> error option"
  | ListConfigMaps string "string \<times> string" "error + configmap list"
  | ListAccessPolicies string "string \<times> string" "error + AccessPolicy list"
  | DeleteConfigMap configmap "error option"
  | DeleteSecret secret "error option"
  | Eventf event_type string string
  | BucketGet string "error + s3_bucket"
  | BucketCreate string "error + s3_bucket"
  | BucketUpdate string s3_quotas "error option"
  | OwnershipGet string string "error + s3_permissions"
  | PermissionsSet string string s3_permissions "error option"
  | KeyCreate string "error + s3_access_key"
  | KeyGet string "error + s3_access_key"
  | KeyLookup string "error + s3_access_key"
  | KeyDelete string "error option"

type_synonym 's cworld = "('s, ctrl_event) world"

text \<open>\<open>equality.Semantic.DeepEqual\<close> on a status.\<close>

definition status_eq_laws :: "'s kube \<Rightarrow> bool" where
  "status_eq_laws K \<longleftrightarrow>
     (\<forall>s t. BucketStatusEqual K s t = (s = t)) \<and>
     (\<forall>s t. AccessKeyStatusEqual K s t = (s = t)) \<and>
     (\<forall>s t. AccessPolicyStatusEqual K s t = (s = t))"

text \<open>
  \<open>CreateOrUpdate\<close> on a store of objects \<open>view\<close>: it only touches the object it was given,
  hands the function the stored object when there is one and the given object otherwise,
  stores what the function returned or nothing at all, and reports success only when the
  store holds that result.  The server owns UID, resource version, generation and creation
  time; \<open>same_object\<close> compares the rest.
\<close>

definition same_meta :: "objmeta \<Rightarrow> objmeta \<Rightarrow> bool" where
  "same_meta m n \<longleftrightarrow> m_Name m = m_Name n \<and> m_Namespace m = m_Namespace n \<and>
     m_Labels m = m_Labels n \<and> m_OwnerReferences m = m_OwnerReferences n"

definition create_or_update_laws ::
  "('o \<Rightarrow> objmeta) \<Rightarrow> ('o \<Rightarrow> 'd) \<Rightarrow> ('s \<Rightarrow> nsname \<Rightarrow> 'o option) \<Rightarrow>
     ('o \<Rightarrow> ('o \<Rightarrow> error + 'o) \<Rightarrow> 's \<Rightarrow> (op_result \<times> error option) \<times> 's) \<Rightarrow> bool" where
  "create_or_update_laws meta payload view op \<longleftrightarrow>
     (\<forall>s k o'. view s k = Some o' \<longrightarrow>
        m_UID (meta o') \<noteq> [] \<and> k = (m_Namespace (meta o'), m_Name (meta o'))) \<and>
     (\<forall>o' f s res err s'. op o' f s = ((res, err), s') \<longrightarrow>
        (let k = (m_Namespace (meta o'), m_Name (meta o'));
             base = (case view s k of None \<Rightarrow> o' | Some cur \<Rightarrow> cur);
             stored = (\<exists>new st. f base = Inr new \<and> view s' k = Some st \<and>
                same_meta (meta st) (meta new) \<and> payload st = payload new)
         in (\<forall>k'. k' \<noteq> k \<longrightarrow> view s' k' = view s k') \<and>
            (view s' k = view s k \<or> stored) \<and>
            (err = None \<longrightarrow> stored) \<and>
            (\<forall>e. f base = Inl e \<longrightarrow> view s' k = view s k \<and> err \<noteq> None)))"

text \<open>A read of one object answers with what the store holds, and changes nothing.\<close>

definition read_laws ::
  "lib \<Rightarrow> ('s \<Rightarrow> nsname \<Rightarrow> 'o option) \<Rightarrow> (nsname \<Rightarrow> 's \<Rightarrow> (error + 'o) \<times> 's) \<Rightarrow> bool" where
  "read_laws L view get \<longleftrightarrow>
     (\<forall>n s r s'. get n s = (r, s') \<longrightarrow> view s' = view s \<and>
        (\<forall>x. r = Inr x \<longrightarrow> view s n = Some x) \<and>
        (\<forall>e. r = Inl e \<longrightarrow> IsNotFound L e \<longrightarrow> view s n = None))"

lemma read_lawsD:
  assumes "read_laws L view get" and "get n s = (r, s')"
  shows "view s' = view s" and "r = Inr x \<Longrightarrow> view s n = Some x"
    and "r = Inl e \<Longrightarrow> IsNotFound L e \<Longrightarrow> view s n = None"
  using assms unfolding read_laws_def by blast+

text \<open>A change of a resource that the manager sees.  What \<open>SetupWithManager\<close> of a controller
  registers decides which requests the change queues.\<close>

datatype object_change =
    BucketChanged Bucket
  | AccessKeyChanged AccessKey
  | AccessPolicyChanged AccessPolicy

definition own_request :: "objmeta \<Rightarrow> nsname" where
  "own_request m = (m_Namespace m, m_Name m)"

text \<open>The keys under which a secret holds the credentials.\<close>

definition SecretKeyAccessKeyID :: string where "SecretKeyAccessKeyID = ''access-key-id''"
definition SecretKeySecretAccessKey :: string where
  "SecretKeySecretAccessKey = ''secret-access-key''"

text \<open>\<open>EventTypeWarning\<close> events the code raises on denied access, as it formats them.\<close>

definition access_message :: "string \<Rightarrow> string \<Rightarrow> error \<Rightarrow> string" where
  "access_message kind ns err =
     ''Cannot access '' @ kind @ '' in namespace '' @ quote ns @ '': '' @ errmsg err"

text \<open>A deletion after which the object is gone.\<close>

definition gone :: "lib \<Rightarrow> error option \<Rightarrow> bool" where
  "gone L r = (case r of None \<Rightarrow> True | Some e \<Rightarrow> IsNotFound L e)"

lemma gone_simps [simp]: "gone L None" "gone L (Some e) = IsNotFound L e"
  by (simp_all add: gone_def)

text \<open>How the outcome of the status write turns into the outcome of the run; the three
  controllers do it alike.\<close>

definition patched_outcome ::
  "lib \<Rightarrow> ctrl_result \<Rightarrow> error option \<Rightarrow> error option \<Rightarrow> outcome" where
  "patched_outcome L result err patchErr =
     (case patchErr of
        None \<Rightarrow> Returned result err
      | Some e \<Rightarrow>
          if IsConflict L e then Returned no_requeue None
          else if err = None then Returned no_requeue (Some e) else Returned result err)"

lemma patched_outcome_cases:
  "patched_outcome L res err p = Returned res err \<or>
     (\<exists>e err'. p = Some e \<and> patched_outcome L res err p = Returned no_requeue err')"
  by (cases p) (simp_all add: patched_outcome_def)

end
