(* ===== verification/Conditions.thy ===== *)
theory Conditions
  imports ApiTypes
begin

text \<open>
  The condition helpers the three controllers share (\<^verbatim>\<open>internal/controller/conditions.go\<close>,
  \<^verbatim>\<open>reasons.go\<close>) and the ones of each resource (\<^verbatim>\<open>bucket_conditions.go\<close>,
  \<^verbatim>\<open>accesskey_conditions.go\<close>, \<^verbatim>\<open>accesspolicy_conditions.go\<close>).  In Go they update the object
  in place; here they return it.  A condition written in the code leaves the transition time
  zero.  Where the code dereferences a condition without a \<open>nil\<close> check the model returns
  \<open>None\<close> for the panic.
\<close>

section \<open>conditions.go\<close>

definition Ready :: string where "Ready = ''Ready''"
definition finalizerName :: string where "finalizerName = ''garage.getclustered.net/finalizer''"
definition defaultReadyReason :: string where "defaultReadyReason = ''Available''"
definition defaultReadyMessage :: string where "defaultReadyMessage = ''All conditions met''"

definition mk_condition ::
  "string \<Rightarrow> cond_status \<Rightarrow> string \<Rightarrow> string \<Rightarrow> int64 \<Rightarrow> condition" where
  "mk_condition t s r m g =
     \<lparr>c_Type = t, c_Status = s, c_ObservedGeneration = g, c_LastTransitionTime = 0,
      c_Reason = r, c_Message = m\<rparr>"

fun initResourceConditions :: "lib \<Rightarrow> string list \<Rightarrow> condition list \<Rightarrow> condition list" where
  "initResourceConditions L [] cs = cs"
| "initResourceConditions L (t # ts) cs =
     initResourceConditions L ts
       (if FindStatusCondition L cs t = None
        then SetStatusCondition L cs
               (mk_condition t ConditionUnknown ''Pending'' ''Condition unknown'' 0)
        else cs)"

definition markNotReady ::
  "lib \<Rightarrow> int64 \<Rightarrow> condition list \<Rightarrow> string \<Rightarrow> string \<Rightarrow> string \<Rightarrow> condition list" where
  "markNotReady L gen cs condType reason message =
     SetStatusCondition L cs (mk_condition condType ConditionFalse reason message gen)"

text \<open>
  Go's \<open>&&\<close> chains and \<open>switch\<close> over dereferenced conditions: evaluated from the left, a
  \<open>nil\<close> pointer (\<open>None\<close>) panics when, and only when, it is reached.
\<close>

fun all_true :: "condition option list \<Rightarrow> bool option" where
  "all_true [] = Some True"
| "all_true (None # cs) = None"
| "all_true (Some c # cs) = (if c_Status c = ConditionTrue then all_true cs else Some False)"

fun first_false :: "(condition option \<times> (condition \<Rightarrow> 'a)) list \<Rightarrow> 'a \<Rightarrow> 'a option" where
  "first_false [] d = Some d"
| "first_false ((None, f) # cs) d = None"
| "first_false ((Some c, f) # cs) d =
     (if c_Status c = ConditionFalse then Some (f c) else first_false cs d)"

section \<open>reasons.go\<close>

definition ReasonBucketCreated :: string where "ReasonBucketCreated = ''BucketCreated''"
definition ReasonBucketCreateFailed :: string where
  "ReasonBucketCreateFailed = ''BucketCreateFailed''"
definition ReasonPolicyAssignmentFailed :: string where
  "ReasonPolicyAssignmentFailed = ''PolicyAssignmentFailed''"
definition ReasonConfigMapAccessForbidden :: string where
  "ReasonConfigMapAccessForbidden = ''ConfigMapAccessForbidden''"
definition ReasonSecretAccessForbidden :: string where
  "ReasonSecretAccessForbidden = ''SecretAccessForbidden''"
definition rbacRemedyMsg :: string where
  "rbacRemedyMsg = ''Grant the controller namespace-access Role and RoleBinding.''"

section \<open>bucket\_conditions.go\<close>

definition BucketReady :: string where "BucketReady = ''BucketReady''"
definition BucketConfigMapReady :: string where "BucketConfigMapReady = ''BucketConfigMapReady''"
definition ReasonConfigMapNameConflict :: string where
  "ReasonConfigMapNameConflict = ''ConfigMapNameConflict''"
definition ReasonConfigMapCreateError :: string where
  "ReasonConfigMapCreateError = ''ConfigMapCreateError''"
definition ReasonOwnerKeySecretNotFound :: string where
  "ReasonOwnerKeySecretNotFound = ''OwnerKeySecretNotFound''"
definition ReasonOwnershipVerificationFailed :: string where
  "ReasonOwnershipVerificationFailed = ''OwnershipVerificationFailed''"

definition initializeBucketConditions :: "lib \<Rightarrow> Bucket \<Rightarrow> Bucket" where
  "initializeBucketConditions L b =
     b_set_conditions
       (initResourceConditions L [Ready, BucketReady, BucketConfigMapReady] (b_Conditions b)) b"

definition markBucketNotReady :: "lib \<Rightarrow> Bucket \<Rightarrow> string \<Rightarrow> string \<Rightarrow> Bucket" where
  "markBucketNotReady L b reason message =
     b_set_conditions
       (markNotReady L (b_Generation b) (b_Conditions b) BucketReady reason message) b"

definition markBucketReady :: "lib \<Rightarrow> Bucket \<Rightarrow> Bucket" where
  "markBucketReady L b =
     b_set_conditions (SetStatusCondition L (b_Conditions b)
       (mk_condition BucketReady ConditionTrue ''BucketReady'' ''Bucket resource is ready''
         (b_Generation b))) b"

definition updateBucketCMCondition ::
  "lib \<Rightarrow> Bucket \<Rightarrow> cond_status \<Rightarrow> string \<Rightarrow> string \<Rightarrow> Bucket" where
  "updateBucketCMCondition L b stat reason msg =
     b_set_conditions (SetStatusCondition L (b_Conditions b)
       (mk_condition BucketConfigMapReady stat reason msg (b_Generation b))) b"

definition updateBucketReadyCondition :: "lib \<Rightarrow> Bucket \<Rightarrow> Bucket" where
  "updateBucketReadyCondition L b =
    (case (FindStatusCondition L (b_Conditions b) BucketReady,
           FindStatusCondition L (b_Conditions b) BucketConfigMapReady) of
       (Some bucketCond, Some cmCond) \<Rightarrow>
         let (stat, reason, msg) =
           (if c_Status bucketCond = ConditionTrue \<and> c_Status cmCond = ConditionTrue
            then (ConditionTrue, defaultReadyReason, defaultReadyMessage)
            else if c_Status bucketCond = ConditionFalse
            then (ConditionFalse, c_Reason bucketCond, c_Message bucketCond)
            else if c_Status cmCond = ConditionFalse
            then (ConditionFalse, c_Reason cmCond, c_Message cmCond)
            else (ConditionFalse, ''WaitingForBucket'', ''Waiting for '' @ BucketReady));
           b' = b_set_conditions (SetStatusCondition L (b_Conditions b)
                  (mk_condition Ready stat reason msg (b_Generation b))) b
         in if stat = ConditionTrue
            then b'\<lparr>b_Status := (b_Status b')\<lparr>bst_ObservedGeneration := b_Generation b'\<rparr>\<rparr>
            else b'
     | _ \<Rightarrow> b)"

section \<open>accesskey\_conditions.go\<close>

definition AccessKeyReady :: string where "AccessKeyReady = ''AccessKeyReady''"
definition KeySecretReady :: string where "KeySecretReady = ''KeySecretReady''"
definition ReasonSecretNameConflict :: string where
  "ReasonSecretNameConflict = ''SecretNameConflict''"
definition ReasonSecretSetupFailed :: string where
  "ReasonSecretSetupFailed = ''SecretSetupFailed''"

definition InitializeConditions :: "lib \<Rightarrow> AccessKey \<Rightarrow> AccessKey" where
  "InitializeConditions L k =
     k_set_conditions
       (initResourceConditions L [Ready, AccessKeyReady, KeySecretReady] (k_Conditions k)) k"

definition markAccessKeyReady :: "lib \<Rightarrow> AccessKey \<Rightarrow> AccessKey" where
  "markAccessKeyReady L k =
     k_set_conditions (SetStatusCondition L (k_Conditions k)
       (mk_condition AccessKeyReady ConditionTrue ''AccessKeyReady''
         ''External access key is ready'' (k_Generation k))) k"

definition markAccessKeyNotReady :: "lib \<Rightarrow> AccessKey \<Rightarrow> string \<Rightarrow> string \<Rightarrow> AccessKey" where
  "markAccessKeyNotReady L k reason message =
     k_set_conditions
       (markNotReady L (k_Generation k) (k_Conditions k) AccessKeyReady reason message) k"

definition markSecretNotReady :: "lib \<Rightarrow> AccessKey \<Rightarrow> string \<Rightarrow> string \<Rightarrow> AccessKey" where
  "markSecretNotReady L k reason message =
     k_set_conditions (SetStatusCondition L (k_Conditions k)
       (mk_condition KeySecretReady ConditionFalse reason message (k_Generation k))) k"

definition markSecretReady :: "lib \<Rightarrow> AccessKey \<Rightarrow> AccessKey" where
  "markSecretReady L k =
     k_set_conditions (SetStatusCondition L (k_Conditions k)
       (mk_condition KeySecretReady ConditionTrue ''SecretReady''
         ''Secret for external access key is ready'' (k_Generation k))) k"

definition externalKeyReadyStat :: "lib \<Rightarrow> AccessKey \<Rightarrow> cond_status option" where
  "externalKeyReadyStat L k =
     map_option c_Status (FindStatusCondition L (k_Conditions k) AccessKeyReady)"

definition failureReasons :: "string list" where
  "failureReasons = [ReasonSecretNameConflict]"

definition isPermanentFailure :: "string \<Rightarrow> bool" where
  "isPermanentFailure reason = List.member failureReasons reason"

definition updateAccessKeyCondition :: "lib \<Rightarrow> AccessKey \<Rightarrow> AccessKey option" where
  "updateAccessKeyCondition L k =
    (let accessKeyCond = FindStatusCondition L (k_Conditions k) AccessKeyReady;
         secretCond = FindStatusCondition L (k_Conditions k) KeySecretReady
     in do {
       ready \<leftarrow> all_true [accessKeyCond, secretCond];
       (stat, reason, msg) \<leftarrow>
         (if ready then Some (ConditionTrue, defaultReadyReason, defaultReadyMessage)
          else first_false
            [(accessKeyCond, \<lambda>c. (ConditionFalse, c_Reason c, c_Message c)),
             (secretCond, \<lambda>c. (ConditionFalse, c_Reason c, c_Message c))]
            (ConditionFalse, ''WaitingForResources'',
             ''Waiting for conditions '' @ AccessKeyReady @ '' and '' @ KeySecretReady));
       let k' = k_set_conditions (SetStatusCondition L (k_Conditions k)
                  (mk_condition Ready stat reason msg (k_Generation k))) k;
       Some (if stat = ConditionTrue \<or> isPermanentFailure reason
             then k'\<lparr>k_Status := (k_Status k')\<lparr>kst_ObservedGeneration := k_Generation k'\<rparr>\<rparr>
             else k')
     })"

section \<open>accesspolicy\_conditions.go\<close>

definition PolicyAssignmentReady :: string where "PolicyAssignmentReady = ''PolicyReady''"
definition PolicyBucketReady :: string where "PolicyBucketReady = ''PolicyBucketReady''"
definition PolicyAccessKeyReady :: string where "PolicyAccessKeyReady = ''PolicyAccessKeyReady''"
definition ReasonAccessKeyMissing :: string where "ReasonAccessKeyMissing = ''AccessKeyMissing''"
definition ReasonBucketMissing :: string where "ReasonBucketMissing = ''BucketMissing''"
definition ReasonDependencyFailed :: string where "ReasonDependencyFailed = ''DependencyFailed''"
definition ReasonDependenciesNotReady :: string where
  "ReasonDependenciesNotReady = ''DependenciesNotReady''"
definition ReasonDegraded :: string where "ReasonDegraded = ''DependencyDegraded''"

definition initializePolicyConditions :: "lib \<Rightarrow> AccessPolicy \<Rightarrow> AccessPolicy" where
  "initializePolicyConditions L a =
     a_set_conditions
       (initResourceConditions L
          [Ready, PolicyAccessKeyReady, PolicyBucketReady, PolicyAssignmentReady]
          (a_Conditions a)) a"

definition markPolicyConditionNotReady ::
  "lib \<Rightarrow> AccessPolicy \<Rightarrow> string \<Rightarrow> string \<Rightarrow> string \<Rightarrow> AccessPolicy" where
  "markPolicyConditionNotReady L a condType reason message =
     a_set_conditions
       (markNotReady L (a_Generation a) (a_Conditions a) condType reason message) a"

definition markPolicyKeyReady :: "lib \<Rightarrow> AccessPolicy \<Rightarrow> AccessPolicy" where
  "markPolicyKeyReady L a =
     a_set_conditions (SetStatusCondition L (a_Conditions a)
       (mk_condition PolicyAccessKeyReady ConditionTrue ''AccessKeyReady''
         ''AccessKey is ready for assignment'' (a_Generation a))) a"

definition markPolicyBucketReady :: "lib \<Rightarrow> AccessPolicy \<Rightarrow> AccessPolicy" where
  "markPolicyBucketReady L a =
     a_set_conditions (SetStatusCondition L (a_Conditions a)
       (mk_condition PolicyBucketReady ConditionTrue ''BucketReady''
         ''Bucket is ready for assignment'' (a_Generation a))) a"

definition markPolicyAssignmentReady :: "lib \<Rightarrow> AccessPolicy \<Rightarrow> AccessPolicy" where
  "markPolicyAssignmentReady L a =
     a_set_conditions (SetStatusCondition L (a_Conditions a)
       (mk_condition PolicyAssignmentReady ConditionTrue ''AccessPolicyAssigned''
         ''Access policy configured in external system.'' (a_Generation a))) a"

definition updateAccessPolicyCondition :: "lib \<Rightarrow> AccessPolicy \<Rightarrow> AccessPolicy option" where
  "updateAccessPolicyCondition L a =
    (let accessKeyCond = FindStatusCondition L (a_Conditions a) PolicyAccessKeyReady;
         bucketCond = FindStatusCondition L (a_Conditions a) PolicyBucketReady;
         policyCond = FindStatusCondition L (a_Conditions a) PolicyAssignmentReady
     in do {
       ready \<leftarrow> all_true [accessKeyCond, bucketCond, policyCond];
       (stat, reason, msg) \<leftarrow>
         (if ready then Some (ConditionTrue, defaultReadyReason, defaultReadyMessage)
          else first_false
            [(bucketCond, \<lambda>c. (ConditionFalse, c_Reason c,
                ''Bucket not ready: '' @ c_Message c)),
             (accessKeyCond, \<lambda>c. (ConditionFalse, c_Reason c,
                ''Access key not ready: '' @ c_Message c)),
             (policyCond, \<lambda>c. (ConditionFalse, c_Reason c,
                ''Policy assignment failed: '' @ c_Message c))]
            (ConditionFalse, ReasonDependenciesNotReady,
             ''Waiting for conditions '' @ PolicyAccessKeyReady @ '' and '' @ PolicyBucketReady));
       let a' = a_set_conditions (SetStatusCondition L (a_Conditions a)
                  (mk_condition Ready stat reason msg (a_Generation a))) a;
       Some (if stat = ConditionTrue
             then a'\<lparr>a_Status := (a_Status a')\<lparr>pst_ObservedGeneration := a_Generation a'\<rparr>\<rparr>
             else a')
     })"

section \<open>What the helpers do to a condition set\<close>

text \<open>
  A condition set is read through \<open>cond_view\<close>: the fields the code writes, without the
  transition time the library owns.  Under the laws of the condition functions each helper
  is an update of that view at one type.
\<close>

type_synonym view = "cond_status \<times> string \<times> string \<times> int64"

definition view_of :: "condition \<Rightarrow> view" where
  "view_of c = (c_Status c, c_Reason c, c_Message c, c_ObservedGeneration c)"

definition cond_view :: "lib \<Rightarrow> condition list \<Rightarrow> string \<Rightarrow> view option" where
  "cond_view L cs t = map_option view_of (FindStatusCondition L cs t)"

definition cond_stat :: "lib \<Rightarrow> condition list \<Rightarrow> string \<Rightarrow> cond_status option" where
  "cond_stat L cs t = map_option c_Status (FindStatusCondition L cs t)"

lemma cond_stat_view: "cond_stat L cs t = map_option fst (cond_view L cs t)"
  by (simp add: cond_stat_def cond_view_def view_of_def option.map_comp comp_def)

lemma find_None_view: "FindStatusCondition L cs t = None \<longleftrightarrow> cond_view L cs t = None"
  by (simp add: cond_view_def)

lemma find_None_stat: "FindStatusCondition L cs t = None \<longleftrightarrow> cond_stat L cs t = None"
  by (simp add: cond_stat_def)

lemma mk_condition_simps [simp]:
  "c_Type (mk_condition t s r m g) = t"
  "c_Status (mk_condition t s r m g) = s"
  "c_Reason (mk_condition t s r m g) = r"
  "c_Message (mk_condition t s r m g) = m"
  "c_ObservedGeneration (mk_condition t s r m g) = g"
  "view_of (mk_condition t s r m g) = (s, r, m, g)"
  by (simp_all add: mk_condition_def view_of_def)

lemma same_condition_view:
  "same_condition d c \<Longrightarrow> view_of d = view_of c"
  by (simp add: same_condition_def view_of_def)

lemma cond_view_set:
  assumes "cond_laws L"
  shows "cond_view L (SetStatusCondition L cs c) t =
    (if t = c_Type c then Some (view_of c) else cond_view L cs t)"
proof (cases "t = c_Type c")
  case True
  obtain d where "FindStatusCondition L (SetStatusCondition L cs c) t = Some d"
    and "same_condition d c"
    using find_set_same [OF assms True] .
  with True show ?thesis by (simp add: cond_view_def same_condition_view)
next
  case False
  then show ?thesis by (simp add: cond_view_def find_set_other [OF assms])
qed

lemma cond_stat_set:
  "cond_laws L \<Longrightarrow> cond_stat L (SetStatusCondition L cs c) t =
    (if t = c_Type c then Some (c_Status c) else cond_stat L cs t)"
  by (simp add: cond_stat_view cond_view_set view_of_def)

lemma init_find_some:
  "cond_laws L \<Longrightarrow> FindStatusCondition L cs t = Some d \<Longrightarrow>
     FindStatusCondition L (initResourceConditions L ts cs) t = Some d"
proof (induction ts arbitrary: cs)
  case Nil
  then show ?case by simp
next
  case (Cons u ts)
  show ?case
  proof (cases "FindStatusCondition L cs u = None")
    case True
    with Cons.prems have "t \<noteq> u" by auto
    with Cons.prems have "FindStatusCondition L (SetStatusCondition L cs
        (mk_condition u ConditionUnknown ''Pending'' ''Condition unknown'' 0)) t = Some d"
      by (simp add: find_set_other)
    with Cons True show ?thesis by simp
  next
    case False
    with Cons show ?thesis by auto
  qed
qed

lemma init_find_present:
  "cond_laws L \<Longrightarrow> t \<in> set ts \<Longrightarrow>
     FindStatusCondition L (initResourceConditions L ts cs) t \<noteq> None"
proof (induction ts arbitrary: cs)
  case Nil
  then show ?case by simp
next
  case (Cons u ts)
  let ?cs = "if FindStatusCondition L cs u = None
    then SetStatusCondition L cs
      (mk_condition u ConditionUnknown ''Pending'' ''Condition unknown'' 0)
    else cs"
  have "cond_view L ?cs u \<noteq> None"
    using Cons.prems(1) by (simp add: cond_view_set find_None_view)
  then obtain d where "FindStatusCondition L ?cs u = Some d"
    by (auto simp: find_None_view [symmetric])
  then have "FindStatusCondition L (initResourceConditions L ts ?cs) u = Some d"
    by (rule init_find_some [OF Cons.prems(1)])
  with Cons show ?case by (cases "t = u") auto
qed

lemma init_idle:
  "\<forall>t \<in> set ts. FindStatusCondition L cs t \<noteq> None \<Longrightarrow> initResourceConditions L ts cs = cs"
  by (induction ts) auto

lemma init_idem:
  "cond_laws L \<Longrightarrow>
     initResourceConditions L ts (initResourceConditions L ts cs) = initResourceConditions L ts cs"
  by (rule init_idle) (simp add: init_find_present del: not_None_eq)

lemma init_view_other:
  "cond_laws L \<Longrightarrow> t \<notin> set ts \<Longrightarrow>
     cond_view L (initResourceConditions L ts cs) t = cond_view L cs t"
  by (induction ts arbitrary: cs) (auto simp: cond_view_set)

lemma init_view:
  "cond_laws L \<Longrightarrow> t \<in> set ts \<Longrightarrow>
     cond_view L (initResourceConditions L ts cs) t =
       (case cond_view L cs t of None \<Rightarrow> Some (ConditionUnknown, ''Pending'', ''Condition unknown'', 0)
        | Some v \<Rightarrow> Some v)"
proof (induction ts arbitrary: cs)
  case Nil
  then show ?case by simp
next
  case (Cons u ts)
  show ?case
  proof (cases "t = u")
    case True
    let ?cs = "if FindStatusCondition L cs u = None
      then SetStatusCondition L cs
        (mk_condition u ConditionUnknown ''Pending'' ''Condition unknown'' 0)
      else cs"
    have v: "cond_view L ?cs u = (case cond_view L cs u of
        None \<Rightarrow> Some (ConditionUnknown, ''Pending'', ''Condition unknown'', 0) | Some v \<Rightarrow> Some v)"
      using Cons.prems(1) by (auto simp: cond_view_set find_None_view split: option.splits)
    then obtain d where d: "FindStatusCondition L ?cs u = Some d"
      by (cases "FindStatusCondition L ?cs u") (auto simp: cond_view_def split: option.splits)
    from init_find_some [OF Cons.prems(1) d] v d True show ?thesis
      by (simp add: cond_view_def)
  next
    case False
    with Cons show ?thesis by (auto simp: cond_view_set)
  qed
qed

text \<open>Whether every condition of a set has a reason the CRD admits.\<close>

definition reason_ok :: "view option \<Rightarrow> bool" where
  "reason_ok v = (case v of None \<Rightarrow> True | Some (s, r, m, g) \<Rightarrow> reason_valid r)"

lemma reason_ok_simps [simp]: "reason_ok None" "reason_ok (Some (s, r, m, g)) = reason_valid r"
  by (simp_all add: reason_ok_def)

definition valid_reasons :: "lib \<Rightarrow> condition list \<Rightarrow> bool" where
  "valid_reasons L cs \<longleftrightarrow> (\<forall>t. reason_ok (cond_view L cs t))"

lemma valid_reasons_set:
  "cond_laws L \<Longrightarrow> reason_valid (c_Reason c) \<Longrightarrow> valid_reasons L cs \<Longrightarrow>
     valid_reasons L (SetStatusCondition L cs c)"
  by (simp add: valid_reasons_def cond_view_set view_of_def)

lemma reason_valid_Pending [simp]: "reason_valid ''Pending''"
  by code_simp

lemma valid_reasons_init:
  "cond_laws L \<Longrightarrow> valid_reasons L cs \<Longrightarrow> valid_reasons L (initResourceConditions L ts cs)"
  by (induction ts arbitrary: cs) (simp_all add: valid_reasons_set)

lemmas cond_type_defs =
  Ready_def BucketReady_def BucketConfigMapReady_def AccessKeyReady_def KeySecretReady_def
  PolicyAssignmentReady_def PolicyBucketReady_def PolicyAccessKeyReady_def

lemma cond_types_distinct [simp]:
  "Ready \<noteq> BucketReady" "BucketReady \<noteq> Ready"
  "Ready \<noteq> BucketConfigMapReady" "BucketConfigMapReady \<noteq> Ready"
  "BucketReady \<noteq> BucketConfigMapReady" "BucketConfigMapReady \<noteq> BucketReady"
  "Ready \<noteq> AccessKeyReady" "AccessKeyReady \<noteq> Ready"
  "Ready \<noteq> KeySecretReady" "KeySecretReady \<noteq> Ready"
  "AccessKeyReady \<noteq> KeySecretReady" "KeySecretReady \<noteq> AccessKeyReady"
  "Ready \<noteq> PolicyAssignmentReady" "PolicyAssignmentReady \<noteq> Ready"
  "Ready \<noteq> PolicyBucketReady" "PolicyBucketReady \<noteq> Ready"
  "Ready \<noteq> PolicyAccessKeyReady" "PolicyAccessKeyReady \<noteq> Ready"
  "PolicyBucketReady \<noteq> PolicyAccessKeyReady" "PolicyAccessKeyReady \<noteq> PolicyBucketReady"
  "PolicyBucketReady \<noteq> PolicyAssignmentReady" "PolicyAssignmentReady \<noteq> PolicyBucketReady"
  "PolicyAccessKeyReady \<noteq> PolicyAssignmentReady" "PolicyAssignmentReady \<noteq> PolicyAccessKeyReady"
  by (simp_all add: cond_type_defs)

end
