(* ===== verification/Backoff.thy ===== *)
theory Backoff
  imports GoBase "HOL-Library.Signed_Division"
begin

text \<open>
  The requeue interval of a bucket whose import is blocked
  (\<^verbatim>\<open>internal/controller/backoff.go\<close>).  Durations are 64-bit signed nanoseconds: the division
  truncates, the addition and the shift wrap, a shift by 64 or more gives zero, and a zero
  base panics (\<open>None\<close>).
\<close>

definition go_div :: "int64 \<Rightarrow> int64 \<Rightarrow> int64 option" where
  "go_div a b = (if b = 0 then None else Some (word_of_int (sint a sdiv sint b)))"

definition go_shl :: "int64 \<Rightarrow> nat \<Rightarrow> int64" where
  "go_shl b k = (if k < 64 then push_bit k b else 0)"

definition smin :: "int64 \<Rightarrow> int64 \<Rightarrow> int64" where
  "smin a b = (if sint b < sint a then b else a)"

fun bit_length :: "nat \<Rightarrow> nat" where
  "bit_length n = (if n = 0 then 0 else Suc (bit_length (n div 2)))"

declare bit_length.simps [simp del]

text \<open>\<open>math/bits.Len\<close>.\<close>

definition bits_Len :: "64 word \<Rightarrow> nat" where
  "bits_Len x = bit_length (unat x)"

definition ownerSecretBackoff :: "int64 \<Rightarrow> int64 \<Rightarrow> int64 \<Rightarrow> int64 option" where
  "ownerSecretBackoff age base maxInterval =
    (let age = (if sint age < 0 then 0 else age) in
     case go_div age base of
       None \<Rightarrow> None
     | Some q \<Rightarrow>
         let n = int (bits_Len (q + 1)) - 1
         in Some (smin (go_shl base (nat (n mod 2 ^ 64))) maxInterval))"

text \<open>The reconciler's constants: a base of five seconds and a ceiling of fifteen minutes.\<close>

definition baseRequeueInterval :: int64 where "baseRequeueInterval = 5000000000"
definition maxRequeueInterval :: int64 where "maxRequeueInterval = 900000000000"

section \<open>The bracket\<close>

lemma bit_length_0 [simp]: "bit_length 0 = 0"
  by (simp add: bit_length.simps)

lemma bit_length_bounds:
  "0 < n \<Longrightarrow> 0 < bit_length n \<and> 2 ^ (bit_length n - 1) \<le> n \<and> n < 2 ^ bit_length n"
proof (induction n rule: bit_length.induct)
  case (1 n)
  show ?case
  proof (cases "n div 2 = 0")
    case True
    with "1.prems" have "n = 1" by auto
    then show ?thesis by (simp add: bit_length.simps)
  next
    case False
    with "1" have ih: "0 < bit_length (n div 2)" "2 ^ (bit_length (n div 2) - 1) \<le> n div 2"
      "n div 2 < 2 ^ bit_length (n div 2)"
      by auto
    have e: "bit_length n = Suc (bit_length (n div 2))"
      using "1.prems" by (simp add: bit_length.simps [of n])
    obtain k where k: "bit_length (n div 2) = Suc k"
      using ih(1) by (cases "bit_length (n div 2)") auto
    have "2 * 2 ^ k \<le> n" and "n < 2 * 2 ^ Suc k"
      using ih(2,3) k by simp_all
    with e k show ?thesis by simp
  qed
qed

lemma bit_length_mono: "m \<le> n \<Longrightarrow> bit_length m \<le> bit_length n"
proof (cases "m = 0")
  case False
  assume mn: "m \<le> n"
  with False have m: "2 ^ (bit_length m - 1) \<le> m" "0 < bit_length m" and n: "n < 2 ^ bit_length n"
    using bit_length_bounds by auto
  with mn have "2 ^ (bit_length m - 1) < (2 :: nat) ^ bit_length n" by linarith
  then have "bit_length m - 1 < bit_length n"
    by (rule power_less_imp_less_exp [rotated]) simp
  with m(2) show ?thesis by simp
qed simp

text \<open>The number of doublings: the bracket the age falls in.\<close>

definition bracket :: "int \<Rightarrow> int \<Rightarrow> nat" where
  "bracket age base = bit_length (nat (age div base + 1)) - 1"

lemma bracket_bounds:
  assumes "0 \<le> age" "0 < base"
  shows "2 ^ bracket age base \<le> age div base + 1"
    and "age div base + 1 < 2 ^ Suc (bracket age base)"
proof -
  have q: "0 \<le> age div base" using assms by (simp add: pos_imp_zdiv_nonneg_iff)
  then have p: "0 < nat (age div base + 1)" by simp
  note b = bit_length_bounds [OF p]
  then have "Suc (bracket age base) = bit_length (nat (age div base + 1))"
    by (simp add: bracket_def)
  with b have "2 ^ bracket age base \<le> nat (age div base + 1)"
    and "nat (age div base + 1) < 2 ^ Suc (bracket age base)"
    by (simp_all add: bracket_def)
  with q show "2 ^ bracket age base \<le> age div base + 1"
    and "age div base + 1 < 2 ^ Suc (bracket age base)"
    by (simp_all add: nat_less_iff le_nat_iff)
qed

lemma bracket_mono:
  assumes "0 \<le> a" "a \<le> b" "0 < base"
  shows "bracket a base \<le> bracket b base"
proof -
  have "a div base \<le> b div base" using assms by (simp add: zdiv_mono1)
  then have "bit_length (nat (a div base + 1)) \<le> bit_length (nat (b div base + 1))"
    by (intro bit_length_mono nat_mono) simp
  then show ?thesis by (simp add: bracket_def)
qed

lemma scaled_le:
  assumes "0 \<le> age" "0 < base"
  shows "base * 2 ^ bracket age base \<le> age + base"
proof -
  have "base * 2 ^ bracket age base \<le> base * (age div base + 1)"
    using bracket_bounds(1) [OF assms] assms(2) by (intro mult_left_mono) auto
  also have "\<dots> = base * (age div base) + base" by (simp add: algebra_simps)
  also have "base * (age div base) \<le> age"
    using mult_div_mod_eq [of base age] pos_mod_sign [OF assms(2), of age] by linarith
  finally show ?thesis by simp
qed

section \<open>The code against the bracket\<close>

lemma sint_push_bit:
  assumes "0 \<le> sint b" "sint b * 2 ^ k < 2 ^ 63"
  shows "sint (push_bit k (b :: int64)) = sint b * 2 ^ k"
proof -
  have "push_bit k b = word_of_int (sint b * 2 ^ k)"
    by (simp add: push_bit_eq_mult)
  moreover have "0 \<le> sint b * 2 ^ k" using assms(1) by simp
  ultimately show ?thesis using assms(2) by (simp only: sint64_of_int)
qed

lemma unat_of_small: "0 \<le> m \<Longrightarrow> m < 2 ^ 63 \<Longrightarrow> unat (word_of_int m :: 64 word) = nat m"
  by (simp add: unat_eq_nat_uint uint_word_of_int_eq take_bit_int_eq_self)

lemma sdiv_nonneg: "0 \<le> a \<Longrightarrow> 0 < b \<Longrightarrow> (a :: int) sdiv b = a div b"
  by (cases "a = 0") (simp_all add: signed_divide_int_def)

lemma ownerSecretBackoff_value:
  assumes base: "0 < sint base"
    and a: "a = max 0 (sint age)"
    and fits: "sint base * 2 ^ bracket a (sint base) < 2 ^ 63"
    and fits1: "a div sint base + 1 < 2 ^ 63"
  shows "\<exists>r. ownerSecretBackoff age base mx = Some r \<and>
    sint r = min (sint base * 2 ^ bracket a (sint base)) (sint mx)"
proof -
  let ?age = "if sint age < 0 then 0 else age"
  let ?q = "word_of_int (sint ?age sdiv sint base) :: int64"
  have a0: "0 \<le> a" "sint ?age = a" using a by auto
  have nz: "base \<noteq> 0" using base by auto
  have qi: "sint ?age sdiv sint base = a div sint base"
    using a0 base by (simp add: sdiv_nonneg)
  have q0: "0 \<le> a div sint base" using a0 base by (simp add: pos_imp_zdiv_nonneg_iff)
  have "?q + 1 = word_of_int (a div sint base + 1)"
    by (simp add: qi)
  then have "unat (?q + 1) = nat (a div sint base + 1)"
    using unat_of_small [of "a div sint base + 1"] q0 fits1 by (simp only:)
  then have len: "bits_Len (?q + 1) = Suc (bracket a (sint base))"
    using bit_length_bounds [of "nat (a div sint base + 1)"] q0
    by (simp add: bits_Len_def bracket_def)
  have "(2::int) ^ bracket a (sint base) \<le> sint base * 2 ^ bracket a (sint base)"
    using base by simp
  then have "(2::int) ^ bracket a (sint base) < 2 ^ 63" using fits by linarith
  then have k63: "bracket a (sint base) < 63"
    by (rule power_less_imp_less_exp [rotated]) simp
  have sh: "go_shl base (nat ((int (bits_Len (?q + 1)) - 1) mod 2 ^ 64)) =
      push_bit (bracket a (sint base)) base"
    using k63 by (simp add: len go_shl_def)
  have v: "sint (push_bit (bracket a (sint base)) base) = sint base * 2 ^ bracket a (sint base)"
    using base fits by (intro sint_push_bit) auto
  have "ownerSecretBackoff age base mx = Some (smin (push_bit (bracket a (sint base)) base) mx)"
    unfolding ownerSecretBackoff_def Let_def go_div_def using nz sh by simp
  then show ?thesis by (simp add: smin_def v min_def)
qed

lemma no_overflow:
  assumes "0 < sint base" "a = max 0 (sint age)" "a + sint base < 2 ^ 63"
  shows "sint base * 2 ^ bracket a (sint base) < 2 ^ 63" and "a div sint base + 1 < 2 ^ 63"
proof -
  have a0: "0 \<le> a" using assms(2) by simp
  show "sint base * 2 ^ bracket a (sint base) < 2 ^ 63"
    using scaled_le [OF a0 assms(1)] assms(3) by linarith
  have "a div sint base \<le> a" using a0 assms(1)
    by (metis div_by_1 int_one_le_iff_zero_less linorder_not_less pos_imp_zdiv_nonneg_iff zdiv_mono2 zero_less_one order_refl)
  then show "a div sint base + 1 < 2 ^ 63" using assms(1,3) by linarith
qed

section \<open>Properties\<close>

text \<open>
  C38: the requeue interval never undercuts the base and never exceeds the ceiling: when the
  age plus one base interval fits in 64 bits, \<open>ownerSecretBackoff\<close> returns the base doubled
  once per bracket \<open>floor(log2(age/base + 1))\<close>, capped at the ceiling.
\<close>

theorem ownerSecretBackoff_bounds:
  assumes "0 < sint base" and "sint base \<le> sint mx"
    and "max 0 (sint age) + sint base < 2 ^ 63"
  shows "\<exists>r. ownerSecretBackoff age base mx = Some r \<and> sint base \<le> sint r \<and> sint r \<le> sint mx \<and>
    sint r = min (sint base * 2 ^ bracket (max 0 (sint age)) (sint base)) (sint mx)"
proof -
  obtain r where r: "ownerSecretBackoff age base mx = Some r"
    "sint r = min (sint base * 2 ^ bracket (max 0 (sint age)) (sint base)) (sint mx)"
    using ownerSecretBackoff_value [OF assms(1) refl] no_overflow [OF assms(1) refl assms(3)]
    by blast
  have "sint base * 1 \<le> sint base * 2 ^ bracket (max 0 (sint age)) (sint base)"
    using assms(1) by (intro mult_left_mono) auto
  with r assms(2) show ?thesis by auto
qed

theorem ownerSecretBackoff_bounds_witness:
  "\<exists>r. ownerSecretBackoff 60 5 900 = Some r \<and> 5 \<le> sint r \<and> sint r \<le> 900"
  using ownerSecretBackoff_bounds [of 5 900 60] by auto

text \<open>
  the interval never shrinks as the resource ages: a later retry is never scheduled
  sooner than an earlier one was.
\<close>

theorem ownerSecretBackoff_mono:
  assumes "0 < sint base" and "sint age \<le> sint age'"
    and "max 0 (sint age') + sint base < 2 ^ 63"
  shows "\<exists>r r'. ownerSecretBackoff age base mx = Some r \<and>
    ownerSecretBackoff age' base mx = Some r' \<and> sint r \<le> sint r'"
proof -
  let ?a = "max 0 (sint age)" and ?b = "max 0 (sint age')"
  have ab: "?a \<le> ?b" using assms(2) by simp
  with assms(3) have fit: "?a + sint base < 2 ^ 63" by linarith
  obtain r where r: "ownerSecretBackoff age base mx = Some r"
    "sint r = min (sint base * 2 ^ bracket ?a (sint base)) (sint mx)"
    using ownerSecretBackoff_value [OF assms(1) refl] no_overflow [OF assms(1) refl fit] by blast
  obtain r' where r': "ownerSecretBackoff age' base mx = Some r'"
    "sint r' = min (sint base * 2 ^ bracket ?b (sint base)) (sint mx)"
    using ownerSecretBackoff_value [OF assms(1) refl] no_overflow [OF assms(1) refl assms(3)]
    by blast
  have "(2::int) ^ bracket ?a (sint base) \<le> 2 ^ bracket ?b (sint base)"
    using bracket_mono [OF _ ab assms(1)] by (intro power_increasing) auto
  then have "sint base * 2 ^ bracket ?a (sint base) \<le> sint base * 2 ^ bracket ?b (sint base)"
    using assms(1) by (intro mult_left_mono) auto
  with r r' show ?thesis by auto
qed

theorem ownerSecretBackoff_mono_witness:
  "\<exists>r r'. ownerSecretBackoff 1 5 900 = Some r \<and> ownerSecretBackoff 60 5 900 = Some r' \<and>
    sint r \<le> sint r'"
  using ownerSecretBackoff_mono [of 5 1 60 900] by auto

lemma controller_bracket:
  assumes "0 \<le> a" "a < 2 ^ 63"
  shows "bracket a 5000000000 \<le> 30" and "8 \<le> bracket a 5000000000 \<longleftrightarrow> 1275000000000 \<le> a"
proof -
  let ?n = "bracket a 5000000000"
  note b = bracket_bounds [of a 5000000000, OF assms(1)]
  have q: "a div 5000000000 + 1 < 2 ^ 31" using assms by simp
  with b(1) have "(2::int) ^ ?n < 2 ^ 31" by simp
  then have "?n < 31" by (rule power_less_imp_less_exp [rotated]) simp
  then show "?n \<le> 30" by simp
  show "8 \<le> ?n \<longleftrightarrow> 1275000000000 \<le> a"
  proof
    assume "8 \<le> ?n"
    then have "(2::int) ^ 8 \<le> 2 ^ ?n" by (rule power_increasing) simp
    with b(1) show "1275000000000 \<le> a" by simp
  next
    assume "1275000000000 \<le> a"
    then have "256 \<le> a div 5000000000 + 1" by simp
    with b(2) have "(2::int) ^ 8 < 2 ^ Suc ?n" by simp
    then have "8 < Suc ?n" by (rule power_less_imp_less_exp [rotated]) simp
    then show "8 \<le> ?n" by simp
  qed
qed

lemma controller_constants:
  "sint baseRequeueInterval = 5000000000" "sint maxRequeueInterval = 900000000000"
  by (simp_all add: baseRequeueInterval_def maxRequeueInterval_def)

lemma controller_backoff:
  obtains r where "ownerSecretBackoff age baseRequeueInterval maxRequeueInterval = Some r"
    and "sint r = min (5000000000 * 2 ^ bracket (max 0 (sint age)) 5000000000) 900000000000"
    and "5000000000 \<le> sint r" and "sint r \<le> 900000000000"
proof -
  let ?a = "max 0 (sint age)"
  let ?n = "bracket ?a 5000000000"
  have a: "0 \<le> ?a" "?a < 2 ^ 63" using sint64_range(2) [of age] by simp_all
  have p30: "(2::int) ^ ?n \<le> 2 ^ 30"
    using controller_bracket(1) [OF a] by (intro power_increasing) auto
  have "?a div 5000000000 + 1 < 2 ^ 63" using a by simp
  with p30 obtain r where r: "ownerSecretBackoff age baseRequeueInterval maxRequeueInterval = Some r"
    "sint r = min (5000000000 * 2 ^ ?n) 900000000000"
    using ownerSecretBackoff_value [of baseRequeueInterval ?a age maxRequeueInterval]
    by (auto simp: controller_constants)
  have "(1::int) \<le> 2 ^ ?n" by simp
  with r that show thesis by auto
qed

text \<open>
  with the reconciler's constants the backoff is total and overflow-free for every age a
  64-bit duration can hold, a negative or saturated one included: it always lies between 5
  seconds and 15 minutes, and is the full 15 minutes exactly from an age of 21 minutes 15
  seconds on.
\<close>

theorem ownerSecretBackoff_controller:
  "\<exists>r. ownerSecretBackoff age baseRequeueInterval maxRequeueInterval = Some r \<and>
     5000000000 \<le> sint r \<and> sint r \<le> 900000000000 \<and>
     (r = maxRequeueInterval \<longleftrightarrow> 1275000000000 \<le> sint age)"
proof -
  let ?a = "max 0 (sint age)"
  let ?n = "bracket ?a 5000000000"
  have a: "0 \<le> ?a" "?a < 2 ^ 63" using sint64_range(2) [of age] by simp_all
  note n = controller_bracket [OF a] and mx = controller_constants(2)
  obtain r where r: "ownerSecretBackoff age baseRequeueInterval maxRequeueInterval = Some r"
    "sint r = min (5000000000 * 2 ^ ?n) 900000000000"
    and bounds: "5000000000 \<le> sint r" "sint r \<le> 900000000000"
    by (rule controller_backoff)
  have "r = maxRequeueInterval \<longleftrightarrow> sint r = sint maxRequeueInterval"
    by (rule word_eq_iff_signed)
  also have "\<dots> \<longleftrightarrow> 180 \<le> (2::int) ^ ?n" using r(2) mx by auto
  also have "\<dots> \<longleftrightarrow> 8 \<le> ?n"
  proof
    assume "180 \<le> (2::int) ^ ?n"
    then have "(2::int) ^ 7 < 2 ^ ?n" by simp
    then have "7 < ?n" by (rule power_less_imp_less_exp [rotated]) simp
    then show "8 \<le> ?n" by simp
  next
    assume "8 \<le> ?n"
    then have "(2::int) ^ 8 \<le> 2 ^ ?n" by (rule power_increasing) simp
    then show "180 \<le> (2::int) ^ ?n" by simp
  qed
  also have "\<dots> \<longleftrightarrow> 1275000000000 \<le> sint age" using n(2) by auto
  finally show ?thesis using r(1) bounds by blast
qed

end
