(* ===== verification/Sha256.thy ===== *)
theory Sha256
  imports GoBase
begin

text \<open>
  \<open>crypto/sha256\<close> of Go's standard library (FIPS 180-4), as far as the controllers use it:
  \<open>Sum256\<close>, whose first eight bytes become the suffix of every external name.
\<close>

unbundle bit_operations_syntax

text \<open>
  The round constants are the first 32 bits after the point of the cube roots of the first 64
  primes, the initial state those of the square roots of the first eight.  The tables hold the
  prime, the whole part of its root and the bits; \<open>root_table\<close> is checked for both.
\<close>

definition sha_K_table :: "(nat \<times> nat \<times> nat) list" where
  "sha_K_table =
    [(2, 1, 1116352408), (3, 1, 1899447441), (5, 1, 3049323471), (7, 1, 3921009573),
     (11, 2, 961987163), (13, 2, 1508970993), (17, 2, 2453635748), (19, 2, 2870763221),
     (23, 2, 3624381080), (29, 3, 310598401), (31, 3, 607225278), (37, 3, 1426881987),
     (41, 3, 1925078388), (43, 3, 2162078206), (47, 3, 2614888103), (53, 3, 3248222580),
     (59, 3, 3835390401), (61, 3, 4022224774), (67, 4, 264347078), (71, 4, 604807628),
     (73, 4, 770255983), (79, 4, 1249150122), (83, 4, 1555081692), (89, 4, 1996064986),
     (97, 4, 2554220882), (101, 4, 2821834349), (103, 4, 2952996808), (107, 4, 3210313671),
     (109, 4, 3336571891), (113, 4, 3584528711), (127, 5, 113926993), (131, 5, 338241895),
     (137, 5, 666307205), (139, 5, 773529912), (149, 5, 1294757372), (151, 5, 1396182291),
     (157, 5, 1695183700), (163, 5, 1986661051), (167, 5, 2177026350), (173, 5, 2456956037),
     (179, 5, 2730485921), (181, 5, 2820302411), (191, 5, 3259730800), (193, 5, 3345764771),
     (197, 5, 3516065817), (199, 5, 3600352804), (211, 5, 4094571909), (223, 6, 275423344),
     (227, 6, 430227734), (229, 6, 506948616), (233, 6, 659060556), (239, 6, 883997877),
     (241, 6, 958139571), (251, 6, 1322822218), (257, 6, 1537002063), (263, 6, 1747873779),
     (269, 6, 1955562222), (271, 6, 2024104815), (277, 6, 2227730452), (281, 6, 2361852424),
     (283, 6, 2428436474), (293, 6, 2756734187), (307, 6, 3204031479), (311, 6, 3329325298)]"

definition sha_H0_table :: "(nat \<times> nat \<times> nat) list" where
  "sha_H0_table =
    [(2, 1, 1779033703), (3, 1, 3144134277), (5, 2, 1013904242), (7, 2, 2773480762),
     (11, 3, 1359893119), (13, 3, 2600822924), (17, 4, 528734635), (19, 4, 1541459225)]"

definition sha_K :: "32 word list" where
  "sha_K = map (\<lambda>(p, i, r). of_nat r) sha_K_table"

definition sha_H0 :: "32 word list" where
  "sha_H0 = map (\<lambda>(p, i, r). of_nat r) sha_H0_table"

definition root_table :: "nat \<Rightarrow> (nat \<times> nat \<times> nat) list \<Rightarrow> bool" where
  "root_table e = list_all (\<lambda>(p, i, r). r < 2 ^ 32 \<and>
     (i * 2 ^ 32 + r) ^ e \<le> p * 2 ^ (32 * e) \<and> p * 2 ^ (32 * e) < (i * 2 ^ 32 + r + 1) ^ e)"

lemma sha_K_roots: "root_table 3 sha_K_table"
  by (simp add: root_table_def sha_K_table_def)

lemma sha_H0_roots: "root_table 2 sha_H0_table"
  by (simp add: root_table_def sha_H0_table_def)

definition big_sigma0 :: "32 word \<Rightarrow> 32 word" where
  "big_sigma0 x = word_rotr 2 x XOR word_rotr 13 x XOR word_rotr 22 x"

definition big_sigma1 :: "32 word \<Rightarrow> 32 word" where
  "big_sigma1 x = word_rotr 6 x XOR word_rotr 11 x XOR word_rotr 25 x"

definition small_sigma0 :: "32 word \<Rightarrow> 32 word" where
  "small_sigma0 x = word_rotr 7 x XOR word_rotr 18 x XOR drop_bit 3 x"

definition small_sigma1 :: "32 word \<Rightarrow> 32 word" where
  "small_sigma1 x = word_rotr 17 x XOR word_rotr 19 x XOR drop_bit 10 x"

text \<open>Padding: a one bit, zeros, and the length in bits as a big-endian 64-bit number.\<close>

definition be_bytes64 :: "nat \<Rightarrow> 8 word list" where
  "be_bytes64 n = map (\<lambda>i. ucast (drop_bit (56 - 8 * i) (of_nat n :: 64 word))) [0..<8]"

definition sha_pad :: "8 word list \<Rightarrow> 8 word list" where
  "sha_pad m = m @ [0x80] @ replicate ((119 - length m mod 64) mod 64) 0 @ be_bytes64 (8 * length m)"

definition be_word :: "8 word list \<Rightarrow> 32 word" where
  "be_word bs = fold (\<lambda>b acc. push_bit 8 acc OR ucast b) bs 0"

fun blocks :: "nat \<Rightarrow> 8 word list \<Rightarrow> 8 word list list" where
  "blocks n [] = []"
| "blocks n (x # xs) = take (Suc n) (x # xs) # blocks n (drop n xs)"

definition schedule_step :: "32 word list \<Rightarrow> nat \<Rightarrow> 32 word list" where
  "schedule_step w t =
     w @ [small_sigma1 (w ! (t - 2)) + w ! (t - 7) + small_sigma0 (w ! (t - 15)) + w ! (t - 16)]"

definition schedule :: "8 word list \<Rightarrow> 32 word list" where
  "schedule block = foldl schedule_step (map be_word (blocks 3 block)) [16..<64]"

fun sha_round :: "32 word list \<Rightarrow> 32 word \<times> 32 word \<Rightarrow> 32 word list" where
  "sha_round [a, b, c, d, e, f, g, h] (k, w) =
     (let t1 = h + big_sigma1 e + ((e AND f) XOR (NOT e AND g)) + k + w;
          t2 = big_sigma0 a + ((a AND b) XOR (a AND c) XOR (b AND c))
      in [t1 + t2, a, b, c, d + t1, e, f, g])"
| "sha_round hs kw = hs"

definition compress :: "32 word list \<Rightarrow> 8 word list \<Rightarrow> 32 word list" where
  "compress hs block = map2 (+) hs (foldl sha_round hs (zip sha_K (schedule block)))"

definition word_bytes :: "32 word \<Rightarrow> 8 word list" where
  "word_bytes x = map (\<lambda>i. ucast (drop_bit (24 - 8 * i) x)) [0..<4]"

definition Sum256 :: "8 word list \<Rightarrow> 8 word list" where
  "Sum256 m = concat (map word_bytes (foldl compress sha_H0 (blocks 63 (sha_pad m))))"

lemma length_sha_round: "length hs = 8 \<Longrightarrow> length (sha_round hs kw) = 8"
  by (cases "(hs, kw)" rule: sha_round.cases) (auto simp: Let_def)

lemma length_foldl_sha_round: "length hs = 8 \<Longrightarrow> length (foldl sha_round hs kws) = 8"
  by (induction kws arbitrary: hs) (simp_all add: length_sha_round)

lemma length_compress: "length hs = 8 \<Longrightarrow> length (compress hs b) = 8"
  by (simp add: compress_def length_foldl_sha_round)

lemma length_foldl_compress: "length hs = 8 \<Longrightarrow> length (foldl compress hs bs) = 8"
  by (induction bs arbitrary: hs) (simp_all add: length_compress)

lemma length_concat_const: "\<forall>x \<in> set xs. length (f x) = n \<Longrightarrow> length (concat (map f xs)) = n * length xs"
  by (induction xs) simp_all

lemma length_Sum256 [simp]: "length (Sum256 m) = 32"
proof -
  have "length (foldl compress sha_H0 (blocks 63 (sha_pad m))) = 8"
    by (rule length_foldl_compress) (simp add: sha_H0_def sha_H0_table_def)
  then show ?thesis
    by (simp add: Sum256_def length_concat_const [where n = 4] word_bytes_def)
qed

end
