(* ===== verification/Names.thy ===== *)
theory Names
  imports Sha256 ApiTypes
begin

text \<open>
  The names of the external resources: a bucket alias is the name asked for with a suffix
  from the resource UID (\<open>suffixedResourceName\<close>, \<^verbatim>\<open>bucket_controller.go\<close>), an access key's
  name is its namespace, its name and such a suffix (\<open>namespacedResourceName\<close>,
  \<^verbatim>\<open>accesskey_controller.go\<close>).  The suffix is the first eight bytes of the SHA-256 of the
  UID in hexadecimal.
\<close>

definition uid_suffix :: "objmeta \<Rightarrow> string" where
  "uid_suffix m = format_x (take 8 (Sum256 (bytes_of (m_UID m))))"

definition suffixedResourceName :: "string \<Rightarrow> objmeta \<Rightarrow> string" where
  "suffixedResourceName name m = name @ ''-'' @ uid_suffix m"

definition namespacedResourceName :: "objmeta \<Rightarrow> string" where
  "namespacedResourceName m = m_Namespace m @ ''-'' @ m_Name m @ ''-'' @ uid_suffix m"

lemma length_uid_suffix [simp]: "length (uid_suffix m) = 16"
  by (simp add: uid_suffix_def)

definition is_hex_lower :: "char \<Rightarrow> bool" where
  "is_hex_lower c \<longleftrightarrow> (let n = of_char c :: nat in (48 \<le> n \<and> n \<le> 57) \<or> (97 \<le> n \<and> n \<le> 102))"

lemma hex_digit_lower: "n < 16 \<Longrightarrow> is_hex_lower (hex_digit n)"
  by (simp add: is_hex_lower_def hex_digit_def Let_def of_char_of)

lemma hex_byte_lower: "list_all is_hex_lower (hex_byte b)"
proof -
  have "unat b < 2 ^ LENGTH(8)" by (rule unsigned_less)
  then have "unat b < 256" by simp
  then have "unat b div 16 < 16" by auto
  then show ?thesis by (simp add: hex_byte_def hex_digit_lower)
qed

lemma uid_suffix_lower: "list_all is_hex_lower (uid_suffix m)"
  unfolding uid_suffix_def format_x_def
  by (rule list_all_iff [THEN iffD2]) (use hex_byte_lower in \<open>auto simp: list_all_iff\<close>)

text \<open>
  The alias of a new bucket keeps the 63-byte limit of S3 bucket names: under the CRD's
  bounds on \<open>spec.name\<close> (3 to 46 bytes) it has between 20 and 63 bytes, begins with the name
  asked for, and ends in a dash and sixteen lower-case hexadecimal digits.
\<close>

theorem suffixedResourceName_shape:
  assumes "BucketSpec_valid s" and "bs_Name s \<noteq> []"
  shows "20 \<le> length (suffixedResourceName (bs_Name s) m) \<and>
    length (suffixedResourceName (bs_Name s) m) \<le> 63 \<and>
    take (length (bs_Name s)) (suffixedResourceName (bs_Name s) m) = bs_Name s \<and>
    (\<exists>h. suffixedResourceName (bs_Name s) m = bs_Name s @ CHR ''-'' # h \<and> length h = 16 \<and>
       list_all is_hex_lower h)"
  using assms uid_suffix_lower [of m]
  by (auto simp: suffixedResourceName_def BucketSpec_valid_def)

theorem suffixedResourceName_shape_witness:
  "length (suffixedResourceName ''foo-global-name'' (new_meta ''bucket-sample'' ''default'')) \<le> 63"
  using suffixedResourceName_shape [of "\<lparr>bs_Name = ''foo-global-name'', bs_ExistingBucket = None,
      bs_MaxSize = ''2Gi'', bs_MaxObjects = 0, bs_ConfigMapName = []\<rparr>"
      "new_meta ''bucket-sample'' ''default''"]
  by (simp add: BucketSpec_valid_def)

text \<open>
  two buckets get the same alias only when they ask for the same name and their UIDs have
  the same hash suffix; with equal suffixes the alias is injective in the name.
\<close>

theorem suffixedResourceName_inj:
  "suffixedResourceName n m = suffixedResourceName n' m' \<longleftrightarrow>
     n = n' \<and> uid_suffix m = uid_suffix m'"
proof
  assume eq: "suffixedResourceName n m = suffixedResourceName n' m'"
  have "length n + 17 = length n' + 17"
    using arg_cong [OF eq, of length] by (simp add: suffixedResourceName_def)
  with eq show "n = n' \<and> uid_suffix m = uid_suffix m'"
    by (simp add: suffixedResourceName_def)
qed (simp add: suffixedResourceName_def)

text \<open>
  The name of an external access key determines the UID suffix, so the key another
  \<open>AccessKey\<close> owns is only ever looked up or adopted under a hash collision, whatever the
  namespaces and names are; the rest of the name is the namespace and the name joined by a dash.
\<close>

theorem namespacedResourceName_suffix:
  "namespacedResourceName m = namespacedResourceName m' \<longleftrightarrow>
     uid_suffix m = uid_suffix m' \<and>
     m_Namespace m @ ''-'' @ m_Name m = m_Namespace m' @ ''-'' @ m_Name m'"
proof
  assume eq: "namespacedResourceName m = namespacedResourceName m'"
  let ?p = "\<lambda>m. m_Namespace m @ ''-'' @ m_Name m"
  have eq': "?p m @ ''-'' @ uid_suffix m = ?p m' @ ''-'' @ uid_suffix m'"
    using eq by (simp add: namespacedResourceName_def)
  have "length (?p m) = length (?p m')"
    using arg_cong [OF eq', of length] by simp
  with eq' show "uid_suffix m = uid_suffix m' \<and> ?p m = ?p m'"
    by (metis append_eq_append_conv same_append_eq)
next
  assume "uid_suffix m = uid_suffix m' \<and>
     m_Namespace m @ ''-'' @ m_Name m = m_Namespace m' @ ''-'' @ m_Name m'"
  then show "namespacedResourceName m = namespacedResourceName m'"
    unfolding namespacedResourceName_def by (metis append.assoc)
qed

end
