(* ===== verification/BucketController.thy ===== *)
theory BucketController
  imports KubeClient Conditions Backoff Names
begin

text \<open>
  The Bucket reconciler (\<^verbatim>\<open>internal/controller/bucket_controller.go\<close>), function by function.
  The Go code mutates the bucket it was given; here every function returns it.  A function
  that returns \<open>(result, error)\<close> returns an \<open>outcome\<close>.  \<open>reconcileBucket\<close> is split after the
  bucket is resolved (\<open>configureBucket\<close>) and after its quotas are right (\<open>publishBucket\<close>), at
  the statements where the code falls through.
\<close>

definition configMapKeyBucketName :: string where "configMapKeyBucketName = ''bucket-name''"
definition configMapKeyEndpoint :: string where "configMapKeyEndpoint = ''s3-endpoint''"
definition labelBucketName :: string where "labelBucketName = ''garage.getclustered.net/bucket''"

record 's BucketReconciler =
  bucket_Create :: "string \<Rightarrow> 's \<Rightarrow> (error + s3_bucket) \<times> 's"
  bucket_Get :: "string \<Rightarrow> 's \<Rightarrow> (error + s3_bucket) \<times> 's"
  bucket_Update :: "string \<Rightarrow> s3_quotas \<Rightarrow> 's \<Rightarrow> error option \<times> 's"
  ownership_GetPermissions :: "string \<Rightarrow> string \<Rightarrow> 's \<Rightarrow> (error + s3_permissions) \<times> 's"
  s3APIEndpoint :: string
  baseInterval :: int64

definition NewBucketReconciler ::
  "(string \<Rightarrow> 's \<Rightarrow> (error + s3_bucket) \<times> 's) \<Rightarrow> (string \<Rightarrow> 's \<Rightarrow> (error + s3_bucket) \<times> 's) \<Rightarrow>
   (string \<Rightarrow> s3_quotas \<Rightarrow> 's \<Rightarrow> error option \<times> 's) \<Rightarrow> string \<Rightarrow>
   (string \<Rightarrow> string \<Rightarrow> 's \<Rightarrow> (error + s3_permissions) \<times> 's) \<Rightarrow> 's BucketReconciler" where
  "NewBucketReconciler create get upd endpoint getPermissions =
     \<lparr>bucket_Create = create, bucket_Get = get, bucket_Update = upd,
      ownership_GetPermissions = getPermissions, s3APIEndpoint = endpoint,
      baseInterval = baseRequeueInterval\<rparr>"

text \<open>\<open>For(&Bucket{})\<close>: only the change of a bucket queues a request, the one for itself.\<close>

definition BucketReconciler_SetupWithManager :: "object_change \<Rightarrow> nsname list" where
  "BucketReconciler_SetupWithManager ch = (case ch of
     BucketChanged b \<Rightarrow> [own_request (b_Meta b)] | _ \<Rightarrow> [])"

definition single_quoted :: "string \<Rightarrow> string" where
  "single_quoted s = [CHR 0x27] @ s @ [CHR 0x27]"

section \<open>Resolving the bucket\<close>

definition resolveNewBucket ::
  "lib \<Rightarrow> 's BucketReconciler \<Rightarrow> Bucket \<Rightarrow>
     ('s cworld, Bucket \<times> (error + s3_bucket \<times> string)) state" where
  "resolveNewBucket L R b = do {
     let alias = suffixedResourceName (bs_Name (b_Spec b)) (b_Meta b);
     r \<leftarrow> call (bucket_Get R alias) (BucketGet alias);
     (case r of
        Inr s3Bucket \<Rightarrow> State_Monad.return (b, Inr (s3Bucket, alias))
      | Inl err \<Rightarrow>
          if errors_Is err ErrResourceNotFound then do {
            r' \<leftarrow> call (bucket_Create R alias) (BucketCreate alias);
            (case r' of
               Inl err' \<Rightarrow> do {
                 _ \<leftarrow> emit (Eventf EventTypeWarning ReasonBucketCreateFailed
                        (''Failed to create Garage bucket '' @ quote alias @ '': '' @ errmsg err'));
                 State_Monad.return
                   (markBucketNotReady L b ''CreateFailed''
                      (''Failed to create bucket '' @ single_quoted alias @ '': '' @ errmsg err'),
                    Inl (wrap ''create new bucket: '' err'))
               }
             | Inr s3Bucket \<Rightarrow> do {
                 _ \<leftarrow> emit (Eventf EventTypeNormal ReasonBucketCreated
                        (''Created Garage bucket '' @ quote alias));
                 State_Monad.return (b, Inr (s3Bucket, alias))
               })
          }
          else State_Monad.return
            (markBucketNotReady L b ''UnknownState'' (''S3 API error: '' @ errmsg err),
             Inl (wrap ''retrieving existing bucket: '' err)))
   }"

definition verifyOwnership ::
  "lib \<Rightarrow> 's BucketReconciler \<Rightarrow> Bucket \<Rightarrow> string \<Rightarrow> string \<Rightarrow>
     ('s cworld, Bucket \<times> (error + s3_bucket \<times> string)) state" where
  "verifyOwnership L R b name keyID = do {
     r \<leftarrow> call (bucket_Get R name) (BucketGet name);
     (case r of
        Inl err \<Rightarrow> State_Monad.return
          (markBucketNotReady L b ''BucketNotFound''
             (''Bucket '' @ quote name @ '' not found in Garage: '' @ errmsg err),
           Inl (wrap ''get existing bucket: '' err))
      | Inr s3Bucket \<Rightarrow> do {
          perms \<leftarrow> call (ownership_GetPermissions R keyID (sb_ID s3Bucket))
                     (OwnershipGet keyID (sb_ID s3Bucket));
          (case perms of
             Inl err \<Rightarrow> State_Monad.return
               (markBucketNotReady L b ReasonOwnershipVerificationFailed
                  (''Failed to verify ownership: '' @ errmsg err),
                Inl (wrap ''verify ownership: '' err))
           | Inr p \<Rightarrow>
               if \<not> p_Owner p then State_Monad.return
                 (markBucketNotReady L b ReasonOwnershipVerificationFailed
                    (''Key '' @ quote keyID @ '' does not have owner permission on bucket '' @ quote name),
                  Inl (ErrorString ''ownership check failed: key does not have owner permission''))
               else State_Monad.return (b, Inr (s3Bucket, name)))
        })
   }"

definition resolveExistingBucket ::
  "lib \<Rightarrow> 's kube \<Rightarrow> 's BucketReconciler \<Rightarrow> ExistingBucketSpec \<Rightarrow> Bucket \<Rightarrow>
     ('s cworld, Bucket \<times> (error + s3_bucket \<times> string)) state" where
  "resolveExistingBucket L K R spec b = do {
     let ns = m_Namespace (b_Meta b);
     r \<leftarrow> call (kGetSecret K (ns, eb_OwnerKeySecret spec)) (GetSecret (ns, eb_OwnerKeySecret spec));
     (case r of
        Inl err \<Rightarrow>
          if IsForbidden L err then do {
            _ \<leftarrow> emit (Eventf EventTypeWarning ReasonSecretAccessForbidden
                   (access_message ''Secrets'' ns err @ ''. '' @ rbacRemedyMsg));
            State_Monad.return
              (markBucketNotReady L b ReasonSecretAccessForbidden
                 (''Cannot access Secret '' @ quote (eb_OwnerKeySecret spec) @ '': '' @ errmsg err),
               Inl (wrap ''get owner key secret: '' err))
          }
          else State_Monad.return
            (markBucketNotReady L b ReasonOwnerKeySecretNotFound
               (''Secret '' @ quote (eb_OwnerKeySecret spec) @ '' not found: '' @ errmsg err),
             Inl (wrap ''get owner key secret: '' err))
      | Inr sec \<Rightarrow>
          verifyOwnership L R b (eb_Name spec) (map_get (s_Data sec) SecretKeyAccessKeyID))
   }"

section \<open>The ConfigMap\<close>

definition desiredConfigMapName :: "Bucket \<Rightarrow> string" where
  "desiredConfigMapName b =
     (if bs_ConfigMapName (b_Spec b) = [] then m_Name (b_Meta b) else bs_ConfigMapName (b_Spec b))"

text \<open>The function \<open>CreateOrUpdate\<close> is given; \<open>cm\<close> is the object as it stands when called.\<close>

definition configMapMutate :: "lib \<Rightarrow> Bucket \<Rightarrow> string \<Rightarrow> configmap \<Rightarrow> error + configmap" where
  "configMapMutate L b endpoint cm =
     (if m_UID (cm_Meta cm) \<noteq> [] \<and> \<not> IsControlledBy L (cm_Meta cm) (b_Meta b)
      then Inl (wrap (''conflict for ConfigMap '' @ m_Namespace (cm_Meta cm) @ ''/'' @
             m_Name (cm_Meta cm) @ '': resource already exists and is not owned by Bucket '' @
             m_Name (b_Meta b) @ '': '') (Sentinel errNameConflict))
      else case SetControllerReference L (b_Meta b) (cm_Meta cm) of
        Inl err \<Rightarrow> Inl err
      | Inr m \<Rightarrow> Inr (cm\<lparr>
          cm_Meta := m\<lparr>m_Labels := Some ((case m_Labels m of None \<Rightarrow> Map.empty | Some ls \<Rightarrow> ls)
                          (labelBucketName \<mapsto> m_Name (b_Meta b)))\<rparr>,
          cm_Data := [configMapKeyBucketName \<mapsto> bst_BucketName (b_Status b),
                      configMapKeyEndpoint \<mapsto> endpoint]\<rparr>))"

definition ensureConfigMap ::
  "lib \<Rightarrow> 's kube \<Rightarrow> Bucket \<Rightarrow> string \<Rightarrow> ('s cworld, error option) state" where
  "ensureConfigMap L K b endpoint = do {
     let cm = \<lparr>cm_Meta = new_meta (desiredConfigMapName b) (m_Namespace (b_Meta b)),
               cm_Data = Map.empty\<rparr>;
     r \<leftarrow> call (kCreateOrUpdateConfigMap K cm (configMapMutate L b endpoint))
            (CreateOrUpdateConfigMap cm);
     State_Monad.return (snd r)
   }"

fun deleteStaleLoop ::
  "lib \<Rightarrow> 's kube \<Rightarrow> Bucket \<Rightarrow> string \<Rightarrow> configmap list \<Rightarrow> ('s cworld, error option) state" where
  "deleteStaleLoop L K b desiredName [] = State_Monad.return None"
| "deleteStaleLoop L K b desiredName (cm # cms) =
     (if m_Name (cm_Meta cm) \<noteq> desiredName \<and> IsControlledBy L (cm_Meta cm) (b_Meta b) then do {
        err \<leftarrow> call (kDeleteConfigMap K cm) (DeleteConfigMap cm);
        (case err of
           None \<Rightarrow> deleteStaleLoop L K b desiredName cms
         | Some e \<Rightarrow>
             if \<not> IsNotFound L e
             then State_Monad.return
               (Some (wrap (''deleting stale configmap '' @ m_Name (cm_Meta cm) @ '': '') e))
             else deleteStaleLoop L K b desiredName cms)
      }
      else deleteStaleLoop L K b desiredName cms)"

definition deleteStaleConfigMap ::
  "lib \<Rightarrow> 's kube \<Rightarrow> Bucket \<Rightarrow> ('s cworld, error option) state" where
  "deleteStaleConfigMap L K b = do {
     let sel = (labelBucketName, m_Name (b_Meta b));
     r \<leftarrow> call (kListConfigMaps K (m_Namespace (b_Meta b)) sel)
            (ListConfigMaps (m_Namespace (b_Meta b)) sel);
     (case r of
        Inl err \<Rightarrow> State_Monad.return (Some (wrap ''retrieving ConfigMaps by Bucket label: '' err))
      | Inr items \<Rightarrow> deleteStaleLoop L K b (desiredConfigMapName b) items)
   }"

section \<open>Reconciling\<close>

definition compareSpec :: "lib \<Rightarrow> s3_bucket \<Rightarrow> BucketSpec \<Rightarrow> bool" where
  "compareSpec L bucket spec \<longleftrightarrow>
     q_MaxObjects (sb_Quotas bucket) \<noteq> bs_MaxObjects spec \<or>
     q_MaxSize (sb_Quotas bucket) \<noteq> QuantityValue L (bs_MaxSize spec)"

definition spec_quotas :: "lib \<Rightarrow> BucketSpec \<Rightarrow> s3_quotas" where
  "spec_quotas L spec =
     \<lparr>q_MaxObjects = bs_MaxObjects spec, q_MaxSize = QuantityValue L (bs_MaxSize spec)\<rparr>"

definition publishBucket ::
  "lib \<Rightarrow> 's kube \<Rightarrow> 's BucketReconciler \<Rightarrow> Bucket \<Rightarrow> ('s cworld, Bucket \<times> outcome) state" where
  "publishBucket L K R b = do {
     let b = markBucketReady L b;
     let ns = m_Namespace (b_Meta b);
     err \<leftarrow> ensureConfigMap L K b (s3APIEndpoint R);
     (case err of
        Some e \<Rightarrow>
          if errors_Is e errNameConflict then State_Monad.return
            (updateBucketCMCondition L b ConditionFalse ReasonConfigMapNameConflict
               (''Unable to use existing ConfigMap for bucket details: '' @ errmsg e),
             Returned no_requeue None)
          else if IsForbidden L e then do {
            _ \<leftarrow> emit (Eventf EventTypeWarning ReasonConfigMapAccessForbidden
                   (access_message ''ConfigMaps'' ns e @ ''. '' @ rbacRemedyMsg));
            State_Monad.return
              (updateBucketCMCondition L b ConditionFalse ReasonConfigMapAccessForbidden
                 (access_message ''ConfigMaps'' ns e),
               Returned no_requeue (Some e))
          }
          else State_Monad.return
            (updateBucketCMCondition L b ConditionFalse ReasonConfigMapCreateError
               (''Unable to create ConfigMap: '' @ errmsg e),
             Returned no_requeue (Some e))
      | None \<Rightarrow> do {
          let b = updateBucketCMCondition L b ConditionTrue ''ConfigMapReady''
                    ''ConfigMap with external bucket details is ready'';
          err' \<leftarrow> deleteStaleConfigMap L K b;
          State_Monad.return (b, Returned no_requeue err')
        })
   }"

definition configureBucket ::
  "lib \<Rightarrow> 's kube \<Rightarrow> 's BucketReconciler \<Rightarrow> Bucket \<Rightarrow> s3_bucket \<Rightarrow> string \<Rightarrow>
     ('s cworld, Bucket \<times> outcome) state" where
  "configureBucket L K R b s3Bucket alias = do {
     let b = (if bst_BucketID (b_Status b) = []
              then b\<lparr>b_Status := (b_Status b)\<lparr>bst_BucketID := sb_ID s3Bucket\<rparr>\<rparr> else b);
     let b = (if bst_BucketName (b_Status b) = []
              then b\<lparr>b_Status := (b_Status b)\<lparr>bst_BucketName := alias\<rparr>\<rparr> else b);
     (if compareSpec L s3Bucket (b_Spec b) then do {
        let q = spec_quotas L (b_Spec b);
        err \<leftarrow> call (bucket_Update R (sb_ID s3Bucket) q) (BucketUpdate (sb_ID s3Bucket) q);
        (case err of
           Some e \<Rightarrow> State_Monad.return
             (markBucketNotReady L b ''Update Failed''
                (''Failed to update bucket configuration: '' @ errmsg e),
              Returned no_requeue (Some (wrap ''updating external bucket to spec: '' e)))
         | None \<Rightarrow> publishBucket L K R b)
      }
      else publishBucket L K R b)
   }"

definition reconcileBucket ::
  "lib \<Rightarrow> 's kube \<Rightarrow> 's BucketReconciler \<Rightarrow> Bucket \<Rightarrow> ('s cworld, Bucket \<times> outcome) state" where
  "reconcileBucket L K R b =
     (case bs_ExistingBucket (b_Spec b) of
        Some spec \<Rightarrow> do {
          (b, r) \<leftarrow> resolveExistingBucket L K R spec b;
          (case r of
             Inl err \<Rightarrow> do {
               age \<leftarrow> observe (clockSince K (m_CreationTimestamp (b_Meta b)));
               State_Monad.return (b,
                 case ownerSecretBackoff age (baseInterval R) maxRequeueInterval of
                   None \<Rightarrow> Panicked
                 | Some d \<Rightarrow> Returned \<lparr>RequeueAfter = d\<rparr> None)
             }
           | Inr (s3Bucket, alias) \<Rightarrow> configureBucket L K R b s3Bucket alias)
        }
      | None \<Rightarrow> do {
          (b, r) \<leftarrow> resolveNewBucket L R b;
          (case r of
             Inl err \<Rightarrow> State_Monad.return (b, Returned no_requeue (Some err))
           | Inr (s3Bucket, alias) \<Rightarrow> configureBucket L K R b s3Bucket alias)
        })"

definition finishBucket ::
  "lib \<Rightarrow> 's kube \<Rightarrow> BucketStatus \<Rightarrow> Bucket \<Rightarrow> ctrl_result \<Rightarrow> error option \<Rightarrow>
     ('s cworld, outcome) state" where
  "finishBucket L K orig b result err = do {
     let b = updateBucketReadyCondition L b;
     (if \<not> BucketStatusEqual K orig (b_Status b) then do {
        patchErr \<leftarrow> call (kPatchBucketStatus K b) (PatchBucketStatus b);
        State_Monad.return (case patchErr of
          Some e \<Rightarrow>
            if IsConflict L e then Returned no_requeue None
            else if err = None then Returned no_requeue (Some e)
            else Returned result err
        | None \<Rightarrow> Returned result err)
      }
      else State_Monad.return (Returned result err))
   }"

definition BucketReconciler_Reconcile ::
  "lib \<Rightarrow> 's kube \<Rightarrow> 's BucketReconciler \<Rightarrow> nsname \<Rightarrow> ('s cworld, outcome) state" where
  "BucketReconciler_Reconcile L K R req = do {
     r \<leftarrow> call (kGetBucket K req) (GetBucket req);
     (case r of
        Inl err \<Rightarrow> State_Monad.return
          (if IsNotFound L err then Returned no_requeue None else Returned no_requeue (Some err))
      | Inr bucket \<Rightarrow> do {
          let orig = b_Status bucket;
          (b, out) \<leftarrow> reconcileBucket L K R (initializeBucketConditions L bucket);
          (case out of
             Panicked \<Rightarrow> State_Monad.return Panicked
           | Returned result err \<Rightarrow> finishBucket L K orig b result err)
        })
   }"

end
