(* ===== verification/ReadySummary.thy ===== *)
theory ReadySummary
  imports Conditions
begin

text \<open>
  The contract the three resources share for their top-level \<open>Ready\<close> condition: a reference
  \<open>summary\<close> of the resource's partial conditions, the locale \<open>conditioned_resource\<close> that states
  what \<open>initialize\<close> and \<open>summarise\<close> promise in its terms, and its interpretation for
  \<open>Bucket\<close>, \<open>AccessKey\<close> and \<open>AccessPolicy\<close>, which shows that the three hand-written switches
  of the code compute that summary.
\<close>

definition summary ::
  "(cond_status \<times> string \<times> string) list \<Rightarrow> string \<times> string \<Rightarrow> cond_status \<times> string \<times> string" where
  "summary parts waiting =
     (if list_all (\<lambda>(s, r, m). s = ConditionTrue) parts
      then (ConditionTrue, defaultReadyReason, defaultReadyMessage)
      else case List.find (\<lambda>(s, r, m). s = ConditionFalse) parts of
             Some p \<Rightarrow> p
           | None \<Rightarrow> (ConditionFalse, waiting))"

text \<open>The partial conditions of a set, in order of priority, each with the decoration the
  resource puts on its message.\<close>

definition part_view ::
  "lib \<Rightarrow> condition list \<Rightarrow> string \<times> (string \<Rightarrow> string) \<Rightarrow> (cond_status \<times> string \<times> string) list" where
  "part_view L cs p = (case cond_view L cs (fst p) of
     None \<Rightarrow> [] | Some (s, r, m, g) \<Rightarrow> [(s, r, snd p m)])"

definition part_views ::
  "lib \<Rightarrow> condition list \<Rightarrow> (string \<times> (string \<Rightarrow> string)) list \<Rightarrow>
     (cond_status \<times> string \<times> string) list" where
  "part_views L cs ps = concat (map (part_view L cs) ps)"

lemma summary_true:
  "fst (summary ps w) = ConditionTrue \<longleftrightarrow> (\<forall>p \<in> set ps. fst p = ConditionTrue)"
proof -
  have "List.find (\<lambda>(s, r, m). s = ConditionFalse) ps = Some p \<Longrightarrow> fst p = ConditionFalse" for p
    by (auto simp: find_Some_iff)
  then have "fst (summary ps w) = ConditionTrue \<longleftrightarrow> list_all (\<lambda>(s, r, m). s = ConditionTrue) ps"
    by (auto simp: summary_def split: option.splits)
  then show ?thesis by (simp add: list_all_iff case_prod_beta)
qed

lemma summary_not_unknown: "fst (summary ps w) \<noteq> ConditionUnknown"
proof -
  have "List.find (\<lambda>(s, r, m). s = ConditionFalse) ps = Some p \<Longrightarrow> fst p = ConditionFalse" for p
    by (auto simp: find_Some_iff)
  then show ?thesis
    by (auto simp: summary_def split: option.splits)
qed

lemma part_views_all_true:
  assumes "\<forall>t \<in> fst ` set ps. FindStatusCondition L cs t \<noteq> None"
  shows "(\<forall>p \<in> set (part_views L cs ps). fst p = ConditionTrue) \<longleftrightarrow>
    (\<forall>t \<in> fst ` set ps. cond_stat L cs t = Some ConditionTrue)"
  using assms
  by (fastforce simp: part_views_def part_view_def cond_stat_view find_None_view
      split: option.splits)

lemma summary_reason:
  assumes "\<forall>p \<in> set ps. reason_valid (fst (snd p))" and "reason_valid (fst w)"
  shows "reason_valid (fst (snd (summary ps w)))"
proof -
  have "reason_valid defaultReadyReason" by code_simp
  moreover have "p \<in> set ps" if "List.find P ps = Some p" for P p
    using that by (auto simp: find_Some_iff)
  ultimately show ?thesis
    using assms by (auto simp: summary_def split: option.splits)
qed

lemma part_views_reason:
  assumes "\<forall>t \<in> fst ` set ps. reason_ok (cond_view L cs t)" and "p \<in> set (part_views L cs ps)"
  shows "reason_valid (fst (snd p))"
proof -
  from assms(2) obtain q where q: "q \<in> set ps" and p: "p \<in> set (part_view L cs q)"
    by (auto simp: part_views_def)
  from assms(1) q have "reason_ok (cond_view L cs (fst q))" by blast
  with p show ?thesis by (auto simp: part_view_def reason_ok_def split: option.splits)
qed

locale conditioned_resource =
  fixes conds :: "'o \<Rightarrow> condition list"
    and gen :: "'o \<Rightarrow> int64"
    and observed :: "'o \<Rightarrow> int64"
    and initialize :: "lib \<Rightarrow> 'o \<Rightarrow> 'o"
    and summarise :: "lib \<Rightarrow> 'o \<Rightarrow> 'o option"
    and types :: "string list"
    and parts :: "(string \<times> (string \<Rightarrow> string)) list"
    and waiting :: "string \<times> string"
    and settled :: "cond_status \<times> string \<times> string \<Rightarrow> bool"
  assumes types_cover: "set types = insert Ready (fst ` set parts)"
    and ready_no_part: "Ready \<notin> fst ` set parts"
    and initialize_conds:
      "conds (initialize L x) = initResourceConditions L types (conds x)"
    and initialize_gen: "gen (initialize L x) = gen x"
    and summarise_spec:
      "cond_laws L \<Longrightarrow> \<forall>t \<in> fst ` set parts. FindStatusCondition L (conds x) t \<noteq> None \<Longrightarrow>
       \<exists>y. summarise L x = Some y \<and> gen y = gen x \<and>
         (\<forall>t. cond_view L (conds y) t =
            (if t = Ready
             then Some (case summary (part_views L (conds x) parts) waiting of
                          (s, r, m) \<Rightarrow> (s, r, m, gen x))
             else cond_view L (conds x) t)) \<and>
         observed y = (if settled (summary (part_views L (conds x) parts) waiting)
                       then gen x else observed x)"
begin

lemma initialized_parts:
  "cond_laws L \<Longrightarrow> t \<in> fst ` set parts \<Longrightarrow>
     FindStatusCondition L (conds (initialize L x)) t \<noteq> None"
  unfolding initialize_conds by (rule init_find_present) (simp_all add: types_cover)

lemma no_panic_after_init:
  "cond_laws L \<Longrightarrow> \<exists>y. summarise L (initialize L x) = Some y"
  using summarise_spec [of L "initialize L x"] initialized_parts [of L] by blast

lemma ready_iff:
  assumes L: "cond_laws L"
    and present: "\<forall>t \<in> fst ` set parts. FindStatusCondition L (conds x) t \<noteq> None"
    and y: "summarise L x = Some y"
  shows "cond_stat L (conds y) Ready = Some ConditionTrue \<longleftrightarrow>
    (\<forall>t \<in> fst ` set parts. cond_stat L (conds x) t = Some ConditionTrue)"
proof -
  let ?s = "summary (part_views L (conds x) parts) waiting"
  from summarise_spec [OF L present] y
  have "cond_view L (conds y) Ready = Some (case ?s of (s, r, m) \<Rightarrow> (s, r, m, gen x))"
    by auto
  then have "cond_stat L (conds y) Ready = Some (fst ?s)"
    by (simp add: cond_stat_view split: prod.splits)
  then show ?thesis
    using part_views_all_true [OF present] by (simp add: summary_true)
qed

lemma frame:
  assumes "cond_laws L" "\<forall>t \<in> fst ` set parts. FindStatusCondition L (conds x) t \<noteq> None"
    and "summarise L x = Some y" "t \<noteq> Ready"
  shows "cond_view L (conds y) t = cond_view L (conds x) t"
  using summarise_spec [OF assms(1,2)] assms(3,4) by auto

lemma part_views_frame:
  assumes "\<And>t. t \<noteq> Ready \<Longrightarrow> cond_view L cs t = cond_view L cs' t"
  shows "part_views L cs parts = part_views L cs' parts"
proof -
  have "part_view L cs p = part_view L cs' p" if "p \<in> set parts" for p
  proof -
    from that ready_no_part have "fst p \<noteq> Ready" by force
    with assms show ?thesis by (simp add: part_view_def)
  qed
  then show ?thesis
    unfolding part_views_def by (metis (mono_tags, lifting) map_eq_conv)
qed

text \<open>Summarising again changes nothing that is read.\<close>

lemma idempotent:
  assumes L: "cond_laws L"
    and present: "\<forall>t \<in> fst ` set parts. FindStatusCondition L (conds x) t \<noteq> None"
    and y: "summarise L x = Some y" and z: "summarise L y = Some z"
  shows "cond_view L (conds z) = cond_view L (conds y)" and "observed z = observed y"
proof -
  have fr: "\<And>t. t \<noteq> Ready \<Longrightarrow> cond_view L (conds y) t = cond_view L (conds x) t"
    using frame [OF L present y] .
  then have pv: "part_views L (conds y) parts = part_views L (conds x) parts"
    by (rule part_views_frame)
  have py: "\<forall>t \<in> fst ` set parts. FindStatusCondition L (conds y) t \<noteq> None"
    using present fr ready_no_part by (metis find_None_view)
  note sx = summarise_spec [OF L present] and sy = summarise_spec [OF L py]
  show "cond_view L (conds z) = cond_view L (conds y)"
    using sx sy y z pv by (intro ext) auto
  show "observed z = observed y"
    using sx sy y z pv by auto
qed

end

section \<open>The three resources\<close>

text \<open>
  For each resource: the code's switch is an assignment of the summary to the \<open>Ready\<close>
  condition, then the interpretation of the locale.
\<close>

lemma cond_view_SomeE:
  assumes "FindStatusCondition L cs t \<noteq> None"
  obtains c where "FindStatusCondition L cs t = Some c"
    and "part_view L cs (t, d) = [(c_Status c, c_Reason c, d (c_Message c))]"
  using assms by (auto simp: part_view_def cond_view_def view_of_def)

lemma part_views_Cons: "part_views L cs (p # ps) = part_view L cs p @ part_views L cs ps"
  by (simp add: part_views_def)

lemma part_views_Nil [simp]: "part_views L cs [] = []"
  by (simp add: part_views_def)

definition bucket_parts :: "(string \<times> (string \<Rightarrow> string)) list" where
  "bucket_parts = [(BucketReady, \<lambda>m. m), (BucketConfigMapReady, \<lambda>m. m)]"

definition bucket_waiting :: "string \<times> string" where
  "bucket_waiting = (''WaitingForBucket'', ''Waiting for '' @ BucketReady)"

definition set_ready_bucket :: "lib \<Rightarrow> cond_status \<times> string \<times> string \<Rightarrow> Bucket \<Rightarrow> Bucket" where
  "set_ready_bucket L s b =
    (let b' = b_set_conditions (SetStatusCondition L (b_Conditions b)
         (mk_condition Ready (fst s) (fst (snd s)) (snd (snd s)) (b_Generation b))) b
     in if fst s = ConditionTrue
        then b'\<lparr>b_Status := (b_Status b')\<lparr>bst_ObservedGeneration := b_Generation b'\<rparr>\<rparr> else b')"

lemma updateBucketReady_summary:
  assumes "\<forall>t \<in> fst ` set bucket_parts. FindStatusCondition L (b_Conditions b) t \<noteq> None"
  shows "updateBucketReadyCondition L b =
    set_ready_bucket L (summary (part_views L (b_Conditions b) bucket_parts) bucket_waiting) b"
proof -
  from assms have p: "FindStatusCondition L (b_Conditions b) BucketReady \<noteq> None"
    "FindStatusCondition L (b_Conditions b) BucketConfigMapReady \<noteq> None"
    by (simp_all add: bucket_parts_def)
  from cond_view_SomeE [OF p(1), where d = "\<lambda>m. m"] obtain c1 where
    c1: "FindStatusCondition L (b_Conditions b) BucketReady = Some c1"
    "part_view L (b_Conditions b) (BucketReady, \<lambda>m. m) = [(c_Status c1, c_Reason c1, c_Message c1)]" .
  from cond_view_SomeE [OF p(2), where d = "\<lambda>m. m"] obtain c2 where
    c2: "FindStatusCondition L (b_Conditions b) BucketConfigMapReady = Some c2"
    "part_view L (b_Conditions b) (BucketConfigMapReady, \<lambda>m. m) =
       [(c_Status c2, c_Reason c2, c_Message c2)]" .
  show ?thesis
    by (cases "c_Status c1"; cases "c_Status c2")
      (simp_all add: updateBucketReadyCondition_def set_ready_bucket_def bucket_parts_def
        part_views_Cons c1 c2 summary_def bucket_waiting_def Let_def)
qed

lemma set_ready_bucket_simps:
  assumes "cond_laws L"
  shows "cond_view L (b_Conditions (set_ready_bucket L s b)) t =
      (if t = Ready then Some (case s of (st, r, m) \<Rightarrow> (st, r, m, b_Generation b))
       else cond_view L (b_Conditions b) t)"
    and "bst_ObservedGeneration (b_Status (set_ready_bucket L s b)) =
      (if fst s = ConditionTrue then b_Generation b else bst_ObservedGeneration (b_Status b))"
    and "b_Meta (set_ready_bucket L s b) = b_Meta b"
    and "b_Spec (set_ready_bucket L s b) = b_Spec b"
    and "bst_BucketID (b_Status (set_ready_bucket L s b)) = bst_BucketID (b_Status b)"
    and "bst_BucketName (b_Status (set_ready_bucket L s b)) = bst_BucketName (b_Status b)"
  by (simp_all add: set_ready_bucket_def Let_def cond_view_set [OF assms] split: prod.splits)

interpretation bucket_cond: conditioned_resource
  b_Conditions b_Generation "\<lambda>b. bst_ObservedGeneration (b_Status b)"
  initializeBucketConditions "\<lambda>L b. Some (updateBucketReadyCondition L b)"
  "[Ready, BucketReady, BucketConfigMapReady]" bucket_parts bucket_waiting
  "\<lambda>s. fst s = ConditionTrue"
  by unfold_locales
    (auto simp: bucket_parts_def initializeBucketConditions_def updateBucketReady_summary
      set_ready_bucket_simps)

definition access_key_parts :: "(string \<times> (string \<Rightarrow> string)) list" where
  "access_key_parts = [(AccessKeyReady, \<lambda>m. m), (KeySecretReady, \<lambda>m. m)]"

definition access_key_waiting :: "string \<times> string" where
  "access_key_waiting = (''WaitingForResources'',
     ''Waiting for conditions '' @ AccessKeyReady @ '' and '' @ KeySecretReady)"

definition access_key_settled :: "cond_status \<times> string \<times> string \<Rightarrow> bool" where
  "access_key_settled s \<longleftrightarrow> fst s = ConditionTrue \<or> isPermanentFailure (fst (snd s))"

definition set_ready_access_key ::
  "lib \<Rightarrow> cond_status \<times> string \<times> string \<Rightarrow> AccessKey \<Rightarrow> AccessKey" where
  "set_ready_access_key L s k =
    (let k' = k_set_conditions (SetStatusCondition L (k_Conditions k)
         (mk_condition Ready (fst s) (fst (snd s)) (snd (snd s)) (k_Generation k))) k
     in if access_key_settled s
        then k'\<lparr>k_Status := (k_Status k')\<lparr>kst_ObservedGeneration := k_Generation k'\<rparr>\<rparr> else k')"

lemma updateAccessKey_summary:
  assumes "\<forall>t \<in> fst ` set access_key_parts. FindStatusCondition L (k_Conditions k) t \<noteq> None"
  shows "updateAccessKeyCondition L k = Some (set_ready_access_key L
    (summary (part_views L (k_Conditions k) access_key_parts) access_key_waiting) k)"
proof -
  from assms have p: "FindStatusCondition L (k_Conditions k) AccessKeyReady \<noteq> None"
    "FindStatusCondition L (k_Conditions k) KeySecretReady \<noteq> None"
    by (simp_all add: access_key_parts_def)
  from cond_view_SomeE [OF p(1), where d = "\<lambda>m. m"] obtain c1 where
    c1: "FindStatusCondition L (k_Conditions k) AccessKeyReady = Some c1"
    "part_view L (k_Conditions k) (AccessKeyReady, \<lambda>m. m) =
       [(c_Status c1, c_Reason c1, c_Message c1)]" .
  from cond_view_SomeE [OF p(2), where d = "\<lambda>m. m"] obtain c2 where
    c2: "FindStatusCondition L (k_Conditions k) KeySecretReady = Some c2"
    "part_view L (k_Conditions k) (KeySecretReady, \<lambda>m. m) =
       [(c_Status c2, c_Reason c2, c_Message c2)]" .
  show ?thesis
    by (cases "c_Status c1"; cases "c_Status c2")
      (simp_all add: updateAccessKeyCondition_def set_ready_access_key_def access_key_parts_def
        part_views_Cons c1 c2 summary_def access_key_waiting_def access_key_settled_def Let_def)
qed

lemma set_ready_access_key_simps:
  assumes "cond_laws L"
  shows "cond_view L (k_Conditions (set_ready_access_key L s k)) t =
      (if t = Ready then Some (case s of (st, r, m) \<Rightarrow> (st, r, m, k_Generation k))
       else cond_view L (k_Conditions k) t)"
    and "kst_ObservedGeneration (k_Status (set_ready_access_key L s k)) =
      (if access_key_settled s then k_Generation k else kst_ObservedGeneration (k_Status k))"
    and "k_Meta (set_ready_access_key L s k) = k_Meta k"
    and "k_Spec (set_ready_access_key L s k) = k_Spec k"
    and "kst_AccessKeyID (k_Status (set_ready_access_key L s k)) = kst_AccessKeyID (k_Status k)"
    and "kst_SecretName (k_Status (set_ready_access_key L s k)) = kst_SecretName (k_Status k)"
  by (simp_all add: set_ready_access_key_def Let_def cond_view_set [OF assms] split: prod.splits)

interpretation access_key_cond: conditioned_resource
  k_Conditions k_Generation "\<lambda>k. kst_ObservedGeneration (k_Status k)"
  InitializeConditions updateAccessKeyCondition
  "[Ready, AccessKeyReady, KeySecretReady]" access_key_parts access_key_waiting access_key_settled
  by unfold_locales
    (auto simp: access_key_parts_def InitializeConditions_def updateAccessKey_summary
      set_ready_access_key_simps)

definition policy_parts :: "(string \<times> (string \<Rightarrow> string)) list" where
  "policy_parts =
     [(PolicyBucketReady, \<lambda>m. ''Bucket not ready: '' @ m),
      (PolicyAccessKeyReady, \<lambda>m. ''Access key not ready: '' @ m),
      (PolicyAssignmentReady, \<lambda>m. ''Policy assignment failed: '' @ m)]"

definition policy_waiting :: "string \<times> string" where
  "policy_waiting = (ReasonDependenciesNotReady,
     ''Waiting for conditions '' @ PolicyAccessKeyReady @ '' and '' @ PolicyBucketReady)"

definition set_ready_policy ::
  "lib \<Rightarrow> cond_status \<times> string \<times> string \<Rightarrow> AccessPolicy \<Rightarrow> AccessPolicy" where
  "set_ready_policy L s a =
    (let a' = a_set_conditions (SetStatusCondition L (a_Conditions a)
         (mk_condition Ready (fst s) (fst (snd s)) (snd (snd s)) (a_Generation a))) a
     in if fst s = ConditionTrue
        then a'\<lparr>a_Status := (a_Status a')\<lparr>pst_ObservedGeneration := a_Generation a'\<rparr>\<rparr> else a')"

lemma updateAccessPolicy_summary:
  assumes "\<forall>t \<in> fst ` set policy_parts. FindStatusCondition L (a_Conditions a) t \<noteq> None"
  shows "updateAccessPolicyCondition L a = Some (set_ready_policy L
    (summary (part_views L (a_Conditions a) policy_parts) policy_waiting) a)"
proof -
  let ?cs = "a_Conditions a"
  from assms have p: "FindStatusCondition L ?cs PolicyBucketReady \<noteq> None"
    "FindStatusCondition L ?cs PolicyAccessKeyReady \<noteq> None"
    "FindStatusCondition L ?cs PolicyAssignmentReady \<noteq> None"
    by (simp_all add: policy_parts_def)
  from cond_view_SomeE [OF p(1), where d = "\<lambda>m. ''Bucket not ready: '' @ m"] obtain c1 where
    c1: "FindStatusCondition L ?cs PolicyBucketReady = Some c1"
    "part_view L ?cs (PolicyBucketReady, \<lambda>m. ''Bucket not ready: '' @ m) =
       [(c_Status c1, c_Reason c1, ''Bucket not ready: '' @ c_Message c1)]" .
  from cond_view_SomeE [OF p(2), where d = "\<lambda>m. ''Access key not ready: '' @ m"] obtain c2 where
    c2: "FindStatusCondition L ?cs PolicyAccessKeyReady = Some c2"
    "part_view L ?cs (PolicyAccessKeyReady, \<lambda>m. ''Access key not ready: '' @ m) =
       [(c_Status c2, c_Reason c2, ''Access key not ready: '' @ c_Message c2)]" .
  from cond_view_SomeE [OF p(3), where d = "\<lambda>m. ''Policy assignment failed: '' @ m"] obtain c3
    where c3: "FindStatusCondition L ?cs PolicyAssignmentReady = Some c3"
    "part_view L ?cs (PolicyAssignmentReady, \<lambda>m. ''Policy assignment failed: '' @ m) =
       [(c_Status c3, c_Reason c3, ''Policy assignment failed: '' @ c_Message c3)]" .
  show ?thesis
    by (cases "c_Status c1"; cases "c_Status c2"; cases "c_Status c3")
      (simp_all only: updateAccessPolicyCondition_def set_ready_policy_def policy_parts_def
        part_views_Cons part_views_Nil c1 c2 c3 summary_def policy_waiting_def Let_def,
       simp_all)
qed

lemma set_ready_policy_simps:
  assumes "cond_laws L"
  shows "cond_view L (a_Conditions (set_ready_policy L s a)) t =
      (if t = Ready then Some (case s of (st, r, m) \<Rightarrow> (st, r, m, a_Generation a))
       else cond_view L (a_Conditions a) t)"
    and "pst_ObservedGeneration (a_Status (set_ready_policy L s a)) =
      (if fst s = ConditionTrue then a_Generation a else pst_ObservedGeneration (a_Status a))"
    and "a_Meta (set_ready_policy L s a) = a_Meta a"
    and "a_Spec (set_ready_policy L s a) = a_Spec a"
    and "pst_BucketID (a_Status (set_ready_policy L s a)) = pst_BucketID (a_Status a)"
    and "pst_AccessKeyID (a_Status (set_ready_policy L s a)) = pst_AccessKeyID (a_Status a)"
  by (simp_all add: set_ready_policy_def Let_def cond_view_set [OF assms] split: prod.splits)

interpretation policy_cond: conditioned_resource
  a_Conditions a_Generation "\<lambda>a. pst_ObservedGeneration (a_Status a)"
  initializePolicyConditions updateAccessPolicyCondition
  "[Ready, PolicyAccessKeyReady, PolicyBucketReady, PolicyAssignmentReady]"
  policy_parts policy_waiting "\<lambda>s. fst s = ConditionTrue"
  by unfold_locales
    (auto simp: policy_parts_def initializePolicyConditions_def updateAccessPolicy_summary
      set_ready_policy_simps)

end
