(* ===== verification/BucketTrace.thy ===== *)
theory BucketTrace
  imports BucketController ReadySummary
begin

text \<open>
  What each function of the Bucket reconciler does: the events it appends, the part of the
  bucket it may change and the conditions it leaves.  The properties of the reconciler are
  read off these contracts.
\<close>

section \<open>The bucket between the steps\<close>

text \<open>Every step changes conditions only, except the two fields \<open>configureBucket\<close> fills in.\<close>

definition bucket_frame :: "Bucket \<Rightarrow> Bucket \<Rightarrow> bool" where
  "bucket_frame b b' \<longleftrightarrow> b_Meta b' = b_Meta b \<and> b_Spec b' = b_Spec b \<and>
     bst_BucketID (b_Status b') = bst_BucketID (b_Status b) \<and>
     bst_BucketName (b_Status b') = bst_BucketName (b_Status b) \<and>
     bst_ObservedGeneration (b_Status b') = bst_ObservedGeneration (b_Status b) \<and>
     bst_LastSync (b_Status b') = bst_LastSync (b_Status b)"

lemma bucket_frame_refl [simp]: "bucket_frame b b"
  by (simp add: bucket_frame_def)

lemma bucket_frame_set [simp]: "bucket_frame b (b_set_conditions cs b') = bucket_frame b b'"
  by (simp add: bucket_frame_def)

lemma bucket_frame_trans:
  "bucket_frame a b \<Longrightarrow> bucket_frame b c \<Longrightarrow> bucket_frame a c"
  by (simp add: bucket_frame_def)

lemma bucket_frame_mark [simp]:
  "bucket_frame b (markBucketNotReady L b' r m) = bucket_frame b b'"
  "bucket_frame b (markBucketReady L b') = bucket_frame b b'"
  "bucket_frame b (updateBucketCMCondition L b' st r m) = bucket_frame b b'"
  "bucket_frame b (initializeBucketConditions L b') = bucket_frame b b'"
  by (simp_all add: markBucketNotReady_def markBucketReady_def updateBucketCMCondition_def
      initializeBucketConditions_def)

lemmas bucket_frameD = bucket_frame_def [THEN iffD1]

lemma mark_meta [simp]:
  "b_Meta (markBucketNotReady L b r m) = b_Meta b"
  "b_Spec (markBucketNotReady L b r m) = b_Spec b"
  "b_Meta (markBucketReady L b) = b_Meta b"
  "b_Spec (markBucketReady L b) = b_Spec b"
  "b_Meta (updateBucketCMCondition L b st r m) = b_Meta b"
  "b_Spec (updateBucketCMCondition L b st r m) = b_Spec b"
  "b_Meta (initializeBucketConditions L b) = b_Meta b"
  "b_Spec (initializeBucketConditions L b) = b_Spec b"
  by (simp_all add: markBucketNotReady_def markBucketReady_def updateBucketCMCondition_def
      initializeBucketConditions_def)

lemma mark_view:
  assumes "cond_laws L"
  shows "cond_view L (b_Conditions (markBucketNotReady L b r m)) t =
      (if t = BucketReady then Some (ConditionFalse, r, m, b_Generation b)
       else cond_view L (b_Conditions b) t)"
    and "cond_view L (b_Conditions (markBucketReady L b)) t =
      (if t = BucketReady
       then Some (ConditionTrue, ''BucketReady'', ''Bucket resource is ready'', b_Generation b)
       else cond_view L (b_Conditions b) t)"
    and "cond_view L (b_Conditions (updateBucketCMCondition L b st r m)) t =
      (if t = BucketConfigMapReady then Some (st, r, m, b_Generation b)
       else cond_view L (b_Conditions b) t)"
  by (simp_all add: markBucketNotReady_def markBucketReady_def updateBucketCMCondition_def
      markNotReady_def cond_view_set [OF assms])

lemma mark_stat:
  assumes "cond_laws L"
  shows "cond_stat L (b_Conditions (markBucketNotReady L b r m)) t =
      (if t = BucketReady then Some ConditionFalse else cond_stat L (b_Conditions b) t)"
    and "cond_stat L (b_Conditions (markBucketReady L b)) t =
      (if t = BucketReady then Some ConditionTrue else cond_stat L (b_Conditions b) t)"
    and "cond_stat L (b_Conditions (updateBucketCMCondition L b st r m)) t =
      (if t = BucketConfigMapReady then Some st else cond_stat L (b_Conditions b) t)"
  by (simp_all add: cond_stat_view mark_view [OF assms])

section \<open>Resolving\<close>

text \<open>The events that act on a bucket, as opposed to reading state or reporting.\<close>

fun bucket_effect :: "ctrl_event \<Rightarrow> bool" where
  "bucket_effect (BucketCreate a r) = True"
| "bucket_effect (BucketUpdate i q r) = True"
| "bucket_effect (CreateOrUpdateConfigMap cm r) = True"
| "bucket_effect (DeleteConfigMap cm r) = True"
| "bucket_effect e = False"

text \<open>Between reading the bucket and patching its status.\<close>

fun bucket_step :: "ctrl_event \<Rightarrow> bool" where
  "bucket_step (BucketGet a r) = True"
| "bucket_step (BucketCreate a r) = True"
| "bucket_step (BucketUpdate i q r) = True"
| "bucket_step (OwnershipGet k i r) = True"
| "bucket_step (GetSecret n r) = True"
| "bucket_step (CreateOrUpdateConfigMap cm r) = True"
| "bucket_step (ListConfigMaps ns sel r) = True"
| "bucket_step (DeleteConfigMap cm r) = True"
| "bucket_step (Eventf t r m) = True"
| "bucket_step e = False"

text \<open>The reasons of this controller fit the pattern of the CRD, but for the one a failed
  quota update writes.\<close>

lemma bucket_reasons_valid [simp]:
  "reason_valid ''CreateFailed''" "reason_valid ''UnknownState''" "reason_valid ''BucketNotFound''"
  "reason_valid ReasonOwnershipVerificationFailed" "reason_valid ReasonSecretAccessForbidden"
  "reason_valid ReasonOwnerKeySecretNotFound" "reason_valid ReasonConfigMapNameConflict"
  "reason_valid ReasonConfigMapAccessForbidden" "reason_valid ReasonConfigMapCreateError"
  "reason_valid ''ConfigMapReady''" "reason_valid ''BucketReady''"
  "reason_valid ''WaitingForBucket''" "reason_valid defaultReadyReason"
  by code_simp+

lemma update_failed_reason: "\<not> reason_valid ''Update Failed''"
  by code_simp

text \<open>A bucket that could not be resolved: \<open>BucketReady\<close> is false, with a reason the CRD admits,
  and nothing else changed.\<close>

definition unresolved :: "lib \<Rightarrow> Bucket \<Rightarrow> Bucket \<Rightarrow> bool" where
  "unresolved L b b' \<longleftrightarrow> (\<exists>r m. reason_valid r \<and> (\<forall>t. cond_view L (b_Conditions b') t =
     (if t = BucketReady then Some (ConditionFalse, r, m, b_Generation b)
      else cond_view L (b_Conditions b) t)))"

lemma unresolved_mark:
  "cond_laws L \<Longrightarrow> reason_valid r \<Longrightarrow> unresolved L b (markBucketNotReady L b r m)"
  unfolding unresolved_def by (intro exI [of _ r] exI [of _ m]) (simp add: mark_view)

lemma unresolved_stat:
  "unresolved L b b' \<Longrightarrow> cond_stat L (b_Conditions b') t =
     (if t = BucketReady then Some ConditionFalse else cond_stat L (b_Conditions b) t)"
  by (auto simp: unresolved_def cond_stat_view)

text \<open>
  New buckets: one look-up under the derived alias, and, when it answers
  \<open>ErrResourceNotFound\<close>, one creation.
\<close>

definition new_bucket_trace ::
  "lib \<Rightarrow> Bucket \<Rightarrow> Bucket \<Rightarrow> error + s3_bucket \<times> string \<Rightarrow> ctrl_event list \<Rightarrow> bool" where
  "new_bucket_trace L b b' r es \<longleftrightarrow>
    (let alias = suffixedResourceName (bs_Name (b_Spec b)) (b_Meta b) in
     bucket_frame b b' \<and>
     (\<forall>x y. r = Inr (x, y) \<longrightarrow> y = alias \<and> b' = b) \<and>
     ((\<exists>s. es = [BucketGet alias (Inr s)] \<and> r = Inr (s, alias)) \<or>
      (\<exists>e. es = [BucketGet alias (Inl e)] \<and> \<not> errors_Is e ErrResourceNotFound \<and>
         r = Inl (wrap ''retrieving existing bucket: '' e)) \<or>
      (\<exists>e s ev. es = [BucketGet alias (Inl e), BucketCreate alias (Inr s), ev] \<and>
         errors_Is e ErrResourceNotFound \<and> r = Inr (s, alias) \<and>
         (\<exists>m. ev = Eventf EventTypeNormal ReasonBucketCreated m)) \<or>
      (\<exists>e e' ev. es = [BucketGet alias (Inl e), BucketCreate alias (Inl e'), ev] \<and>
         errors_Is e ErrResourceNotFound \<and> r = Inl (wrap ''create new bucket: '' e') \<and>
         (\<exists>m. ev = Eventf EventTypeWarning ReasonBucketCreateFailed m))))"

lemma resolveNewBucket_trace:
  "produces (resolveNewBucket L R b) (\<lambda>(b', r) es. new_bucket_trace L b b' r es \<and>
     (cond_laws L \<longrightarrow> (\<forall>e. r = Inl e \<longrightarrow> unresolved L b b')))"
  unfolding resolveNewBucket_def Let_def
  by (intro produces_intros) (simp_all add: new_bucket_trace_def unresolved_mark)

text \<open>
  Imported buckets: the owner's secret, the bucket by name, and the permissions of the
  secret's key on it.  The bucket is only resolved when the key is reported as its owner.
\<close>

definition ownership_evidence ::
  "ExistingBucketSpec \<Rightarrow> string \<Rightarrow> s3_bucket \<Rightarrow> ctrl_event list \<Rightarrow> bool" where
  "ownership_evidence spec ns s es \<longleftrightarrow>
     (\<exists>sec p. GetSecret (ns, eb_OwnerKeySecret spec) (Inr sec) \<in> set es \<and>
        BucketGet (eb_Name spec) (Inr s) \<in> set es \<and>
        OwnershipGet (map_get (s_Data sec) SecretKeyAccessKeyID) (sb_ID s) (Inr p) \<in> set es \<and>
        p_Owner p)"

text \<open>Why an import goes no further: no secret, no bucket, no answer on the ownership, or no owner.\<close>

definition import_blocked :: "ExistingBucketSpec \<Rightarrow> string \<Rightarrow> ctrl_event list \<Rightarrow> bool" where
  "import_blocked spec ns es \<longleftrightarrow>
     (\<exists>e. GetSecret (ns, eb_OwnerKeySecret spec) (Inl e) \<in> set es) \<or>
     (\<exists>e. BucketGet (eb_Name spec) (Inl e) \<in> set es) \<or>
     (\<exists>i j r. OwnershipGet i j r \<in> set es \<and> (\<forall>p. r = Inr p \<longrightarrow> \<not> p_Owner p))"

definition existing_bucket_trace ::
  "ExistingBucketSpec \<Rightarrow> Bucket \<Rightarrow> Bucket \<Rightarrow> error + s3_bucket \<times> string \<Rightarrow> ctrl_event list \<Rightarrow> bool" where
  "existing_bucket_trace spec b b' r es \<longleftrightarrow>
     bucket_frame b b' \<and> list_all (\<lambda>e. bucket_step e \<and> \<not> bucket_effect e) es \<and>
     (\<forall>s y. r = Inr (s, y) \<longrightarrow> y = eb_Name spec \<and> b' = b \<and>
        ownership_evidence spec (m_Namespace (b_Meta b)) s es) \<and>
     (\<forall>e. r = Inl e \<longrightarrow> import_blocked spec (m_Namespace (b_Meta b)) es)"

lemma resolveExistingBucket_trace:
  "produces (resolveExistingBucket L K R spec b) (\<lambda>(b', r) es. existing_bucket_trace spec b b' r es \<and>
     (cond_laws L \<longrightarrow> (\<forall>e. r = Inl e \<longrightarrow> unresolved L b b')))"
  unfolding resolveExistingBucket_def verifyOwnership_def Let_def
  by (intro produces_intros)
    (auto simp: existing_bucket_trace_def ownership_evidence_def import_blocked_def unresolved_mark)

section \<open>Publishing\<close>

text \<open>The ConfigMaps of an earlier name that belong to the bucket.\<close>

definition stale_configmaps :: "lib \<Rightarrow> Bucket \<Rightarrow> configmap list \<Rightarrow> configmap list" where
  "stale_configmaps L b = filter (\<lambda>cm. m_Name (cm_Meta cm) \<noteq> desiredConfigMapName b \<and>
     IsControlledBy L (cm_Meta cm) (b_Meta b))"

text \<open>Deleting works through the stale ConfigMaps in order and stops at the first failure.\<close>

definition delete_trace ::
  "lib \<Rightarrow> configmap list \<Rightarrow> error option \<Rightarrow> ctrl_event list \<Rightarrow> bool" where
  "delete_trace L stale out es \<longleftrightarrow>
     (\<exists>rs. es = map2 DeleteConfigMap stale rs \<and> length rs \<le> length stale \<and>
        (out = None \<longrightarrow> length rs = length stale \<and> list_all (gone L) rs) \<and>
        (out \<noteq> None \<longrightarrow> rs \<noteq> [] \<and> \<not> gone L (last rs) \<and> list_all (gone L) (butlast rs)))"

lemma delete_trace_Cons:
  "gone L r \<Longrightarrow> delete_trace L stale out es \<Longrightarrow>
     delete_trace L (cm # stale) out (DeleteConfigMap cm r # es)"
  unfolding delete_trace_def
proof (elim exE conjE, goal_cases)
  case (1 rs)
  then show ?case
    by (intro exI [of _ "r # rs"]) auto
qed

lemma deleteStaleLoop_trace:
  "produces (deleteStaleLoop L K b (desiredConfigMapName b) cms)
     (\<lambda>out es. delete_trace L (stale_configmaps L b cms) out es)"
proof (induction cms)
  case Nil
  show ?case
    by (simp add: produces_return delete_trace_def stale_configmaps_def)
next
  case (Cons cm cms)
  have stop: "delete_trace L (cm # stale) (Some e') [DeleteConfigMap cm (Some e)]"
    if "\<not> IsNotFound L e" for e e' stale
    using that unfolding delete_trace_def by (intro exI [of _ "[Some e]"]) (simp add: gone_def)
  have go: "produces (deleteStaleLoop L K b (desiredConfigMapName b) cms)
      (\<lambda>out es. delete_trace L (cm # stale_configmaps L b cms) out (DeleteConfigMap cm r # es))"
    if "gone L r" for r
    by (rule produces_mono [OF Cons.IH]) (simp add: delete_trace_Cons that)
  show ?case
  proof (cases "m_Name (cm_Meta cm) \<noteq> desiredConfigMapName b \<and>
      IsControlledBy L (cm_Meta cm) (b_Meta b)")
    case True
    then have st: "stale_configmaps L b (cm # cms) = cm # stale_configmaps L b cms"
      by (simp add: stale_configmaps_def)
    from True show ?thesis
      unfolding deleteStaleLoop.simps(2) st
      by (simp only: if_True simp_thms)
        (intro produces_intros; simp add: stop go gone_def)
  next
    case False
    then have st: "stale_configmaps L b (cm # cms) = stale_configmaps L b cms"
      by (simp add: stale_configmaps_def)
    from False Cons.IH show ?thesis
      unfolding deleteStaleLoop.simps(2) st by (simp only: if_False)
  qed
qed

definition stale_selector :: "Bucket \<Rightarrow> string \<times> string" where
  "stale_selector b = (labelBucketName, m_Name (b_Meta b))"

definition cleanup_trace ::
  "lib \<Rightarrow> Bucket \<Rightarrow> error option \<Rightarrow> ctrl_event list \<Rightarrow> bool" where
  "cleanup_trace L b out es \<longleftrightarrow>
     (\<exists>e. out \<noteq> None \<and> es = [ListConfigMaps (m_Namespace (b_Meta b)) (stale_selector b) (Inl e)]) \<or>
     (\<exists>items ds. es = ListConfigMaps (m_Namespace (b_Meta b)) (stale_selector b) (Inr items) # ds \<and>
        delete_trace L (stale_configmaps L b items) out ds)"

lemma deleteStaleConfigMap_trace:
  "produces (deleteStaleConfigMap L K b) (cleanup_trace L b)"
  unfolding deleteStaleConfigMap_def Let_def stale_selector_def [symmetric]
  by (intro produces_intros produces_mono [OF deleteStaleLoop_trace])
    (auto simp: cleanup_trace_def)

lemma cleanup_trace_same:
  "b_Meta b' = b_Meta b \<Longrightarrow> b_Spec b' = b_Spec b \<Longrightarrow> cleanup_trace L b' = cleanup_trace L b"
  by (simp add: cleanup_trace_def stale_selector_def stale_configmaps_def desiredConfigMapName_def
      fun_eq_iff)

definition own_configmap :: "Bucket \<Rightarrow> configmap" where
  "own_configmap b =
     \<lparr>cm_Meta = new_meta (desiredConfigMapName b) (m_Namespace (b_Meta b)), cm_Data = Map.empty\<rparr>"

lemma own_configmap_same:
  "b_Meta b' = b_Meta b \<Longrightarrow> b_Spec b' = b_Spec b \<Longrightarrow> own_configmap b' = own_configmap b"
  by (simp add: own_configmap_def desiredConfigMapName_def)

lemma ensureConfigMap_trace:
  "produces (ensureConfigMap L K b endpoint)
     (\<lambda>out es. \<exists>res. es = [CreateOrUpdateConfigMap (own_configmap b) (res, out)])"
  unfolding ensureConfigMap_def Let_def own_configmap_def [symmetric]
  by (intro produces_intros) (auto intro: prod.collapse [symmetric])

fun cm_status :: "error option \<Rightarrow> cond_status" where
  "cm_status None = ConditionTrue"
| "cm_status (Some e) = ConditionFalse"

fun publish_end :: "lib \<Rightarrow> Bucket \<Rightarrow> error option \<Rightarrow> outcome \<Rightarrow> ctrl_event list \<Rightarrow> bool" where
  "publish_end L b None out rest = (\<exists>e. out = Returned no_requeue e \<and> cleanup_trace L b e rest)"
| "publish_end L b (Some e) out rest =
     (out = Returned no_requeue (if errors_Is e errNameConflict then None else Some e) \<and>
      (rest = [] \<or> (\<exists>m. rest = [Eventf EventTypeWarning ReasonConfigMapAccessForbidden m])))"

text \<open>The conditions after publishing.\<close>

definition published_view :: "lib \<Rightarrow> Bucket \<Rightarrow> Bucket \<Rightarrow> error option \<Rightarrow> bool" where
  "published_view L b b' err \<longleftrightarrow> (\<exists>r m. reason_valid r \<and> (\<forall>t. cond_view L (b_Conditions b') t =
     (if t = BucketReady
      then Some (ConditionTrue, ''BucketReady'', ''Bucket resource is ready'', b_Generation b)
      else if t = BucketConfigMapReady then Some (cm_status err, r, m, b_Generation b)
      else cond_view L (b_Conditions b) t)))"

lemma published_viewI:
  "cond_laws L \<Longrightarrow> reason_valid r \<Longrightarrow> st = cm_status err \<Longrightarrow>
     published_view L b (updateBucketCMCondition L (markBucketReady L b) st r m) err"
  unfolding published_view_def by (intro exI [of _ r] exI [of _ m]) (simp add: mark_view)

lemma published_view_stat:
  "published_view L b b' err \<Longrightarrow>
     cond_stat L (b_Conditions b') BucketReady = Some ConditionTrue \<and>
     cond_stat L (b_Conditions b') BucketConfigMapReady = Some (cm_status err)"
  by (auto simp: published_view_def cond_stat_view)

text \<open>What is published without an error is known to the letter.\<close>

definition bucket_published :: "lib \<Rightarrow> Bucket \<Rightarrow> Bucket" where
  "bucket_published L b = updateBucketCMCondition L (markBucketReady L b) ConditionTrue
     ''ConfigMapReady'' ''ConfigMap with external bucket details is ready''"

definition publish_trace ::
  "lib \<Rightarrow> Bucket \<Rightarrow> Bucket \<Rightarrow> outcome \<Rightarrow> ctrl_event list \<Rightarrow> bool" where
  "publish_trace L b b' out es \<longleftrightarrow> bucket_frame b b' \<and>
     (\<exists>res err rest. es = CreateOrUpdateConfigMap (own_configmap b) (res, err) # rest \<and>
        (cond_laws L \<longrightarrow> published_view L b b' err) \<and> (err = None \<longrightarrow> b' = bucket_published L b) \<and>
        publish_end L b err out rest)"

lemma publishBucket_trace:
  "produces (publishBucket L K R b) (\<lambda>(b', out) es. publish_trace L b b' out es)"
proof -
  let ?b = "markBucketReady L b"
  have own: "own_configmap ?b = own_configmap b"
    by (rule own_configmap_same) simp_all
  have clean: "cleanup_trace L (updateBucketCMCondition L ?b st r m) = cleanup_trace L b" for st r m
    by (rule cleanup_trace_same) simp_all
  show ?thesis
    unfolding publishBucket_def Let_def
    by (intro produces_intros produces_mono [OF ensureConfigMap_trace]
        produces_mono [OF deleteStaleConfigMap_trace])
      (auto simp: publish_trace_def bucket_published_def own clean published_viewI)
qed

text \<open>\<open>configureBucket\<close> first records the identity of the bucket, once.\<close>

definition fill_identity :: "s3_bucket \<Rightarrow> string \<Rightarrow> Bucket \<Rightarrow> Bucket" where
  "fill_identity s alias b = b\<lparr>b_Status := (b_Status b)\<lparr>
     bst_BucketID := (if bst_BucketID (b_Status b) = [] then sb_ID s else bst_BucketID (b_Status b)),
     bst_BucketName :=
       (if bst_BucketName (b_Status b) = [] then alias else bst_BucketName (b_Status b))\<rparr>\<rparr>"

definition update_failed :: "lib \<Rightarrow> Bucket \<Rightarrow> error \<Rightarrow> Bucket" where
  "update_failed L b e = markBucketNotReady L b ''Update Failed''
     (''Failed to update bucket configuration: '' @ errmsg e)"

lemma update_failed_simps [simp]:
  "bucket_frame b (update_failed L b' e) = bucket_frame b b'"
  by (simp add: update_failed_def)

lemma update_failed_stat:
  "cond_laws L \<Longrightarrow> cond_stat L (b_Conditions (update_failed L b e)) t =
     (if t = BucketReady then Some ConditionFalse else cond_stat L (b_Conditions b) t)"
  by (simp add: update_failed_def mark_stat)

definition configure_trace ::
  "lib \<Rightarrow> Bucket \<Rightarrow> s3_bucket \<Rightarrow> string \<Rightarrow> Bucket \<Rightarrow> outcome \<Rightarrow> ctrl_event list \<Rightarrow> bool" where
  "configure_trace L b s alias b' out es \<longleftrightarrow>
    (let b1 = fill_identity s alias b; q = spec_quotas L (b_Spec b) in
     if compareSpec L s (b_Spec b)
     then (\<exists>r rest. es = BucketUpdate (sb_ID s) q r # rest \<and>
       (case r of
          Some e \<Rightarrow> rest = [] \<and>
            out = Returned no_requeue (Some (wrap ''updating external bucket to spec: '' e)) \<and>
            b' = update_failed L b1 e
        | None \<Rightarrow> publish_trace L b1 b' out rest))
     else publish_trace L b1 b' out es)"

lemma configure_traceE:
  assumes "configure_trace L b s y b' out es"
  obtains (failed) e where "compareSpec L s (b_Spec b)"
      "es = [BucketUpdate (sb_ID s) (spec_quotas L (b_Spec b)) (Some e)]"
      "out = Returned no_requeue (Some (wrap ''updating external bucket to spec: '' e))"
      "b' = update_failed L (fill_identity s y b) e"
  | (updated) rest where "compareSpec L s (b_Spec b)"
      "es = BucketUpdate (sb_ID s) (spec_quotas L (b_Spec b)) None # rest"
      "publish_trace L (fill_identity s y b) b' out rest"
  | (unchanged) "\<not> compareSpec L s (b_Spec b)" "publish_trace L (fill_identity s y b) b' out es"
proof (cases "compareSpec L s (b_Spec b)")
  case True
  with assms obtain r rest where
    es: "es = BucketUpdate (sb_ID s) (spec_quotas L (b_Spec b)) r # rest"
    and r: "case r of
          Some e \<Rightarrow> rest = [] \<and>
            out = Returned no_requeue (Some (wrap ''updating external bucket to spec: '' e)) \<and>
            b' = update_failed L (fill_identity s y b) e
        | None \<Rightarrow> publish_trace L (fill_identity s y b) b' out rest"
    unfolding configure_trace_def Let_def by (simp only: if_True) blast
  show thesis
  proof (cases r)
    case None
    with True es r updated show thesis by (simp only: option.case)
  next
    case (Some e)
    with True es r failed show thesis by (simp only: option.case)
  qed
next
  case False
  with assms have "publish_trace L (fill_identity s y b) b' out es"
    unfolding configure_trace_def Let_def by (simp only: if_False)
  with False show thesis by (rule unchanged)
qed

lemma publish_frame: "publish_trace L b b' out es \<Longrightarrow> bucket_frame b b'"
  by (simp add: publish_trace_def)

lemma configure_frame:
  assumes "configure_trace L b s y b' out es"
  shows "bucket_frame (fill_identity s y b) b'"
  using assms by (cases rule: configure_traceE) (simp_all add: publish_frame)

lemma configureBucket_trace:
  "produces (configureBucket L K R b s alias) (\<lambda>(b', out) es. configure_trace L b s alias b' out es)"
proof -
  let ?b = "if bst_BucketID (b_Status b) = []
    then b\<lparr>b_Status := (b_Status b)\<lparr>bst_BucketID := sb_ID s\<rparr>\<rparr> else b"
  have fill: "(if bst_BucketName (b_Status ?b) = []
      then ?b\<lparr>b_Status := (b_Status ?b)\<lparr>bst_BucketName := alias\<rparr>\<rparr> else ?b) =
    fill_identity s alias b"
    by (simp add: fill_identity_def)
  have spec: "b_Spec (fill_identity s alias b) = b_Spec b"
    by (simp add: fill_identity_def)
  show ?thesis
    unfolding configureBucket_def Let_def fill spec update_failed_def [symmetric]
    by (intro produces_intros produces_mono [OF publishBucket_trace])
      (auto simp: configure_trace_def)
qed

section \<open>Reconciling\<close>

text \<open>Whichever way the bucket is found, and how a failure to find it is reported.\<close>

definition resolve_trace ::
  "lib \<Rightarrow> Bucket \<Rightarrow> Bucket \<Rightarrow> error + s3_bucket \<times> string \<Rightarrow> ctrl_event list \<Rightarrow> bool" where
  "resolve_trace L b b' r es \<longleftrightarrow>
     (case bs_ExistingBucket (b_Spec b) of
        None \<Rightarrow> new_bucket_trace L b b' r es
      | Some spec \<Rightarrow> existing_bucket_trace spec b b' r es) \<and>
     (cond_laws L \<longrightarrow> (\<forall>e. r = Inl e \<longrightarrow> unresolved L b b'))"

definition failed_outcome :: "'s BucketReconciler \<Rightarrow> Bucket \<Rightarrow> error \<Rightarrow> outcome \<Rightarrow> bool" where
  "failed_outcome R b err out \<longleftrightarrow>
     (case bs_ExistingBucket (b_Spec b) of
        None \<Rightarrow> out = Returned no_requeue (Some err)
      | Some spec \<Rightarrow> \<exists>age. out =
          (case ownerSecretBackoff age (baseInterval R) maxRequeueInterval of
             None \<Rightarrow> Panicked | Some d \<Rightarrow> Returned \<lparr>RequeueAfter = d\<rparr> None))"

fun settle_trace ::
  "lib \<Rightarrow> 's BucketReconciler \<Rightarrow> Bucket \<Rightarrow> error + s3_bucket \<times> string \<Rightarrow> Bucket \<Rightarrow> outcome \<Rightarrow>
     ctrl_event list \<Rightarrow> bool" where
  "settle_trace L R b (Inl err) b' out es =
     (b' = b \<and> es = [] \<and> failed_outcome R b err out)"
| "settle_trace L R b (Inr (s, alias)) b' out es = configure_trace L b s alias b' out es"

definition reconcile_trace ::
  "lib \<Rightarrow> 's BucketReconciler \<Rightarrow> Bucket \<Rightarrow> Bucket \<Rightarrow> outcome \<Rightarrow> ctrl_event list \<Rightarrow> bool" where
  "reconcile_trace L R b b' out es \<longleftrightarrow>
     (\<exists>b1 r es1 es2. es = es1 @ es2 \<and> resolve_trace L b b1 r es1 \<and> settle_trace L R b1 r b' out es2)"

lemma reconcile_traceI:
  "resolve_trace L b b1 r es1 \<Longrightarrow> settle_trace L R b1 r b' out es2 \<Longrightarrow>
     reconcile_trace L R b b' out (es1 @ es2)"
  unfolding reconcile_trace_def by blast

lemma reconcileBucket_trace:
  "produces (reconcileBucket L K R b) (\<lambda>(b', out) es. reconcile_trace L R b b' out es)"
proof (cases "bs_ExistingBucket (b_Spec b)")
  case None
  have failed: "reconcile_trace L R b b1 (Returned no_requeue (Some err)) es"
    if "new_bucket_trace L b b1 (Inl err) es" "cond_laws L \<longrightarrow> unresolved L b b1" for b1 err es
    using that None reconcile_traceI [of L b b1 "Inl err" es R b1 _ "[]"]
    by (simp add: resolve_trace_def failed_outcome_def new_bucket_trace_def Let_def bucket_frame_def)
  have found: "reconcile_trace L R b b' out (es @ fs)"
    if "new_bucket_trace L b b1 (Inr (s, y)) es" "configure_trace L b1 s y b' out fs"
    for b1 s y es fs b' out
    using that None by (intro reconcile_traceI [of L b b1 "Inr (s, y)"])
      (simp_all add: resolve_trace_def)
  from None show ?thesis
    unfolding reconcileBucket_def
    by (simp only: option.case)
      (intro produces_intros produces_mono [OF resolveNewBucket_trace]
        produces_mono [OF configureBucket_trace]; auto intro: failed found)
next
  case (Some spec)
  have failed: "reconcile_trace L R b b1
      (case ownerSecretBackoff age (baseInterval R) maxRequeueInterval of
         None \<Rightarrow> Panicked | Some d \<Rightarrow> Returned \<lparr>RequeueAfter = d\<rparr> None) es"
    if "existing_bucket_trace spec b b1 (Inl err) es" "cond_laws L \<longrightarrow> unresolved L b b1"
    for b1 err es age
    using that Some reconcile_traceI [of L b b1 "Inl err" es R b1 _ "[]"]
    by (auto simp: resolve_trace_def failed_outcome_def existing_bucket_trace_def bucket_frame_def)
  have found: "reconcile_trace L R b b' out (es @ fs)"
    if "existing_bucket_trace spec b b1 (Inr (s, y)) es" "configure_trace L b1 s y b' out fs"
    for b1 s y es fs b' out
    using that Some by (intro reconcile_traceI [of L b b1 "Inr (s, y)"])
      (simp_all add: resolve_trace_def)
  from Some show ?thesis
    unfolding reconcileBucket_def
    by (simp only: option.case)
      (intro produces_intros produces_mono [OF resolveExistingBucket_trace]
        produces_mono [OF configureBucket_trace]; auto intro: failed found simp del: option.case)
qed

text \<open>The end of a reconcile: the status is patched when it changed.\<close>

definition finish_trace ::
  "lib \<Rightarrow> 's kube \<Rightarrow> BucketStatus \<Rightarrow> Bucket \<Rightarrow> ctrl_result \<Rightarrow> error option \<Rightarrow> outcome \<Rightarrow>
     ctrl_event list \<Rightarrow> bool" where
  "finish_trace L K orig b result err out es \<longleftrightarrow>
     (let b' = updateBucketReadyCondition L b in
      (BucketStatusEqual K orig (b_Status b') \<and> es = [] \<and> out = Returned result err) \<or>
      (\<not> BucketStatusEqual K orig (b_Status b') \<and>
         (\<exists>p. es = [PatchBucketStatus b' p] \<and> out = patched_outcome L result err p)))"

lemma finishBucket_trace:
  "produces (finishBucket L K orig b result err) (finish_trace L K orig b result err)"
  unfolding finishBucket_def Let_def
  by (intro produces_intros) (auto simp: finish_trace_def patched_outcome_def Let_def
      split: option.splits)

definition bucket_run ::
  "lib \<Rightarrow> 's kube \<Rightarrow> 's BucketReconciler \<Rightarrow> Bucket \<Rightarrow> outcome \<Rightarrow> ctrl_event list \<Rightarrow> bool" where
  "bucket_run L K R b out es \<longleftrightarrow>
     (\<exists>b' o' es1 es2. es = es1 @ es2 \<and>
        reconcile_trace L R (initializeBucketConditions L b) b' o' es1 \<and>
        (case o' of
           Panicked \<Rightarrow> out = Panicked \<and> es2 = []
         | Returned result err \<Rightarrow> finish_trace L K (b_Status b) b' result err out es2))"

lemma Reconcile_trace:
  "produces (BucketReconciler_Reconcile L K R req) (\<lambda>out es.
     (\<exists>e. es = [GetBucket req (Inl e)] \<and>
        out = Returned no_requeue (if IsNotFound L e then None else Some e)) \<or>
     (\<exists>b fs. es = GetBucket req (Inr b) # fs \<and> bucket_run L K R b out fs))"
proof -
  have panic: "bucket_run L K R b Panicked es"
    if "reconcile_trace L R (initializeBucketConditions L b) b' Panicked es" for b b' es
    using that unfolding bucket_run_def by (intro exI [of _ b'] exI [of _ Panicked]) auto
  have finish: "bucket_run L K R b out (es @ fs)"
    if "reconcile_trace L R (initializeBucketConditions L b) b' (Returned result err) es"
      and "finish_trace L K (b_Status b) b' result err out fs" for b b' result err out es fs
    unfolding bucket_run_def
    by (intro exI [of _ b'] exI [of _ "Returned result err"] exI [of _ es] exI [of _ fs])
      (simp add: that)
  have case_out: "produces (case o' of Panicked \<Rightarrow> State_Monad.return Panicked
        | Returned result err \<Rightarrow> finishBucket L K orig b result err) Q"
    if "o' = Panicked \<Longrightarrow> Q Panicked []"
      "\<And>result err. o' = Returned result err \<Longrightarrow> produces (finishBucket L K orig b result err) Q"
    for o' orig b Q
    using that by (cases o') (auto intro: produces_return)
  show ?thesis
    unfolding BucketReconciler_Reconcile_def Let_def
    by (intro produces_intros produces_mono [OF reconcileBucket_trace] case_out
        produces_mono [OF finishBucket_trace]) (auto intro: panic finish)
qed

text \<open>A run that could read its bucket, by its parts.\<close>

lemma Reconcile_log:
  assumes "kGetBucket K req (ext w) = (Inr b, s)"
  obtains fs where "log (snd (run_state (BucketReconciler_Reconcile L K R req) w)) =
    log (snd (run_state (reconcileBucket L K R (initializeBucketConditions L b))
      (w\<lparr>ext := s, log := log w @ [GetBucket req (Inr b)]\<rparr>))) @ fs"
proof -
  let ?r = "run_state (reconcileBucket L K R (initializeBucketConditions L b))
      (w\<lparr>ext := s, log := log w @ [GetBucket req (Inr b)]\<rparr>)"
  let ?m = "case snd (fst ?r) of Panicked \<Rightarrow> State_Monad.return Panicked
      | Returned result err \<Rightarrow> finishBucket L K (b_Status b) (fst (fst ?r)) result err"
  have "produces ?m (\<lambda>out es. True)"
    by (cases "snd (fst ?r)")
      (auto intro: produces_return produces_mono [OF finishBucket_trace])
  then obtain fs where "log (snd (run_state ?m (snd ?r))) = log (snd ?r) @ fs"
    by (rule produces_log)
  then show thesis
    by (intro that [of fs])
      (simp add: BucketReconciler_Reconcile_def run_eval Let_def case_prod_beta assms)
qed

lemma Reconcile_reads:
  assumes "kGetBucket K req (ext w) = (Inr b, s)"
  shows "run_events (BucketReconciler_Reconcile L K R req) w =
    GetBucket req (Inr b) # tl (run_events (BucketReconciler_Reconcile L K R req) w)"
proof -
  let ?w = "w\<lparr>ext := s, log := log w @ [GetBucket req (Inr b)]\<rparr>"
  obtain es where "log (snd (run_state (reconcileBucket L K R (initializeBucketConditions L b)) ?w)) =
      log ?w @ es"
    by (rule produces_log [OF reconcileBucket_trace])
  moreover obtain fs where "log (snd (run_state (BucketReconciler_Reconcile L K R req) w)) =
    log (snd (run_state (reconcileBucket L K R (initializeBucketConditions L b)) ?w)) @ fs"
    by (rule Reconcile_log [of K req w, OF assms])
  ultimately show ?thesis by (simp add: run_events_def new_events_def)
qed

section \<open>Which events a reconcile can have\<close>

lemma delete_trace_events:
  "delete_trace L cms out es \<Longrightarrow> e \<in> set es \<Longrightarrow> \<exists>cm r. e = DeleteConfigMap cm r \<and> cm \<in> set cms"
  by (auto simp: delete_trace_def set_zip)

lemma cleanup_trace_events:
  assumes "cleanup_trace L b out es" and "e \<in> set es"
  shows "(\<exists>r. e = ListConfigMaps (m_Namespace (b_Meta b)) (stale_selector b) r) \<or>
    (\<exists>cm r items. e = DeleteConfigMap cm r \<and>
       ListConfigMaps (m_Namespace (b_Meta b)) (stale_selector b) (Inr items) = hd es \<and>
       cm \<in> set (stale_configmaps L b items))"
  using assms delete_trace_events unfolding cleanup_trace_def by fastforce

lemma publish_trace_events:
  assumes "publish_trace L b b' out es" and "e \<in> set es"
  shows "(\<exists>r. e = CreateOrUpdateConfigMap (own_configmap b) r) \<or>
    (\<exists>r. e = ListConfigMaps (m_Namespace (b_Meta b)) (stale_selector b) r) \<or>
    (\<exists>cm r. e = DeleteConfigMap cm r) \<or> (\<exists>t r m. e = Eventf t r m)"
proof -
  from assms(1) obtain res err rest where
    es: "es = CreateOrUpdateConfigMap (own_configmap b) (res, err) # rest"
    and "publish_end L b err out rest"
    by (auto simp: publish_trace_def)
  with assms(2) show ?thesis
    by (cases err) (auto dest: cleanup_trace_events)
qed

lemma fill_identity_simps [simp]:
  "b_Meta (fill_identity s y b) = b_Meta b" "b_Spec (fill_identity s y b) = b_Spec b"
  "b_Conditions (fill_identity s y b) = b_Conditions b"
  by (simp_all add: fill_identity_def)

lemma own_fill [simp]: "own_configmap (fill_identity s y b) = own_configmap b"
  by (rule own_configmap_same) simp_all

lemma configure_trace_events:
  assumes "configure_trace L b s y b' out es" and "e \<in> set es"
  shows "(\<exists>r. e = BucketUpdate (sb_ID s) (spec_quotas L (b_Spec b)) r) \<or>
    (\<exists>r. e = CreateOrUpdateConfigMap (own_configmap b) r) \<or>
    (\<exists>ns sel r. e = ListConfigMaps ns sel r) \<or>
    (\<exists>cm r. e = DeleteConfigMap cm r) \<or> (\<exists>t r m. e = Eventf t r m)"
proof (cases rule: configure_traceE [OF assms(1)])
  case (1 x)
  with assms(2) show ?thesis by auto
next
  case (2 rest)
  show ?thesis
  proof (cases "e \<in> set rest")
    case True
    from publish_trace_events [OF 2(3) True] show ?thesis by auto
  next
    case False
    with 2(2) assms(2) show ?thesis by auto
  qed
next
  case 3
  from publish_trace_events [OF 3(2) assms(2)] show ?thesis by auto
qed

lemma resolve_trace_steps: "resolve_trace L b b' r es \<Longrightarrow> list_all bucket_step es"
  by (auto simp: resolve_trace_def new_bucket_trace_def existing_bucket_trace_def Let_def
      list_all_iff split: option.splits)

lemma settle_trace_steps: "settle_trace L R b r b' out es \<Longrightarrow> list_all bucket_step es"
  unfolding list_all_iff
  by (cases "(L, R, b, r, b', out, es)" rule: settle_trace.cases)
    (auto dest!: configure_trace_events)

lemma reconcile_trace_steps: "reconcile_trace L R b b' out es \<Longrightarrow> list_all bucket_step es"
  unfolding reconcile_trace_def using resolve_trace_steps settle_trace_steps by fastforce

lemma finish_trace_events:
  "finish_trace L K orig b result err out es \<Longrightarrow> e \<in> set es \<Longrightarrow>
     \<exists>p. e = PatchBucketStatus (updateBucketReadyCondition L b) p \<and> es = [e]"
  by (auto simp: finish_trace_def Let_def)

section \<open>What a reconcile leaves of the bucket\<close>

lemma updateBucketReady_frame:
  "b_Meta (updateBucketReadyCondition L b) = b_Meta b"
  "b_Spec (updateBucketReadyCondition L b) = b_Spec b"
  "bst_BucketID (b_Status (updateBucketReadyCondition L b)) = bst_BucketID (b_Status b)"
  "bst_BucketName (b_Status (updateBucketReadyCondition L b)) = bst_BucketName (b_Status b)"
  by (auto simp: updateBucketReadyCondition_def Let_def split: option.splits)

text \<open>The status a run leaves the resource with: the patched one, or the stored one.\<close>

fun reported_status :: "BucketStatus \<Rightarrow> ctrl_event list \<Rightarrow> BucketStatus" where
  "reported_status st [] = st"
| "reported_status st (PatchBucketStatus b p # es) = b_Status b"
| "reported_status st (e # es) = reported_status st es"

lemma reported_status_steps:
  "list_all bucket_step es \<Longrightarrow> reported_status st (es @ fs) = reported_status st fs"
proof (induction es)
  case (Cons e es)
  then show ?case by (cases e) auto
qed simp

lemma reported_status_finish:
  assumes "status_eq_laws K" and "finish_trace L K orig b result err out es"
  shows "reported_status orig es = b_Status (updateBucketReadyCondition L b)"
  using assms by (auto simp: finish_trace_def status_eq_laws_def Let_def)

lemma finish_outcome:
  assumes "finish_trace L K orig b result err out es"
  shows "out = Returned result err \<or>
    (\<exists>b' e err'. es = [PatchBucketStatus b' (Some e)] \<and> out = Returned no_requeue err')"
proof -
  from assms show ?thesis
    unfolding finish_trace_def Let_def using patched_outcome_cases [of L result err] by metis
qed

lemma publish_outcome: "publish_trace L b b' out es \<Longrightarrow> \<exists>err. out = Returned no_requeue err"
proof -
  assume "publish_trace L b b' out es"
  then obtain err rest where "publish_end L b err out rest" by (auto simp: publish_trace_def)
  then show ?thesis by (cases err) auto
qed

lemma configure_outcome:
  assumes "configure_trace L b s y b' out es"
  shows "\<exists>err. out = Returned no_requeue err"
proof (cases rule: configure_traceE [OF assms])
  case (2 rest)
  then show ?thesis by (simp add: publish_outcome)
qed (auto dest: publish_outcome)

end
