(* ===== verification/Instances.thy ===== *)
theory Instances
  imports KubeClient Conditions
begin

text \<open>
  A concrete library and a concrete cluster that satisfy the laws the theorems assume.  They
  show that the assumptions can hold together, and the witnesses evaluate the model on them.
  Nothing in the model of the code depends on this theory.
\<close>

section \<open>The libraries\<close>

definition find_cond :: "condition list \<Rightarrow> string \<Rightarrow> condition option" where
  "find_cond cs t = List.find (\<lambda>c. c_Type c = t) cs"

definition merge_cond :: "condition \<Rightarrow> condition \<Rightarrow> condition" where
  "merge_cond d c =
     (if c_Status d = c_Status c then c\<lparr>c_LastTransitionTime := c_LastTransitionTime d\<rparr> else c)"

fun set_cond :: "condition list \<Rightarrow> condition \<Rightarrow> condition list" where
  "set_cond [] c = [c]"
| "set_cond (d # ds) c =
     (if c_Type d = c_Type c then merge_cond d c # ds else d # set_cond ds c)"

fun has_reason :: "string \<Rightarrow> error \<Rightarrow> bool" where
  "has_reason r (Sentinel s) = False"
| "has_reason r (ErrorString m) = False"
| "has_reason r (APIError r' m) = (r' = r)"
| "has_reason r (Wrapped m es) = list_ex (has_reason r) es"
| "has_reason r (Joined es) = list_ex (has_reason r) es"

definition controlled_by :: "objmeta \<Rightarrow> objmeta \<Rightarrow> bool" where
  "controlled_by m o' = list_ex (\<lambda>r. or_Controller r \<and> or_UID r = m_UID o') (m_OwnerReferences m)"

definition set_controller :: "objmeta \<Rightarrow> objmeta \<Rightarrow> error + objmeta" where
  "set_controller o' m =
     (if list_ex (\<lambda>r. or_Controller r \<and> or_UID r \<noteq> m_UID o') (m_OwnerReferences m)
      then Inl (ErrorString ''already owned by another controller'')
      else Inr (m\<lparr>m_OwnerReferences :=
        m_OwnerReferences m @
          [\<lparr>or_Kind = [], or_Name = m_Name o', or_UID = m_UID o', or_Controller = True\<rparr>]\<rparr>))"

definition digits_value :: "string \<Rightarrow> int64" where
  "digits_value s = fold (\<lambda>c n. 10 * n + (of_char c - 48)) s 0"

definition plain_lib :: lib where
  "plain_lib =
     \<lparr>FindStatusCondition = find_cond, SetStatusCondition = set_cond,
      IsNotFound = has_reason ''NotFound'', IsForbidden = has_reason ''Forbidden'',
      IsConflict = has_reason ''Conflict'',
      IsControlledBy = controlled_by, SetControllerReference = set_controller,
      ContainsFinalizer = (\<lambda>m f. list_ex (\<lambda>g. g = f) (m_Finalizers m)),
      AddFinalizer = (\<lambda>m f. m\<lparr>m_Finalizers := m_Finalizers m @ [f]\<rparr>),
      RemoveFinalizer = (\<lambda>m f. m\<lparr>m_Finalizers := removeAll f (m_Finalizers m)\<rparr>),
      QuantityValue = digits_value, FormatMeta = m_Name\<rparr>"

lemma plain_lib_sel [simp]:
  "FindStatusCondition plain_lib = find_cond" "SetStatusCondition plain_lib = set_cond"
  "IsNotFound plain_lib = has_reason ''NotFound''"
  "IsForbidden plain_lib = has_reason ''Forbidden''"
  "IsConflict plain_lib = has_reason ''Conflict''"
  "IsControlledBy plain_lib = controlled_by"
  "SetControllerReference plain_lib = set_controller"
  "ContainsFinalizer plain_lib m f = list_ex (\<lambda>g. g = f) (m_Finalizers m)"
  "AddFinalizer plain_lib m f = m\<lparr>m_Finalizers := m_Finalizers m @ [f]\<rparr>"
  "RemoveFinalizer plain_lib m f = m\<lparr>m_Finalizers := removeAll f (m_Finalizers m)\<rparr>"
  "QuantityValue plain_lib = digits_value" "FormatMeta plain_lib = m_Name"
  by (simp_all add: plain_lib_def)

lemma find_cond_Cons [simp]:
  "find_cond [] t = None"
  "find_cond (c # cs) t = (if c_Type c = t then Some c else find_cond cs t)"
  by (simp_all add: find_cond_def)

lemma merge_cond_simps [simp]:
  "c_Type (merge_cond d c) = c_Type c" "same_condition (merge_cond d c) c"
  by (simp_all add: merge_cond_def same_condition_def)

lemma same_condition_refl: "same_condition c c"
  by (simp add: same_condition_def)

lemma merge_cond_same: "same_condition d c \<Longrightarrow> merge_cond d c = d"
  by (cases d; cases c) (simp add: merge_cond_def same_condition_def)

lemma plain_lib_cond_laws: "cond_laws plain_lib"
proof -
  have "\<exists>d. find_cond (set_cond cs c) (c_Type c) = Some d \<and> same_condition d c" for cs c
    by (induction cs) (auto simp: same_condition_refl)
  moreover have "find_cond (set_cond cs c) t = find_cond cs t" if "t \<noteq> c_Type c" for cs c t
    using that by (induction cs) auto
  moreover have "set_cond cs c = cs"
    if "find_cond cs (c_Type c) = Some d" "same_condition d c" for cs c d
    using that by (induction cs) (auto simp: merge_cond_same split: if_splits)
  moreover have "c_Type d = t" if "find_cond cs t = Some d" for cs t d
    using that by (induction cs) (auto split: if_splits)
  ultimately show ?thesis
    unfolding cond_laws_def plain_lib_sel by blast
qed

lemma has_reason_test: "reason_test r (has_reason r)"
  by (auto simp: reason_test_def list_ex_iff neq_Nil_conv)

lemma has_reason_wrap [simp]: "has_reason r (wrap m e) = has_reason r e"
  by (simp add: wrap_def)

lemma plain_lib_error_laws: "error_laws plain_lib"
  by (simp add: error_laws_def has_reason_test)

lemma plain_lib_finalizer_laws: "finalizer_laws plain_lib"
  unfolding finalizer_laws_def
proof (intro conjI allI, goal_cases)
  case (1 m f) show ?case by (simp add: list_ex_iff)
next
  case (2 m f) show ?case by (intro exI [of _ "m_Finalizers m @ [f]"]) simp
next
  case (3 m f) show ?case by (intro exI [of _ "removeAll f (m_Finalizers m)"]) simp
qed

lemma plain_lib_owner_laws: "owner_laws plain_lib"
proof -
  have "controlled_by m' o' \<and> (\<exists>rs. m' = m\<lparr>m_OwnerReferences := rs\<rparr>)"
    if "set_controller o' m = Inr m'" for o' m m'
    using that by (auto simp: set_controller_def controlled_by_def split: if_splits)
  then show ?thesis
    by (auto simp: owner_laws_def controlled_by_def list_ex_iff)
qed

section \<open>A cluster\<close>

text \<open>It answers every read of a custom resource with the object it was built with, and
  keeps ConfigMaps and Secrets in a store.\<close>

record store =
  st_ConfigMaps :: "nsname \<Rightarrow> configmap option"
  st_Secrets :: "nsname \<Rightarrow> secret option"

definition empty_store :: store where
  "empty_store = \<lparr>st_ConfigMaps = (\<lambda>k. None), st_Secrets = (\<lambda>k. None)\<rparr>"

text \<open>What the API server stores has a UID and sits under its own name.\<close>

definition valid_view :: "('o \<Rightarrow> objmeta) \<Rightarrow> (nsname \<Rightarrow> 'o option) \<Rightarrow> nsname \<Rightarrow> 'o option" where
  "valid_view meta st k = (case st k of
     None \<Rightarrow> None
   | Some o' \<Rightarrow> if m_UID (meta o') \<noteq> [] \<and> k = (m_Namespace (meta o'), m_Name (meta o'))
               then Some o' else None)"

definition create_or_update ::
  "('o \<Rightarrow> objmeta) \<Rightarrow> (objmeta \<Rightarrow> 'o \<Rightarrow> 'o) \<Rightarrow> 'o \<Rightarrow> ('o \<Rightarrow> error + 'o) \<Rightarrow> (nsname \<Rightarrow> 'o option) \<Rightarrow>
     (op_result \<times> error option) \<times> (nsname \<Rightarrow> 'o option)" where
  "create_or_update meta set_meta o' f st =
    (let k = (m_Namespace (meta o'), m_Name (meta o'));
         cur = valid_view meta st k;
         base = (case cur of None \<Rightarrow> o' | Some c \<Rightarrow> c)
     in case f base of
          Inl e \<Rightarrow> ((OperationResultNone, Some e), st)
        | Inr new \<Rightarrow>
            if (m_Namespace (meta new), m_Name (meta new)) \<noteq> k
            then ((OperationResultNone, Some (ErrorString ''name changed'')), st)
            else ((if cur = None then OperationResultCreated else OperationResultUpdated, None),
                  st(k \<mapsto> set_meta ((meta new)\<lparr>m_UID := ''uid''\<rparr>) new)))"

lemma create_or_update_lawful:
  assumes "\<And>m x. meta (set_meta m x) = m" and "\<And>m x. payload (set_meta m x) = payload x"
    and "\<And>s. view s = valid_view meta (st s)"
    and "\<And>x f s. op x f s =
      (case create_or_update meta set_meta x f (st s) of (r, t) \<Rightarrow> (r, upd t s))"
    and "\<And>t s. st (upd t s) = t"
  shows "create_or_update_laws meta payload view op"
proof -
  have stored: "m_UID (meta y) \<noteq> [] \<and> k = (m_Namespace (meta y), m_Name (meta y))"
    if "view s k = Some y" for s k y
    using that by (auto simp: assms(3) valid_view_def split: option.splits if_splits)
  have step: "(\<forall>k'. k' \<noteq> k \<longrightarrow> view s' k' = view s k') \<and> (view s' k = view s k \<or> stored) \<and>
      (err = None \<longrightarrow> stored) \<and> (\<forall>e. f base = Inl e \<longrightarrow> view s' k = view s k \<and> err \<noteq> None)"
    if op: "op x f s = ((res, err), s')" and k: "k = (m_Namespace (meta x), m_Name (meta x))"
      and base: "base = (case view s k of None \<Rightarrow> x | Some cur \<Rightarrow> cur)"
      and stored_def: "stored = (\<exists>new y. f base = Inr new \<and> view s' k = Some y \<and>
        same_meta (meta y) (meta new) \<and> payload y = payload new)"
    for x f s res err s' k base stored
  proof (cases "f base")
    case (Inl e)
    then have "s' = upd (st s) s" "err = Some e"
      using op base k by (auto simp: assms(3,4) create_or_update_def Let_def)
    then have "view s' = view s" by (simp add: assms(3,5))
    with Inl \<open>err = Some e\<close> show ?thesis by simp
  next
    case (Inr new)
    show ?thesis
    proof (cases "(m_Namespace (meta new), m_Name (meta new)) = k")
      case False
      then have "s' = upd (st s) s" "err \<noteq> None"
        using op base k Inr by (auto simp: assms(3,4) create_or_update_def Let_def)
      then have "view s' = view s" by (simp add: assms(3,5))
      with Inr \<open>err \<noteq> None\<close> show ?thesis by auto
    next
      case True
      let ?y = "set_meta ((meta new)\<lparr>m_UID := ''uid''\<rparr>) new"
      have s': "s' = upd ((st s)(k \<mapsto> ?y)) s"
        using op base k Inr True by (auto simp: assms(3,4) create_or_update_def Let_def)
      have at: "view s' k = Some ?y"
        using True by (auto simp: s' assms(1,3,5) valid_view_def)
      have off: "view s' k' = view s k'" if "k' \<noteq> k" for k'
        using that by (simp add: s' assms(3,5) valid_view_def)
      have "stored"
        unfolding stored_def using Inr at
        by (intro exI [of _ new] exI [of _ ?y]) (simp add: same_meta_def assms(1,2))
      with off Inr show ?thesis by simp
    qed
  qed
  show ?thesis
    unfolding create_or_update_laws_def Let_def
    by (rule conjI; intro allI impI)
      (rule stored, assumption, rule step [OF _ refl refl refl], assumption)
qed

definition store_kube :: "Bucket \<Rightarrow> AccessKey \<Rightarrow> AccessPolicy \<Rightarrow> store kube" where
  "store_kube b k a =
     \<lparr>kGetBucket = (\<lambda>n s. (Inr b, s)), kGetAccessKey = (\<lambda>n s. (Inr k, s)),
      kGetAccessPolicy = (\<lambda>n s. (Inr a, s)),
      kGetSecret = (\<lambda>n s. (case valid_view s_Meta (st_Secrets s) n of
         None \<Rightarrow> Inl (APIError ''NotFound'' ''secret'') | Some x \<Rightarrow> Inr x, s)),
      kPatchBucketStatus = (\<lambda>x s. (None, s)), kPatchAccessKey = (\<lambda>x y s. (Inr y, s)),
      kUpdateAccessKey = (\<lambda>x s. (None, s)), kUpdateAccessKeyStatus = (\<lambda>x s. (None, s)),
      kUpdateAccessPolicy = (\<lambda>x s. (None, s)), kPatchAccessPolicyStatus = (\<lambda>x s. (None, s)),
      kCreateOrUpdateConfigMap = (\<lambda>x f s.
        case create_or_update cm_Meta (\<lambda>m y. y\<lparr>cm_Meta := m\<rparr>) x f (st_ConfigMaps s) of
          (r, t) \<Rightarrow> (r, s\<lparr>st_ConfigMaps := t\<rparr>)),
      kCreateOrUpdateSecret = (\<lambda>x f s.
        case create_or_update s_Meta (\<lambda>m y. y\<lparr>s_Meta := m\<rparr>) x f (st_Secrets s) of
          (r, t) \<Rightarrow> (r, s\<lparr>st_Secrets := t\<rparr>)),
      kListConfigMaps = (\<lambda>ns sel s. (Inr [], s)),
      kListAccessPolicies = (\<lambda>ns sel s. (Inr [a], s)),
      kDeleteConfigMap = (\<lambda>x s. (None, s)), kDeleteSecret = (\<lambda>x s. (None, s)),
      clockSince = (\<lambda>t s. (0, s)),
      BucketStatusEqual = (\<lambda>s t. s = t), AccessKeyStatusEqual = (\<lambda>s t. s = t),
      AccessPolicyStatusEqual = (\<lambda>s t. s = t)\<rparr>"

lemma store_kube_status_eq: "status_eq_laws (store_kube b k a)"
  by (simp add: status_eq_laws_def store_kube_def)

lemma store_kube_configmaps:
  "create_or_update_laws cm_Meta cm_Data (\<lambda>s. valid_view cm_Meta (st_ConfigMaps s))
     (kCreateOrUpdateConfigMap (store_kube b k a))"
  by (rule create_or_update_lawful [where st = st_ConfigMaps and
        upd = "\<lambda>t s. s\<lparr>st_ConfigMaps := t\<rparr>" and set_meta = "\<lambda>m y. y\<lparr>cm_Meta := m\<rparr>"])
    (simp_all add: store_kube_def)

lemma store_kube_secrets:
  "create_or_update_laws s_Meta s_Data (\<lambda>s. valid_view s_Meta (st_Secrets s))
     (kCreateOrUpdateSecret (store_kube b k a))"
  by (rule create_or_update_lawful [where st = st_Secrets and
        upd = "\<lambda>t s. s\<lparr>st_Secrets := t\<rparr>" and set_meta = "\<lambda>m y. y\<lparr>s_Meta := m\<rparr>"])
    (simp_all add: store_kube_def)

lemma store_kube_reads_secrets:
  "read_laws plain_lib (\<lambda>s. valid_view s_Meta (st_Secrets s)) (kGetSecret (store_kube b k a))"
  by (auto simp: read_laws_def store_kube_def split: option.splits)

end
