(* ===== verification/BucketExample.thy ===== *)
theory BucketExample
  imports BucketTrace Instances
begin

text \<open>
  Concrete runs of the Bucket reconciler, on which the witnesses of its properties rest: an
  imported bucket whose owner is confirmed, one whose secret is missing, a new bucket, and a
  clean-up.  \<open>mute_lib\<close> is \<open>plain_lib\<close> without conditions, for the runs in which they do not
  matter.
\<close>

definition mute_lib :: lib where
  "mute_lib = plain_lib\<lparr>FindStatusCondition := \<lambda>cs t. None, SetStatusCondition := \<lambda>cs c. cs\<rparr>"

lemma b_set_conditions_same [simp]: "b_set_conditions (b_Conditions b) b = b"
  by (simp add: b_set_conditions_def)

lemma mute_init [simp]: "initResourceConditions mute_lib ts cs = cs"
  by (induction ts) (simp_all add: mute_lib_def)

lemma mute_mark [simp]:
  "markBucketNotReady mute_lib b r m = b" "markBucketReady mute_lib b = b"
  "updateBucketCMCondition mute_lib b s r m = b" "initializeBucketConditions mute_lib b = b"
  "updateBucketReadyCondition mute_lib b = b"
  by (simp_all add: markBucketNotReady_def markNotReady_def markBucketReady_def
      updateBucketCMCondition_def initializeBucketConditions_def updateBucketReadyCondition_def)
    (simp_all add: mute_lib_def)

lemma mute_sel [simp]:
  "IsControlledBy mute_lib = controlled_by" "SetControllerReference mute_lib = set_controller"
  "QuantityValue mute_lib = digits_value" "IsNotFound mute_lib = has_reason ''NotFound''"
  "IsForbidden mute_lib = has_reason ''Forbidden''"
  by (simp_all add: mute_lib_def)

section \<open>The objects\<close>

definition ex_meta :: objmeta where
  "ex_meta = (new_meta ''photos'' ''default'')\<lparr>m_UID := ''uid'', m_Generation := 1\<rparr>"

definition ex_spec :: ExistingBucketSpec where
  "ex_spec = \<lparr>eb_Name = ''old'', eb_OwnerKeySecret = ''owner''\<rparr>"

definition ex_import :: Bucket where
  "ex_import = \<lparr>b_Meta = ex_meta,
     b_Spec = \<lparr>bs_Name = [], bs_ExistingBucket = Some ex_spec, bs_MaxSize = ''0'',
       bs_MaxObjects = 5, bs_ConfigMapName = []\<rparr>,
     b_Status = \<lparr>bst_ObservedGeneration = 0, bst_Conditions = [], bst_BucketID = [],
       bst_BucketName = [], bst_LastSync = None\<rparr>\<rparr>"

definition ex_new :: Bucket where
  "ex_new = ex_import\<lparr>b_Spec :=
     (b_Spec ex_import)\<lparr>bs_Name := ''photos'', bs_ExistingBucket := None\<rparr>\<rparr>"

definition ex_secret :: secret where
  "ex_secret = \<lparr>s_Meta = (new_meta ''owner'' ''default'')\<lparr>m_UID := ''s''\<rparr>, s_Type = [],
     s_Data = [SecretKeyAccessKeyID \<mapsto> ''GK1'']\<rparr>"

definition ex_key :: AccessKey where
  "ex_key = \<lparr>k_Meta = ex_meta, k_Spec = \<lparr>ks_SecretName = ''creds''\<rparr>,
     k_Status = \<lparr>kst_Conditions = [], kst_ObservedGeneration = 0, kst_AccessKeyID = [],
       kst_SecretName = []\<rparr>\<rparr>"

definition ex_policy :: AccessPolicy where
  "ex_policy = \<lparr>a_Meta = ex_meta,
     a_Spec = \<lparr>ps_AccessKey = ''key'', ps_Bucket = ''photos'',
       ps_Permissions = \<lparr>perm_Read = True, perm_Write = False, perm_Owner = False\<rparr>\<rparr>,
     a_Status = \<lparr>pst_Conditions = [], pst_ObservedGeneration = 0, pst_BucketID = [],
       pst_AccessKeyID = []\<rparr>\<rparr>"

definition ex_kube :: "Bucket \<Rightarrow> store kube" where
  "ex_kube b = store_kube b ex_key ex_policy"

definition empty_world :: "store cworld" where
  "empty_world = \<lparr>ext = empty_store, log = []\<rparr>"

definition ex_world :: "store cworld" where
  "ex_world =
     \<lparr>ext = empty_store\<lparr>st_Secrets := [(''default'', ''owner'') \<mapsto> ex_secret]\<rparr>, log = []\<rparr>"

definition ex_s3 :: s3_bucket where
  "ex_s3 = zero_bucket\<lparr>sb_ID := ''id1''\<rparr>"

definition ex_owner :: s3_permissions where
  "ex_owner = \<lparr>p_Owner = True, p_Read = True, p_Write = True\<rparr>"

definition ex_create :: "string \<Rightarrow> store \<Rightarrow> (error + s3_bucket) \<times> store" where
  "ex_create a s = (Inr ex_s3, s)"

definition ex_get :: "string \<Rightarrow> store \<Rightarrow> (error + s3_bucket) \<times> store" where
  "ex_get a s = (if a = ''old'' then Inr ex_s3 else Inl (Sentinel ErrResourceNotFound), s)"

definition ex_update :: "string \<Rightarrow> s3_quotas \<Rightarrow> store \<Rightarrow> error option \<times> store" where
  "ex_update i q s = (None, s)"

definition ex_permissions :: "string \<Rightarrow> string \<Rightarrow> store \<Rightarrow> (error + s3_permissions) \<times> store" where
  "ex_permissions k b s = (Inr ex_owner, s)"

definition ex_reconciler :: "store BucketReconciler" where
  "ex_reconciler =
     NewBucketReconciler ex_create ex_get ex_update ''http://s3'' ex_permissions"

definition ex_req :: nsname where "ex_req = (''default'', ''photos'')"

lemma ex_sel [simp]:
  "kGetBucket (ex_kube b) n s = (Inr b, s)"
  "BucketStatusEqual (ex_kube b) x y = (x = y)"
  "bucket_Get ex_reconciler = ex_get" "bucket_Create ex_reconciler = ex_create"
  "bucket_Update ex_reconciler = ex_update"
  "ownership_GetPermissions ex_reconciler = ex_permissions"
  "s3APIEndpoint ex_reconciler = ''http://s3''"
  "baseInterval ex_reconciler = baseRequeueInterval"
  by (simp_all add: ex_kube_def store_kube_def ex_reconciler_def NewBucketReconciler_def)

lemma ex_meta_sel [simp]:
  "m_Name ex_meta = ''photos''" "m_Namespace ex_meta = ''default''" "m_UID ex_meta = ''uid''"
  "m_CreationTimestamp ex_meta = 0" "m_Labels ex_meta = None"
  by (simp_all add: ex_meta_def new_meta_def)

lemma ex_import_sel [simp]:
  "b_Meta ex_import = ex_meta" "bs_ExistingBucket (b_Spec ex_import) = Some ex_spec"
  "bst_BucketID (b_Status ex_import) = []" "bst_BucketName (b_Status ex_import) = []"
  "bs_ConfigMapName (b_Spec ex_import) = []"
  "b_Meta ex_new = ex_meta" "bs_ExistingBucket (b_Spec ex_new) = None"
  "bs_Name (b_Spec ex_new) = ''photos''"
  by (simp_all add: ex_import_def ex_new_def)

section \<open>The runs\<close>

definition ex_quotas :: s3_quotas where
  "ex_quotas = \<lparr>q_MaxObjects = 5, q_MaxSize = 0\<rparr>"

definition ex_evidence :: "ctrl_event list" where
  "ex_evidence = [GetSecret (''default'', ''owner'') (Inr ex_secret), BucketGet ''old'' (Inr ex_s3),
     OwnershipGet ''GK1'' ''id1'' (Inr ex_owner)]"

lemma ex_differs:
  "compareSpec mute_lib ex_s3 (b_Spec ex_import)"
  "spec_quotas mute_lib (b_Spec ex_import) = ex_quotas" "sb_ID ex_s3 = ''id1''"
  by (simp_all add: compareSpec_def ex_s3_def zero_bucket_def zero_quotas_def ex_import_def
      spec_quotas_def ex_quotas_def digits_value_def)

lemma ex_get_secret:
  "kGetSecret (ex_kube b) (''default'', ''owner'') (ext ex_world) = (Inr ex_secret, ext ex_world)"
  by (simp add: ex_kube_def store_kube_def valid_view_def ex_world_def ex_secret_def new_meta_def)

lemma ex_resolve:
  "ext w = ext ex_world \<Longrightarrow>
     run_state (resolveExistingBucket L (ex_kube ex_import) ex_reconciler ex_spec ex_import) w =
       ((ex_import, Inr (ex_s3, ''old'')), w\<lparr>log := log w @ ex_evidence\<rparr>)"
  by (cases w) (simp add: run_eval resolveExistingBucket_def verifyOwnership_def ex_spec_def
      ex_evidence_def ex_get_secret ex_get_def ex_permissions_def ex_owner_def Let_def
      ex_secret_def map_get_def ex_differs(3))

lemma ex_configure:
  obtains es where "log (snd (run_state (configureBucket mute_lib (ex_kube ex_import)
      ex_reconciler ex_import ex_s3 ''old'') w)) = log w @ BucketUpdate ''id1'' ex_quotas None # es"
proof -
  obtain es where "log (snd (run_state (publishBucket mute_lib (ex_kube ex_import) ex_reconciler
      (fill_identity ex_s3 ''old'' ex_import))
      (w\<lparr>log := log w @ [BucketUpdate ''id1'' ex_quotas None]\<rparr>))) =
    log (w\<lparr>log := log w @ [BucketUpdate ''id1'' ex_quotas None]\<rparr>) @ es"
    by (rule produces_log [OF publishBucket_trace])
  then show thesis
    by (intro that [of es])
      (simp add: configureBucket_def run_eval Let_def ex_differs ex_update_def fill_identity_def)
qed

lemma ex_import_events:
  obtains post where
    "run_events (BucketReconciler_Reconcile mute_lib (ex_kube ex_import) ex_reconciler ex_req)
       ex_world = GetBucket ex_req (Inr ex_import) # ex_evidence @
         BucketUpdate ''id1'' ex_quotas None # post"
proof -
  let ?w = "ex_world\<lparr>ext := ext ex_world, log := log ex_world @ [GetBucket ex_req (Inr ex_import)]\<rparr>"
  obtain es where "log (snd (run_state (configureBucket mute_lib (ex_kube ex_import)
      ex_reconciler ex_import ex_s3 ''old'') (?w\<lparr>log := log ?w @ ex_evidence\<rparr>))) =
    log (?w\<lparr>log := log ?w @ ex_evidence\<rparr>) @ BucketUpdate ''id1'' ex_quotas None # es"
    by (rule ex_configure)
  then have "log (snd (run_state (reconcileBucket mute_lib (ex_kube ex_import) ex_reconciler
      (initializeBucketConditions mute_lib ex_import)) ?w)) =
    log ?w @ ex_evidence @ BucketUpdate ''id1'' ex_quotas None # es"
    by (simp add: reconcileBucket_def run_eval ex_resolve)
  moreover obtain fs where "log (snd (run_state (BucketReconciler_Reconcile mute_lib
      (ex_kube ex_import) ex_reconciler ex_req) ex_world)) =
    log (snd (run_state (reconcileBucket mute_lib (ex_kube ex_import) ex_reconciler
      (initializeBucketConditions mute_lib ex_import)) ?w)) @ fs"
    by (rule Reconcile_log [of "ex_kube ex_import" ex_req ex_world]) simp
  ultimately show thesis
    by (intro that [of "es @ fs"]) (simp add: run_events_def new_events_def ex_world_def)
qed

text \<open>A new bucket is looked up, found missing and created.\<close>

lemma ex_new_events:
  obtains post where
    "run_events (BucketReconciler_Reconcile mute_lib (ex_kube ex_new) ex_reconciler ex_req)
       empty_world =
     [GetBucket ex_req (Inr ex_new),
      BucketGet (suffixedResourceName ''photos'' ex_meta) (Inl (Sentinel ErrResourceNotFound))] @
     BucketCreate (suffixedResourceName ''photos'' ex_meta) (Inr ex_s3) # post"
proof -
  let ?a = "suffixedResourceName ''photos'' ex_meta"
  define w where "w = empty_world\<lparr>ext := ext empty_world,
    log := log empty_world @ [GetBucket ex_req (Inr ex_new)]\<rparr>"
  have "?a \<noteq> ''old''"
    by (simp add: suffixedResourceName_def)
  then have res: "run_state (resolveNewBucket mute_lib ex_reconciler ex_new) w =
      ((ex_new, Inr (ex_s3, ?a)), w\<lparr>log := log w @
        [BucketGet ?a (Inl (Sentinel ErrResourceNotFound)), BucketCreate ?a (Inr ex_s3),
         Eventf EventTypeNormal ReasonBucketCreated (''Created Garage bucket '' @ quote ?a)]\<rparr>)"
    by (simp add: resolveNewBucket_def run_eval Let_def ex_get_def ex_create_def)
  obtain es where "log (snd (run_state (configureBucket mute_lib (ex_kube ex_new) ex_reconciler
      ex_new ex_s3 ?a) (snd (run_state (resolveNewBucket mute_lib ex_reconciler ex_new) w)))) =
    log (snd (run_state (resolveNewBucket mute_lib ex_reconciler ex_new) w)) @ es"
    by (rule produces_log [OF configureBucket_trace])
  then have "log (snd (run_state (reconcileBucket mute_lib (ex_kube ex_new) ex_reconciler
      (initializeBucketConditions mute_lib ex_new)) w)) =
    log (snd (run_state (resolveNewBucket mute_lib ex_reconciler ex_new) w)) @ es"
    by (simp add: reconcileBucket_def run_eval res)
  moreover obtain fs where "log (snd (run_state (BucketReconciler_Reconcile mute_lib
      (ex_kube ex_new) ex_reconciler ex_req) empty_world)) =
    log (snd (run_state (reconcileBucket mute_lib (ex_kube ex_new) ex_reconciler
      (initializeBucketConditions mute_lib ex_new)) w)) @ fs"
    unfolding w_def by (rule Reconcile_log [of "ex_kube ex_new" ex_req empty_world]) simp
  moreover have "log (snd (run_state (resolveNewBucket mute_lib ex_reconciler ex_new) w)) =
      [GetBucket ex_req (Inr ex_new), BucketGet ?a (Inl (Sentinel ErrResourceNotFound)),
       BucketCreate ?a (Inr ex_s3),
       Eventf EventTypeNormal ReasonBucketCreated (''Created Garage bucket '' @ quote ?a)]"
    by (simp add: res) (simp add: w_def empty_world_def)
  ultimately show thesis
    by (intro that) (simp add: run_events_def new_events_def empty_world_def)
qed

text \<open>An imported bucket whose owner's secret is missing.\<close>

definition ex_missing :: error where
  "ex_missing = APIError ''NotFound'' ''secret''"

lemma ex_missing_events:
  "run_events (BucketReconciler_Reconcile mute_lib (ex_kube ex_import) ex_reconciler ex_req)
     empty_world = [GetBucket ex_req (Inr ex_import), GetSecret (''default'', ''owner'') (Inl ex_missing)]"
proof -
  let ?w = "empty_world\<lparr>log := [GetBucket ex_req (Inr ex_import)]\<rparr>"
  have "kGetSecret (ex_kube b) n (ext ?w) = (Inl ex_missing, ext ?w)" for b n
    by (simp add: ex_kube_def store_kube_def valid_view_def empty_world_def empty_store_def
        ex_missing_def)
  then have "run_state (resolveExistingBucket mute_lib (ex_kube ex_import) ex_reconciler ex_spec
      ex_import) ?w = ((ex_import, Inl (wrap ''get owner key secret: '' ex_missing)),
      ?w\<lparr>log := log ?w @ [GetSecret (''default'', ''owner'') (Inl ex_missing)]\<rparr>)"
    by (simp add: resolveExistingBucket_def run_eval Let_def ex_spec_def ex_missing_def)
  moreover obtain d where "ownerSecretBackoff (fst (clockSince (ex_kube ex_import) t s))
      baseRequeueInterval maxRequeueInterval = Some d" for t s
    using controller_backoff [of 0] by (auto simp: ex_kube_def store_kube_def)
  ultimately show ?thesis
    by (simp add: run_events_def new_events_def BucketReconciler_Reconcile_def reconcileBucket_def
        run_eval Let_def empty_world_def finishBucket_def)
qed

text \<open>A clean-up: the list answers with an old ConfigMap of the bucket.\<close>

definition ex_stale :: configmap where
  "ex_stale = \<lparr>cm_Meta = (new_meta ''before'' ''default'')\<lparr>m_UID := ''c'', m_OwnerReferences :=
       [\<lparr>or_Kind = ''Bucket'', or_Name = ''photos'', or_UID = ''uid'', or_Controller = True\<rparr>]\<rparr>,
     cm_Data = Map.empty\<rparr>"

definition clean_kube :: "store kube" where
  "clean_kube = (ex_kube ex_import)
     \<lparr>kCreateOrUpdateConfigMap := \<lambda>x f s. ((OperationResultUpdated, None), s),
      kListConfigMaps := \<lambda>ns sel s. (Inr [ex_stale], s)\<rparr>"

lemma clean_kube_sel [simp]:
  "kGetBucket clean_kube n s = (Inr ex_import, s)"
  "kCreateOrUpdateConfigMap clean_kube x f s = ((OperationResultUpdated, None), s)"
  "kListConfigMaps clean_kube ns sel s = (Inr [ex_stale], s)"
  "kDeleteConfigMap clean_kube x s = (None, s)"
  "kGetSecret clean_kube = kGetSecret (ex_kube ex_import)"
  by (simp_all add: clean_kube_def ex_kube_def store_kube_def)

lemma clean_resolve:
  "resolveExistingBucket L clean_kube R spec b = resolveExistingBucket L (ex_kube ex_import) R spec b"
  by (simp add: resolveExistingBucket_def)

lemma clean_publish:
  assumes "b_Meta b = ex_meta" and "bs_ConfigMapName (b_Spec b) = []"
  shows "run_state (publishBucket mute_lib clean_kube R b) w =
    ((b, Returned no_requeue None), w\<lparr>log := log w @
      [CreateOrUpdateConfigMap (own_configmap b) (OperationResultUpdated, None),
       ListConfigMaps ''default'' (stale_selector b) (Inr [ex_stale]),
       DeleteConfigMap ex_stale None]\<rparr>)"
  using assms
  by (cases w) (simp add: publishBucket_def ensureConfigMap_def deleteStaleConfigMap_def run_eval
      Let_def own_configmap_def desiredConfigMapName_def stale_selector_def ex_stale_def
      controlled_by_def new_meta_def)

lemma ex_clean_events:
  obtains post where
    "run_events (BucketReconciler_Reconcile mute_lib clean_kube ex_reconciler ex_req) ex_world =
       GetBucket ex_req (Inr ex_import) # (ex_evidence @ [BucketUpdate ''id1'' ex_quotas None,
         CreateOrUpdateConfigMap (own_configmap ex_import) (OperationResultUpdated, None),
         ListConfigMaps ''default'' (stale_selector ex_import) (Inr [ex_stale])]) @
       DeleteConfigMap ex_stale None # post"
proof -
  let ?w = "ex_world\<lparr>ext := ext ex_world, log := log ex_world @ [GetBucket ex_req (Inr ex_import)]\<rparr>"
  have "log (snd (run_state (reconcileBucket mute_lib clean_kube ex_reconciler
      (initializeBucketConditions mute_lib ex_import)) ?w)) =
    log ?w @ ex_evidence @ [BucketUpdate ''id1'' ex_quotas None,
         CreateOrUpdateConfigMap (own_configmap ex_import) (OperationResultUpdated, None),
         ListConfigMaps ''default'' (stale_selector ex_import) (Inr [ex_stale]),
         DeleteConfigMap ex_stale None]"
    by (simp add: reconcileBucket_def run_eval clean_resolve ex_resolve configureBucket_def Let_def
        ex_differs ex_update_def clean_publish own_configmap_def desiredConfigMapName_def
        stale_selector_def)
  moreover obtain fs where "log (snd (run_state (BucketReconciler_Reconcile mute_lib
      clean_kube ex_reconciler ex_req) ex_world)) =
    log (snd (run_state (reconcileBucket mute_lib clean_kube ex_reconciler
      (initializeBucketConditions mute_lib ex_import)) ?w)) @ fs"
    by (rule Reconcile_log [of clean_kube ex_req ex_world]) simp
  ultimately show thesis
    by (intro that [of fs]) (simp add: run_events_def new_events_def ex_world_def)
qed

end
