(* ===== verification/BucketProps.thy ===== *)
theory BucketProps
  imports BucketExample
begin

text \<open>
  Properties of the Bucket reconciler, over every Kubernetes client, Garage service and
  state of the world.  \<open>new_events w w'\<close> are the calls of the run, in order; a run that got
  past reading its object starts with \<open>GetBucket req (Inr b)\<close>.
\<close>

section \<open>Shared steps of the proofs\<close>

lemma Reconcile_run:
  assumes "run_state (BucketReconciler_Reconcile L K R req) w = (out, w')"
    and "new_events w w' = GetBucket req (Inr b) # es"
  shows "bucket_run L K R b out es"
  using produces_run [OF Reconcile_trace assms(1)] assms(2) by auto

lemma bucket_runE:
  assumes "bucket_run L K R b out es"
  obtains b1 b2 r o' es1 es2 es3
  where "es = es1 @ es2 @ es3"
    and "resolve_trace L (initializeBucketConditions L b) b1 r es1"
    and "settle_trace L R b1 r b2 o' es2"
    and "case o' of Panicked \<Rightarrow> out = Panicked \<and> es3 = []
         | Returned result err \<Rightarrow> finish_trace L K (b_Status b) b2 result err out es3"
proof -
  from assms obtain b2 o' fs es3 where es: "es = fs @ es3"
    and rec: "reconcile_trace L R (initializeBucketConditions L b) b2 o' fs"
    and fin: "case o' of Panicked \<Rightarrow> out = Panicked \<and> es3 = []
         | Returned result err \<Rightarrow> finish_trace L K (b_Status b) b2 result err out es3"
    unfolding bucket_run_def by blast
  from rec obtain b1 r es1 es2 where "fs = es1 @ es2"
    and "resolve_trace L (initializeBucketConditions L b) b1 r es1"
    and "settle_trace L R b1 r b2 o' es2"
    unfolding reconcile_trace_def by blast
  with es fin that show thesis by simp
qed

lemma last_events:
  assumes "case o' of Panicked \<Rightarrow> out = Panicked \<and> es = []
         | Returned result err \<Rightarrow> finish_trace L K orig b result err out es"
    and "e \<in> set es"
  shows "\<exists>p. e = PatchBucketStatus (updateBucketReadyCondition L b) p \<and> es = [e]"
  using assms by (cases o') (auto dest: finish_trace_events)

lemma resolve_frame:
  assumes "resolve_trace L (initializeBucketConditions L b) b1 r es"
  shows "bucket_frame b b1"
proof -
  have "bucket_frame (initializeBucketConditions L b) b1"
    using assms by (auto simp: resolve_trace_def new_bucket_trace_def existing_bucket_trace_def
        Let_def split: option.splits)
  moreover have "bucket_frame b (initializeBucketConditions L b)" by simp
  ultimately show ?thesis by (blast intro: bucket_frame_trans)
qed

section \<open>Imported buckets belong to whoever imports them\<close>

text \<open>What acting on the resolved bucket \<open>s\<close> means: its own quotas, the ConfigMap of \<open>b\<close>,
  and never the creation of a bucket.\<close>

fun acts_on :: "lib \<Rightarrow> Bucket \<Rightarrow> s3_bucket \<Rightarrow> ctrl_event \<Rightarrow> bool" where
  "acts_on L b s (BucketUpdate i q r) = (i = sb_ID s \<and> q = spec_quotas L (b_Spec b))"
| "acts_on L b s (CreateOrUpdateConfigMap cm r) = (cm = own_configmap b)"
| "acts_on L b s (DeleteConfigMap cm r) = True"
| "acts_on L b s e = False"

text \<open>
  C8: an imported bucket is only touched for its owner: when the spec names an existing
  bucket, every action of the reconcile on it (setting its quotas, publishing it in a
  ConfigMap, cleaning up) comes after the secret named in the spec was read, the bucket was
  looked up under the name in the spec, and Garage reported the secret's key as an owner of
  exactly that bucket; quotas are set on that bucket's ID, and no bucket is ever created.
\<close>

theorem imported_bucket_ownership:
  assumes run: "run_state (BucketReconciler_Reconcile L K R req) w = (out, w')"
    and ev: "new_events w w' = GetBucket req (Inr b) # pre @ e # post"
    and spec: "bs_ExistingBucket (b_Spec b) = Some spec"
    and eff: "bucket_effect e"
  shows "\<exists>s. ownership_evidence spec (m_Namespace (b_Meta b)) s pre \<and> acts_on L b s e"
proof -
  from Reconcile_run [OF run ev] obtain b1 b2 r o' es1 es2 es3
    where es: "pre @ e # post = es1 @ es2 @ es3"
      and res: "resolve_trace L (initializeBucketConditions L b) b1 r es1"
      and settle: "settle_trace L R b1 r b2 o' es2"
      and fin: "case o' of Panicked \<Rightarrow> out = Panicked \<and> es3 = []
         | Returned result err \<Rightarrow> finish_trace L K (b_Status b) b2 result err out es3"
    by (rule bucket_runE)
  from res spec have ex: "existing_bucket_trace spec (initializeBucketConditions L b) b1 r es1"
    by (simp add: resolve_trace_def)
  with eff have "e \<notin> set es1"
    by (auto simp: existing_bucket_trace_def list_all_iff)
  from split_after [OF es [symmetric] this] obtain pre' where pre: "pre = es1 @ pre'"
    and rest: "es2 @ es3 = pre' @ e # post" .
  have "e \<notin> set es3" using eff by (auto dest!: last_events [OF fin])
  with rest have e2: "e \<in> set es2" by (metis Un_iff in_set_conv_decomp set_append)
  with settle obtain s y where r: "r = Inr (s, y)"
    and conf: "configure_trace L b1 s y b2 o' es2"
    by (cases "(L, R, b1, r, b2, o', es2)" rule: settle_trace.cases) auto
  have "ownership_evidence spec (m_Namespace (b_Meta b)) s es1"
    using ex r by (simp add: existing_bucket_trace_def)
  then have "ownership_evidence spec (m_Namespace (b_Meta b)) s pre"
    unfolding ownership_evidence_def pre set_append by blast
  moreover have "own_configmap b1 = own_configmap b" "b_Spec b1 = b_Spec b"
    using resolve_frame [OF res] by (auto simp: bucket_frame_def intro: own_configmap_same)
  then have "acts_on L b s e"
    using configure_trace_events [OF conf e2] eff by auto
  ultimately show ?thesis by blast
qed

theorem imported_bucket_ownership_witness:
  "\<exists>s. ownership_evidence ex_spec ''default'' s ex_evidence \<and>
     acts_on mute_lib ex_import s (BucketUpdate ''id1'' ex_quotas None)"
proof -
  obtain post where ev: "run_events (BucketReconciler_Reconcile mute_lib (ex_kube ex_import)
      ex_reconciler ex_req) ex_world = GetBucket ex_req (Inr ex_import) # ex_evidence @
        BucketUpdate ''id1'' ex_quotas None # post"
    by (rule ex_import_events)
  show ?thesis
    using imported_bucket_ownership [OF surjective_pairing ev [unfolded run_events_def]]
    by simp
qed

section \<open>New buckets are created once\<close>

text \<open>
  C18: a bucket is only created when it is known not to exist: the call that creates one
  comes right after the lookup of the same alias answered \<open>ErrResourceNotFound\<close>, in a resource
  that does not import a bucket; the alias is the name in the spec with the suffix of the
  resource's UID, and the run creates no other bucket.
\<close>

theorem bucket_created_once:
  assumes run: "run_state (BucketReconciler_Reconcile L K R req) w = (out, w')"
    and ev: "new_events w w' = pre @ BucketCreate a r # post"
  shows "\<exists>b e. pre = [GetBucket req (Inr b), BucketGet a (Inl e)] \<and>
    errors_Is e ErrResourceNotFound \<and> bs_ExistingBucket (b_Spec b) = None \<and>
    a = suffixedResourceName (bs_Name (b_Spec b)) (b_Meta b) \<and>
    (\<forall>a' r'. BucketCreate a' r' \<notin> set post)"
proof -
  from produces_run [OF Reconcile_trace run] ev obtain b es
    where first: "new_events w w' = GetBucket req (Inr b) # es"
    by (auto simp: append_eq_Cons_conv)
  with ev obtain pre' where pre: "pre = GetBucket req (Inr b) # pre'"
    and es': "es = pre' @ BucketCreate a r # post"
    by (auto simp: append_eq_Cons_conv Cons_eq_append_conv)
  from Reconcile_run [OF run first] obtain b1 b2 x o' es1 es2 es3
    where es: "es = es1 @ es2 @ es3"
      and res: "resolve_trace L (initializeBucketConditions L b) b1 x es1"
      and settle: "settle_trace L R b1 x b2 o' es2"
      and fin: "case o' of Panicked \<Rightarrow> out = Panicked \<and> es3 = []
         | Returned result err \<Rightarrow> finish_trace L K (b_Status b) b2 result err out es3"
    by (rule bucket_runE)
  have no3: "BucketCreate a' r' \<notin> set es3" for a' r'
    by (auto dest!: last_events [OF fin])
  have no2: "BucketCreate a' r' \<notin> set es2" for a' r'
    using settle by (cases "(L, R, b1, x, b2, o', es2)" rule: settle_trace.cases)
      (auto dest: configure_trace_events)
  from es es' no2 no3 have in1: "BucketCreate a r \<in> set es1"
    by (metis Un_iff in_set_conv_decomp set_append)
  have none: "bs_ExistingBucket (b_Spec b) = None"
    using res in1 by (auto simp: resolve_trace_def existing_bucket_trace_def list_all_iff
        split: option.splits)
  then have "new_bucket_trace L (initializeBucketConditions L b) b1 x es1"
    using res by (simp add: resolve_trace_def)
  with in1 obtain e v where es1: "es1 = [BucketGet a (Inl e), BucketCreate a r, v]"
    and e: "errors_Is e ErrResourceNotFound"
    and a: "a = suffixedResourceName (bs_Name (b_Spec b)) (b_Meta b)"
    and v: "\<forall>a' r'. v \<noteq> BucketCreate a' r'"
    by (auto simp: new_bucket_trace_def Let_def)
  with es es' have "[BucketGet a (Inl e)] @ BucketCreate a r # v # es2 @ es3 =
      pre' @ BucketCreate a r # post" by simp
  moreover have "BucketCreate a r \<notin> set (v # es2 @ es3)" using no2 no3 v by auto
  ultimately have "pre' = [BucketGet a (Inl e)]" "post = v # es2 @ es3"
    by (subst (asm) append_Cons_eq_iff; simp)+
  with pre e a none v no2 no3 show ?thesis by auto
qed

theorem bucket_created_once_witness:
  "\<exists>b e. [GetBucket ex_req (Inr ex_new),
      BucketGet (suffixedResourceName ''photos'' ex_meta) (Inl (Sentinel ErrResourceNotFound))] =
    [GetBucket ex_req (Inr b), BucketGet (suffixedResourceName ''photos'' ex_meta) (Inl e)] \<and>
    errors_Is e ErrResourceNotFound \<and> bs_ExistingBucket (b_Spec b) = None"
proof -
  obtain post where ev: "run_events (BucketReconciler_Reconcile mute_lib (ex_kube ex_new)
      ex_reconciler ex_req) empty_world =
    [GetBucket ex_req (Inr ex_new),
      BucketGet (suffixedResourceName ''photos'' ex_meta) (Inl (Sentinel ErrResourceNotFound))] @
    BucketCreate (suffixedResourceName ''photos'' ex_meta) (Inr ex_s3) # post"
    by (rule ex_new_events)
  show ?thesis
    using bucket_created_once [OF surjective_pairing ev [unfolded run_events_def]] by blast
qed

section \<open>The recorded identity\<close>

definition answered :: "s3_bucket \<Rightarrow> ctrl_event list \<Rightarrow> bool" where
  "answered s es \<longleftrightarrow> (\<exists>a. BucketGet a (Inr s) \<in> set es \<or> BucketCreate a (Inr s) \<in> set es)"

definition external_name :: "Bucket \<Rightarrow> string" where
  "external_name b = (case bs_ExistingBucket (b_Spec b) of
     None \<Rightarrow> suffixedResourceName (bs_Name (b_Spec b)) (b_Meta b)
   | Some spec \<Rightarrow> eb_Name spec)"

lemma resolve_trace_found:
  assumes "resolve_trace L (initializeBucketConditions L b) b1 (Inr (s, y)) es"
  shows "answered s es" and "y = external_name b" and "b1 = initializeBucketConditions L b"
  using assms by (auto simp: resolve_trace_def new_bucket_trace_def existing_bucket_trace_def
      ownership_evidence_def answered_def external_name_def Let_def split: option.splits)

lemma answered_append: "answered s es \<Longrightarrow> answered s (es @ fs)"
  by (auto simp: answered_def)

lemma filled_is_patched:
  assumes K: "status_eq_laws K"
    and run: "run_state (BucketReconciler_Reconcile L K R req) w = (out, w')"
    and ev: "new_events w w' = GetBucket req (Inr b) # es"
    and upd: "BucketUpdate i q x \<in> set es" "i \<noteq> []" and b: "bst_BucketID (b_Status b) = []"
  shows "\<exists>b' p. PatchBucketStatus b' p \<in> set es"
proof -
  from Reconcile_run [OF run ev] obtain b1 b2 r o' es1 es2 es3
    where es: "es = es1 @ es2 @ es3"
      and res: "resolve_trace L (initializeBucketConditions L b) b1 r es1"
      and settle: "settle_trace L R b1 r b2 o' es2"
      and fin: "case o' of Panicked \<Rightarrow> out = Panicked \<and> es3 = []
         | Returned result err \<Rightarrow> finish_trace L K (b_Status b) b2 result err out es3"
    by (rule bucket_runE)
  have "BucketUpdate i q x \<notin> set es1" "BucketUpdate i q x \<notin> set es3"
    using res by (auto simp: resolve_trace_def new_bucket_trace_def existing_bucket_trace_def
        list_all_iff Let_def split: option.splits dest!: last_events [OF fin])
  with upd es have "BucketUpdate i q x \<in> set es2" by auto
  with settle obtain s y where conf: "configure_trace L b1 s y b2 o' es2" and "i = sb_ID s"
    by (cases "(L, R, b1, r, b2, o', es2)" rule: settle_trace.cases)
      (auto dest: configure_trace_events)
  with b upd(2) configure_frame [OF conf] resolve_frame [OF res]
  have "bst_BucketID (b_Status (updateBucketReadyCondition L b2)) \<noteq> bst_BucketID (b_Status b)"
    by (simp add: bucket_frame_def fill_identity_def updateBucketReady_frame)
  then have ne: "b_Status b \<noteq> b_Status (updateBucketReadyCondition L b2)" by metis
  obtain err where "o' = Returned no_requeue err" using configure_outcome [OF conf] by blast
  with fin K ne have "\<exists>p. es3 = [PatchBucketStatus (updateBucketReadyCondition L b2) p]"
    by (auto simp: finish_trace_def status_eq_laws_def Let_def)
  then show ?thesis unfolding es by fastforce
qed

text \<open>
  C29: the identity of the external bucket is written once: a status patch keeps metadata and
  spec, keeps a bucket ID and a bucket name that were set, even when the bucket found or
  created in this run has another ID, and otherwise fills them with the ID Garage answered in
  this run and with the external name of the resource, or leaves them empty.
\<close>

theorem bucket_identity_write_once:
  assumes run: "run_state (BucketReconciler_Reconcile L K R req) w = (out, w')"
    and ev: "new_events w w' = GetBucket req (Inr b) # es"
    and patch: "PatchBucketStatus b' p \<in> set es"
  shows "b_Meta b' = b_Meta b \<and> b_Spec b' = b_Spec b \<and>
    (bst_BucketID (b_Status b) \<noteq> [] \<longrightarrow> bst_BucketID (b_Status b') = bst_BucketID (b_Status b)) \<and>
    (bst_BucketName (b_Status b) \<noteq> [] \<longrightarrow>
       bst_BucketName (b_Status b') = bst_BucketName (b_Status b)) \<and>
    (bst_BucketID (b_Status b') \<noteq> bst_BucketID (b_Status b) \<longrightarrow>
       (\<exists>s. answered s es \<and> bst_BucketID (b_Status b') = sb_ID s)) \<and>
    (bst_BucketName (b_Status b') \<noteq> bst_BucketName (b_Status b) \<longrightarrow>
       bst_BucketName (b_Status b') = external_name b)"
proof -
  from Reconcile_run [OF run ev] obtain b1 b2 x o' es1 es2 es3
    where es: "es = es1 @ es2 @ es3"
      and res: "resolve_trace L (initializeBucketConditions L b) b1 x es1"
      and settle: "settle_trace L R b1 x b2 o' es2"
      and fin: "case o' of Panicked \<Rightarrow> out = Panicked \<and> es3 = []
         | Returned result err \<Rightarrow> finish_trace L K (b_Status b) b2 result err out es3"
    by (rule bucket_runE)
  have steps: "list_all bucket_step (es1 @ es2)"
    using resolve_trace_steps [OF res] settle_trace_steps [OF settle] by simp
  then have "PatchBucketStatus b' p \<notin> set (es1 @ es2)" by (rule list_all_notin) simp
  with es patch have "PatchBucketStatus b' p \<in> set es3" by auto
  from last_events [OF fin this] have b': "b' = updateBucketReadyCondition L b2" by auto
  note frame = resolve_frame [OF res, unfolded bucket_frame_def]
  show ?thesis
  proof (cases x)
    case (Inl e)
    with settle have "b2 = b1" by simp
    with frame show ?thesis by (simp add: b' updateBucketReady_frame)
  next
    case (Inr sy)
    then obtain s y where x: "x = Inr (s, y)" by (cases sy) auto
    with settle have "configure_trace L b1 s y b2 o' es2" by simp
    note conf = configure_frame [OF this, unfolded bucket_frame_def]
    note found = resolve_trace_found [OF res [unfolded x]]
    from answered_append [OF found(1)] es have "answered s es" by simp
    with frame conf found(2) show ?thesis
      by (auto simp: b' updateBucketReady_frame fill_identity_def)
  qed
qed

theorem bucket_identity_write_once_witness:
  "\<exists>b' p. PatchBucketStatus b' p \<in> set (run_events (BucketReconciler_Reconcile mute_lib
     (ex_kube ex_import) ex_reconciler ex_req) ex_world) \<and>
     b_Meta b' = ex_meta \<and> b_Spec b' = b_Spec ex_import"
proof -
  let ?m = "BucketReconciler_Reconcile mute_lib (ex_kube ex_import) ex_reconciler ex_req"
  have ev: "run_events ?m ex_world = GetBucket ex_req (Inr ex_import) # tl (run_events ?m ex_world)"
    by (rule Reconcile_reads) simp
  obtain post where "run_events ?m ex_world = GetBucket ex_req (Inr ex_import) # ex_evidence @
      BucketUpdate ''id1'' ex_quotas None # post"
    by (rule ex_import_events)
  then have "BucketUpdate ''id1'' ex_quotas None \<in> set (tl (run_events ?m ex_world))" by simp
  moreover have "status_eq_laws (ex_kube ex_import)" by (simp add: ex_kube_def store_kube_status_eq)
  ultimately obtain b' p where p: "PatchBucketStatus b' p \<in> set (tl (run_events ?m ex_world))"
    using filled_is_patched [OF _ surjective_pairing ev [unfolded run_events_def]]
    unfolding run_events_def by (metis ex_import_sel(3) list.distinct(1))
  from bucket_identity_write_once [OF surjective_pairing ev [unfolded run_events_def]
      this [unfolded run_events_def]]
  have "b_Meta b' = ex_meta \<and> b_Spec b' = b_Spec ex_import" by simp
  moreover from p have "PatchBucketStatus b' p \<in> set (run_events ?m ex_world)" by (subst ev) simp
  ultimately show ?thesis by blast
qed

section \<open>What \<open>Ready\<close> stands for\<close>

text \<open>The evidence a run has that bucket \<open>b\<close> is usable.\<close>

definition usable_evidence :: "lib \<Rightarrow> Bucket \<Rightarrow> ctrl_event list \<Rightarrow> bool" where
  "usable_evidence L b es \<longleftrightarrow>
     (\<exists>s res. answered s es \<and> CreateOrUpdateConfigMap (own_configmap b) (res, None) \<in> set es \<and>
        (compareSpec L s (b_Spec b) \<longrightarrow>
           BucketUpdate (sb_ID s) (spec_quotas L (b_Spec b)) None \<in> set es))"

definition has_parts :: "lib \<Rightarrow> Bucket \<Rightarrow> bool" where
  "has_parts L b \<longleftrightarrow> (\<forall>t \<in> fst ` set bucket_parts. FindStatusCondition L (b_Conditions b) t \<noteq> None)"

lemma has_parts_stat:
  "has_parts L b \<longleftrightarrow> cond_stat L (b_Conditions b) BucketReady \<noteq> None \<and>
     cond_stat L (b_Conditions b) BucketConfigMapReady \<noteq> None"
  by (simp add: has_parts_def bucket_parts_def find_None_stat)

definition parts_true :: "lib \<Rightarrow> Bucket \<Rightarrow> bool" where
  "parts_true L b \<longleftrightarrow> cond_stat L (b_Conditions b) BucketReady = Some ConditionTrue \<and>
     cond_stat L (b_Conditions b) BucketConfigMapReady = Some ConditionTrue"

text \<open>Whether a run wrote the ConfigMap of \<open>b\<close>.\<close>

definition published :: "Bucket \<Rightarrow> ctrl_event list \<Rightarrow> bool" where
  "published b es \<longleftrightarrow> (\<exists>res. CreateOrUpdateConfigMap (own_configmap b) (res, None) \<in> set es)"

lemma published_append: "published b (es @ fs) \<longleftrightarrow> published b es \<or> published b fs"
  by (auto simp: published_def)

lemma published_fill [simp]: "published (fill_identity s y b) = published b"
  by (simp add: published_def fun_eq_iff)

lemma publish_end_events:
  assumes "publish_end L b err out rest"
  shows "\<not> published b' rest"
  using assms by (cases err) (auto simp: published_def dest: cleanup_trace_events)

lemma publish_parts:
  assumes "cond_laws L" and "publish_trace L b b' out es"
  shows "has_parts L b' \<and> (parts_true L b' \<longleftrightarrow> published b es)"
proof -
  from assms obtain res err rest where
    es: "es = CreateOrUpdateConfigMap (own_configmap b) (res, err) # rest"
    and pend: "publish_end L b err out rest"
    and "published_view L b b' err"
    by (auto simp: publish_trace_def)
  note st = published_view_stat [OF this(3)]
  from publish_end_events [OF pend] have "published b es \<longleftrightarrow> err = None"
    by (auto simp: es published_def)
  with st show ?thesis by (cases err) (simp_all add: has_parts_stat parts_true_def)
qed

lemma configure_parts:
  assumes L: "cond_laws L" and conf: "configure_trace L b s y b' out es" and b: "has_parts L b"
  shows "has_parts L b' \<and> (parts_true L b' \<longleftrightarrow> published b es) \<and> (published b es \<longrightarrow>
    (compareSpec L s (b_Spec b) \<longrightarrow>
       BucketUpdate (sb_ID s) (spec_quotas L (b_Spec b)) None \<in> set es))"
proof (cases rule: configure_traceE [OF conf])
  case (1 e)
  with b show ?thesis
    by (auto simp: has_parts_stat parts_true_def published_def update_failed_stat [OF L])
next
  case (2 rest)
  from publish_parts [OF L 2(3)] have "has_parts L b' \<and> (parts_true L b' \<longleftrightarrow> published b rest)"
    by simp
  with 2(2) show ?thesis by (auto simp: published_def)
next
  case 3
  with publish_parts [OF L 3(2)] show ?thesis by simp
qed

lemma reconcile_parts:
  assumes L: "cond_laws L"
    and res: "resolve_trace L (initializeBucketConditions L b) b1 r es1"
    and settle: "settle_trace L R b1 r b2 out es2"
  shows "has_parts L b2 \<and> (parts_true L b2 \<longleftrightarrow> published b (es1 @ es2)) \<and>
    (published b (es1 @ es2) \<longrightarrow> usable_evidence L b (es1 @ es2))"
proof -
  have init: "has_parts L (initializeBucketConditions L b)"
    unfolding has_parts_def using bucket_cond.initialized_parts [OF L] by blast
  have es1: "\<not> published b es1"
    using res by (auto simp: published_def resolve_trace_def new_bucket_trace_def
        existing_bucket_trace_def list_all_iff Let_def split: option.splits)
  show ?thesis
  proof (cases r)
    case (Inl e)
    with res settle L have "unresolved L (initializeBucketConditions L b) b2" "es2 = []"
      by (simp_all add: resolve_trace_def)
    with init es1 show ?thesis by (auto simp: unresolved_stat has_parts_stat parts_true_def)
  next
    case (Inr sy)
    then obtain s y where r: "r = Inr (s, y)" by (cases sy) auto
    note found = resolve_trace_found [OF res [unfolded r]]
    from settle r have conf: "configure_trace L b1 s y b2 out es2" by simp
    have own: "own_configmap b1 = own_configmap b" "b_Spec b1 = b_Spec b"
      unfolding found(3) by (rule own_configmap_same; simp) simp
    then have pub: "published b1 = published b" by (simp add: published_def fun_eq_iff)
    have "has_parts L b1" using init found(3) by simp
    note parts = configure_parts [OF L conf this, unfolded own pub]
    have "usable_evidence L b (es1 @ es2)" if "published b es2"
      using parts that answered_append [OF found(1), of es2]
      unfolding usable_evidence_def published_def set_append by blast
    with parts es1 show ?thesis by (simp add: published_append)
  qed
qed

lemma ready_after_update:
  assumes L: "cond_laws L" and "has_parts L b"
  shows "cond_stat L (b_Conditions (updateBucketReadyCondition L b)) Ready = Some ConditionTrue
      \<longleftrightarrow> parts_true L b"
    and "parts_true L b \<Longrightarrow>
      bst_ObservedGeneration (b_Status (updateBucketReadyCondition L b)) = b_Generation b"
proof -
  let ?s = "summary (part_views L (b_Conditions b) bucket_parts) bucket_waiting"
  have all: "(\<forall>t \<in> fst ` set bucket_parts. cond_stat L (b_Conditions b) t = Some ConditionTrue)
      \<longleftrightarrow> parts_true L b"
    by (simp add: bucket_parts_def parts_true_def)
  show "cond_stat L (b_Conditions (updateBucketReadyCondition L b)) Ready = Some ConditionTrue
      \<longleftrightarrow> parts_true L b"
    using bucket_cond.ready_iff [OF L, of b] assms(2) all by (simp add: has_parts_def)
  have upd: "updateBucketReadyCondition L b = set_ready_bucket L ?s b"
    using assms(2) by (intro updateBucketReady_summary) (simp add: has_parts_def)
  assume "parts_true L b"
  then have "fst ?s = ConditionTrue"
    using part_views_all_true [of bucket_parts L "b_Conditions b"] assms(2) all
    by (simp add: summary_true has_parts_def)
  then show "bst_ObservedGeneration (b_Status (updateBucketReadyCondition L b)) = b_Generation b"
    by (simp add: upd set_ready_bucket_simps [OF L])
qed

text \<open>The status a returning run leaves is the one it computed, patched or not.\<close>

lemma reported_run:
  assumes K: "status_eq_laws K"
    and fin: "case o' of Panicked \<Rightarrow> out = Panicked \<and> es3 = []
         | Returned result err \<Rightarrow> finish_trace L K (b_Status b) b2 result err out es3"
    and "out \<noteq> Panicked"
    and res: "resolve_trace L (initializeBucketConditions L b) b1 r es1"
    and settle: "settle_trace L R b1 r b2 o' es2" and es: "es = es1 @ es2 @ es3"
  shows "reported_status (b_Status b) es = b_Status (updateBucketReadyCondition L b2)"
proof -
  from fin \<open>out \<noteq> Panicked\<close> obtain result err where
    fin': "finish_trace L K (b_Status b) b2 result err out es3"
    by (cases o') auto
  have "list_all bucket_step (es1 @ es2)"
    using resolve_trace_steps [OF res] settle_trace_steps [OF settle] by simp
  from reported_status_steps [OF this, of "b_Status b" es3]
  show ?thesis using es reported_status_finish [OF K fin'] by simp
qed

lemma usable_published: "usable_evidence L b es \<Longrightarrow> published b es"
  by (auto simp: usable_evidence_def published_def)

text \<open>
  C12: \<open>Ready\<close> is earned in every run: a reconcile leaves the resource with the condition
  \<open>Ready\<close> true, whether it patched the status or left the stored one, exactly when in this
  very run Garage answered with the bucket, its quotas were those of the spec or were set to
  them without error, and the bucket's ConfigMap was written without error; the status then
  carries the generation of the spec it was read with.
\<close>

theorem bucket_ready_evidence:
  assumes L: "cond_laws L" and K: "status_eq_laws K"
    and run: "run_state (BucketReconciler_Reconcile L K R req) w = (out, w')" and "out \<noteq> Panicked"
    and ev: "new_events w w' = GetBucket req (Inr b) # es"
    and st: "st = reported_status (b_Status b) es"
  shows "(cond_stat L (bst_Conditions st) Ready = Some ConditionTrue \<longleftrightarrow> usable_evidence L b es) \<and>
    (usable_evidence L b es \<longrightarrow> bst_ObservedGeneration st = b_Generation b)"
proof -
  from Reconcile_run [OF run ev] obtain b1 b2 r o' es1 es2 es3
    where es: "es = es1 @ es2 @ es3"
      and res: "resolve_trace L (initializeBucketConditions L b) b1 r es1"
      and settle: "settle_trace L R b1 r b2 o' es2"
      and fin: "case o' of Panicked \<Rightarrow> out = Panicked \<and> es3 = []
         | Returned result err \<Rightarrow> finish_trace L K (b_Status b) b2 result err out es3"
    by (rule bucket_runE)
  have rep: "st = b_Status (updateBucketReadyCondition L b2)"
    unfolding st by (rule reported_run [OF K fin \<open>out \<noteq> Panicked\<close> res settle es])
  note parts = reconcile_parts [OF L res settle]
  have "\<not> published b es3" by (auto simp: published_def dest!: last_events [OF fin])
  then have pub: "published b es = published b (es1 @ es2)" by (simp add: es published_append)
  have gen: "b_Generation b2 = b_Generation b"
  proof (cases r)
    case (Inl e) with settle resolve_frame [OF res] show ?thesis by (simp add: bucket_frame_def)
  next
    case (Inr sy)
    with settle resolve_frame [OF res] show ?thesis
      by (cases sy) (auto dest: configure_frame simp: bucket_frame_def)
  qed
  have use: "usable_evidence L b es \<longleftrightarrow> published b es"
  proof
    assume "published b es"
    with parts pub have "usable_evidence L b (es1 @ es2)" by simp
    then show "usable_evidence L b es"
      unfolding usable_evidence_def es answered_def set_append by blast
  qed (rule usable_published)
  with parts pub gen ready_after_update [OF L, of b2] show ?thesis
    unfolding rep by simp
qed

section \<open>Requeueing\<close>

definition requeue_bounded :: "ctrl_result \<Rightarrow> bool" where
  "requeue_bounded res \<longleftrightarrow>
     5000000000 \<le> sint (RequeueAfter res) \<and> sint (RequeueAfter res) \<le> 900000000000"

lemma failed_outcome_bounded:
  assumes "baseInterval R = baseRequeueInterval" and "failed_outcome R b err out"
  shows "(bs_ExistingBucket (b_Spec b) = None \<and> out = Returned no_requeue (Some err)) \<or>
    (bs_ExistingBucket (b_Spec b) \<noteq> None \<and> (\<exists>res. out = Returned res None \<and> requeue_bounded res))"
proof (cases "bs_ExistingBucket (b_Spec b)")
  case None
  with assms(2) show ?thesis by (simp add: failed_outcome_def)
next
  case (Some spec)
  with assms obtain age where out: "out =
      (case ownerSecretBackoff age baseRequeueInterval maxRequeueInterval of
         None \<Rightarrow> Panicked | Some d \<Rightarrow> Returned \<lparr>RequeueAfter = d\<rparr> None)"
    by (auto simp: failed_outcome_def)
  obtain d where "ownerSecretBackoff age baseRequeueInterval maxRequeueInterval = Some d"
    "5000000000 \<le> sint d" "sint d \<le> 900000000000"
    by (rule controller_backoff)
  with out Some show ?thesis by (auto simp: requeue_bounded_def)
qed

lemma NewBucketReconciler_base [simp]:
  "baseInterval (NewBucketReconciler c g u e o') = baseRequeueInterval"
  by (simp add: NewBucketReconciler_def)

lemma settle_outcome:
  assumes R: "baseInterval R = baseRequeueInterval" and "settle_trace L R b x b' out es"
  shows "\<exists>res err. out = Returned res err \<and> (res = no_requeue \<or> err = None \<and> requeue_bounded res)"
proof (cases x)
  case (Inl err)
  with assms(2) failed_outcome_bounded [OF R, of b err out] show ?thesis by auto
next
  case (Inr sy)
  with assms(2) show ?thesis by (cases sy) (auto dest: configure_outcome)
qed

lemma Reconcile_returns:
  assumes R: "baseInterval R = baseRequeueInterval"
    and run: "run_state (BucketReconciler_Reconcile L K R req) w = (out, w')"
  shows "\<exists>res err. out = Returned res err \<and> (res = no_requeue \<or> err = None \<and> requeue_bounded res)"
proof -
  from produces_run [OF Reconcile_trace run]
  consider (read) err where "out = Returned no_requeue err"
    | (run) b es where "bucket_run L K R b out es"
    by blast
  then show ?thesis
  proof cases
    case run
    then obtain b1 b2 x p es1 es2 es3
      where settle: "settle_trace L R b1 x b2 p es2"
        and fin: "case p of Panicked \<Rightarrow> out = Panicked \<and> es3 = []
           | Returned result err \<Rightarrow> finish_trace L K (b_Status b) b2 result err out es3"
      by (rule bucket_runE)
    from settle_outcome [OF R settle] obtain res err where p: "p = Returned res err"
      and "res = no_requeue \<or> err = None \<and> requeue_bounded res" by blast
    moreover from fin p have "finish_trace L K (b_Status b) b2 res err out es3" by simp
    ultimately show ?thesis using finish_outcome by blast
  qed simp
qed

text \<open>
  the reconciler never panics, and when it asks to be run again after a delay, the delay
  is between 5 seconds and 15 minutes and no error is returned beside it (so that the two
  retry mechanisms of the runtime are never both asked for); in every other case it asks for
  no delay.
\<close>

theorem BucketReconciler_outcome:
  fixes w :: "'s cworld"
  assumes "run_state (BucketReconciler_Reconcile L K (NewBucketReconciler c g u e o') req) w =
    (out, w')"
  shows "\<exists>res err. out = Returned res err \<and> (res = no_requeue \<or> err = None \<and> requeue_bounded res)"
  by (rule Reconcile_returns [OF NewBucketReconciler_base assms])

theorem BucketReconciler_outcome_witness:
  "\<exists>res err. fst (run_state (BucketReconciler_Reconcile plain_lib (ex_kube ex_new) (NewBucketReconciler
     ex_create ex_get ex_update ''http://s3'' ex_permissions) ex_req) ex_world) = Returned res err \<and>
     (res = no_requeue \<or> err = None \<and> requeue_bounded res)"
  by (rule BucketReconciler_outcome [OF surjective_pairing])

lemma ex_status_eq: "status_eq_laws (ex_kube b)"
  by (simp add: ex_kube_def store_kube_status_eq)

lemma ex_reads:
  "run_events (BucketReconciler_Reconcile L (ex_kube b) R ex_req) w =
     GetBucket ex_req (Inr b) # tl (run_events (BucketReconciler_Reconcile L (ex_kube b) R ex_req) w)"
  by (rule Reconcile_reads) simp

lemma ex_not_panicked:
  "fst (run_state (BucketReconciler_Reconcile L (ex_kube b) ex_reconciler ex_req) w) \<noteq> Panicked"
  using Reconcile_returns [OF _ surjective_pairing, of ex_reconciler L "ex_kube b" ex_req w] by auto

theorem bucket_ready_evidence_witness:
  "let es = tl (run_events (BucketReconciler_Reconcile plain_lib (ex_kube ex_import) ex_reconciler
      ex_req) ex_world)
   in cond_stat plain_lib (bst_Conditions (reported_status (b_Status ex_import) es)) Ready =
      Some ConditionTrue \<longleftrightarrow> usable_evidence plain_lib ex_import es"
  using bucket_ready_evidence [OF plain_lib_cond_laws ex_status_eq surjective_pairing
      ex_not_panicked ex_reads [unfolded run_events_def] refl]
  by (simp add: Let_def run_events_def)


text \<open>
  C25: an imported bucket that cannot be resolved is tried again: when the spec names an
  existing bucket and the run ends without acting on it, then the run asks to be repeated
  within 5 seconds to 15 minutes and returns no error, unless the status patch failed.
\<close>

theorem imported_bucket_retry:
  fixes w :: "'s cworld"
  assumes run: "run_state (BucketReconciler_Reconcile L K (NewBucketReconciler c g u e o') req) w =
      (out, w')"
    and ev: "new_events w w' = GetBucket req (Inr b) # es"
    and spec: "bs_ExistingBucket (b_Spec b) = Some spec"
    and idle: "\<forall>ev \<in> set es. \<not> bucket_effect ev"
    and patch: "\<forall>b' err. PatchBucketStatus b' (Some err) \<notin> set es"
  shows "\<exists>res. out = Returned res None \<and> requeue_bounded res"
proof -
  let ?R = "NewBucketReconciler c g u e o'"
  from Reconcile_run [OF run ev] obtain b1 b2 x p es1 es2 es3
    where es: "es = es1 @ es2 @ es3"
      and res: "resolve_trace L (initializeBucketConditions L b) b1 x es1"
      and settle: "settle_trace L ?R b1 x b2 p es2"
      and fin: "case p of Panicked \<Rightarrow> out = Panicked \<and> es3 = []
         | Returned result err \<Rightarrow> finish_trace L K (b_Status b) b2 result err out es3"
    by (rule bucket_runE)
  have "\<exists>err. x = Inl err"
  proof (cases x)
    case (Inr sy)
    then obtain s y where conf: "configure_trace L b1 s y b2 p es2"
      using settle by (cases sy) auto
    have "\<exists>ev \<in> set es2. bucket_effect ev"
      using conf by (auto simp: configure_trace_def publish_trace_def Let_def split: if_splits)
    with idle es show ?thesis by auto
  qed simp
  then obtain err where x: "x = Inl err" ..
  have "b_Spec b1 = b_Spec b" using resolve_frame [OF res] by (simp add: bucket_frame_def)
  with settle x spec failed_outcome_bounded [OF NewBucketReconciler_base, of c g u e o' b1 err p]
  obtain r where p: "p = Returned r None" "requeue_bounded r" by auto
  with fin have "finish_trace L K (b_Status b) b2 r None out es3" by simp
  moreover have "es3 \<noteq> [PatchBucketStatus b' (Some err)]" for b' err
  proof -
    have "PatchBucketStatus b' (Some err) \<notin> set es" using patch by blast
    then show ?thesis using es by auto
  qed
  ultimately have "out = Returned r None" using finish_outcome by blast
  with p show ?thesis by blast
qed

theorem imported_bucket_retry_witness:
  "\<exists>res. fst (run_state (BucketReconciler_Reconcile mute_lib (ex_kube ex_import) ex_reconciler
     ex_req) empty_world) = Returned res None \<and> requeue_bounded res"
proof -
  note ev = ex_missing_events [unfolded run_events_def]
  show ?thesis
    using imported_bucket_retry [OF surjective_pairing ev [unfolded ex_reconciler_def]]
    by (simp add: ex_reconciler_def)
qed

section \<open>Cleaning up\<close>

lemma delete_follows_publish:
  assumes pub: "publish_trace L b1 b2 out ps"
    and same: "own_configmap b1 = own_configmap b" "cleanup_trace L b1 = cleanup_trace L b"
    and split: "ps @ es = pre @ DeleteConfigMap cm r # post" and rest: "DeleteConfigMap cm r \<notin> set es"
  shows "IsControlledBy L (cm_Meta cm) (b_Meta b) \<and>
    m_Name (cm_Meta cm) \<noteq> desiredConfigMapName b \<and>
    (\<exists>items. ListConfigMaps (m_Namespace (b_Meta b)) (stale_selector b) (Inr items) \<in> set pre \<and>
       cm \<in> set items) \<and>
    (\<exists>res. CreateOrUpdateConfigMap (own_configmap b) (res, None) \<in> set pre)"
proof -
  from pub same obtain res err ds where
    ps: "ps = CreateOrUpdateConfigMap (own_configmap b) (res, err) # ds"
    and pend: "publish_end L b1 err out ds"
    by (auto simp: publish_trace_def)
  from split rest have del: "DeleteConfigMap cm r \<in> set ps"
    by (metis Un_iff in_set_conv_decomp set_append)
  with ps pend have err: "err = None" by (cases err) auto
  with pend same obtain e where "cleanup_trace L b e ds" by auto
  with del ps obtain items dels where
    ds: "ds = ListConfigMaps (m_Namespace (b_Meta b)) (stale_selector b) (Inr items) # dels"
    and dels: "delete_trace L (stale_configmaps L b items) e dels"
    by (auto simp: cleanup_trace_def)
  with del ps have "cm \<in> set (stale_configmaps L b items)"
    by (auto dest: delete_trace_events)
  moreover from split ps ds err have "CreateOrUpdateConfigMap (own_configmap b) (res, None) \<in> set pre"
    "ListConfigMaps (m_Namespace (b_Meta b)) (stale_selector b) (Inr items) \<in> set pre"
    by (auto simp: Cons_eq_append_conv)
  ultimately show ?thesis by (auto simp: stale_configmaps_def)
qed

text \<open>
  C28: the reconciler deletes no ConfigMap but its own old ones: a ConfigMap is only deleted
  when it was listed under the label of the bucket, is controlled by the bucket and does not
  have the name the spec asks for, and only after the ConfigMap of that name was written
  without error in the same run.
\<close>

theorem stale_configmaps_only:
  assumes run: "run_state (BucketReconciler_Reconcile L K R req) w = (out, w')"
    and ev: "new_events w w' = GetBucket req (Inr b) # pre @ DeleteConfigMap cm r # post"
  shows "IsControlledBy L (cm_Meta cm) (b_Meta b) \<and>
    m_Name (cm_Meta cm) \<noteq> desiredConfigMapName b \<and>
    (\<exists>items. ListConfigMaps (m_Namespace (b_Meta b)) (stale_selector b) (Inr items) \<in> set pre \<and>
       cm \<in> set items) \<and>
    (\<exists>res. CreateOrUpdateConfigMap (own_configmap b) (res, None) \<in> set pre)"
proof -
  from Reconcile_run [OF run ev] obtain b1 b2 x o' es1 es2 es3
    where es: "pre @ DeleteConfigMap cm r # post = es1 @ es2 @ es3"
      and res: "resolve_trace L (initializeBucketConditions L b) b1 x es1"
      and settle: "settle_trace L R b1 x b2 o' es2"
      and fin: "case o' of Panicked \<Rightarrow> out = Panicked \<and> es3 = []
         | Returned result err \<Rightarrow> finish_trace L K (b_Status b) b2 result err out es3"
    by (rule bucket_runE)
  have no1: "DeleteConfigMap cm r \<notin> set es1"
    using res by (auto simp: resolve_trace_def new_bucket_trace_def existing_bucket_trace_def
        list_all_iff Let_def split: option.splits)
  have no3: "DeleteConfigMap cm r \<notin> set es3" by (auto dest!: last_events [OF fin])
  from split_after [OF es [symmetric] no1] obtain pre1
    where pre: "pre = es1 @ pre1" and rest: "es2 @ es3 = pre1 @ DeleteConfigMap cm r # post" .
  with no3 have "DeleteConfigMap cm r \<in> set es2"
    by (metis Un_iff in_set_conv_decomp set_append)
  with settle obtain s y where conf: "configure_trace L b1 s y b2 o' es2"
    by (cases "(L, R, b1, x, b2, o', es2)" rule: settle_trace.cases) auto
  obtain us ps where es2: "es2 = us @ ps" and us: "DeleteConfigMap cm r \<notin> set us"
    and pub: "publish_trace L (fill_identity s y b1) b2 o' ps"
  proof (cases rule: configure_traceE [OF conf])
    case (1 e)
    with \<open>DeleteConfigMap cm r \<in> set es2\<close> show ?thesis by simp
  next
    case (2 rest)
    then show ?thesis by (intro that [of "[_]" rest]) auto
  next
    case 3
    then show ?thesis by (intro that [of "[]" es2]) auto
  qed
  have own: "own_configmap b1 = own_configmap b" "cleanup_trace L (fill_identity s y b1) = cleanup_trace L b"
    using resolve_frame [OF res]
    by (auto simp: bucket_frame_def intro: own_configmap_same cleanup_trace_same)
  from rest es2 split_after [of us "ps @ es3" pre1 "DeleteConfigMap cm r" post] us
  obtain pre2 where pre1: "pre1 = us @ pre2" and rest2: "ps @ es3 = pre2 @ DeleteConfigMap cm r # post"
    by auto
  from delete_follows_publish [OF pub _ _ rest2 no3, of b] own pre pre1 show ?thesis by auto
qed

theorem stale_configmaps_only_witness:
  "controlled_by (cm_Meta ex_stale) ex_meta \<and>
   m_Name (cm_Meta ex_stale) \<noteq> desiredConfigMapName ex_import"
proof -
  obtain post where ev: "run_events (BucketReconciler_Reconcile mute_lib clean_kube ex_reconciler
      ex_req) ex_world =
       GetBucket ex_req (Inr ex_import) # (ex_evidence @ [BucketUpdate ''id1'' ex_quotas None,
         CreateOrUpdateConfigMap (own_configmap ex_import) (OperationResultUpdated, None),
         ListConfigMaps ''default'' (stale_selector ex_import) (Inr [ex_stale])]) @
       DeleteConfigMap ex_stale None # post"
    by (rule ex_clean_events)
  show ?thesis
    using stale_configmaps_only [OF surjective_pairing ev [unfolded run_events_def]] by simp
qed

end
