(* ===== verification/BucketPublish.thy ===== *)
theory BucketPublish
  imports BucketProps GarageApi
begin

text \<open>
  What the Bucket reconciler publishes: the ConfigMap's ownership and content over a store
  that keeps the laws of \<open>CreateOrUpdate\<close>, the quotas it settles on, and the condition reasons
  it writes against the pattern of the CRD.
\<close>

section \<open>The ConfigMap\<close>

lemma controlled_refs:
  "owner_laws L \<Longrightarrow> m_OwnerReferences m = m_OwnerReferences n \<Longrightarrow>
     IsControlledBy L m o' = IsControlledBy L n o'"
  by (simp add: owner_laws_def)

lemma configMapMutate_ok:
  assumes "owner_laws L" and "configMapMutate L b endpoint cm = Inr cm'"
  shows "IsControlledBy L (cm_Meta cm') (b_Meta b) \<and>
    label_get (m_Labels (cm_Meta cm')) labelBucketName = m_Name (b_Meta b) \<and>
    cm_Data cm' = [configMapKeyBucketName \<mapsto> bst_BucketName (b_Status b),
      configMapKeyEndpoint \<mapsto> endpoint]"
proof -
  from assms(2) obtain m where m: "SetControllerReference L (b_Meta b) (cm_Meta cm) = Inr m"
    and cm': "cm' = cm\<lparr>
          cm_Meta := m\<lparr>m_Labels := Some ((case m_Labels m of None \<Rightarrow> Map.empty | Some ls \<Rightarrow> ls)
                          (labelBucketName \<mapsto> m_Name (b_Meta b)))\<rparr>,
          cm_Data := [configMapKeyBucketName \<mapsto> bst_BucketName (b_Status b),
                      configMapKeyEndpoint \<mapsto> endpoint]\<rparr>"
    by (auto simp: configMapMutate_def split: if_splits sum.splits)
  from assms(1) m have "IsControlledBy L m (b_Meta b)" by (auto simp: owner_laws_def)
  moreover have "IsControlledBy L (cm_Meta cm') (b_Meta b) = IsControlledBy L m (b_Meta b)"
    by (rule controlled_refs [OF assms(1)]) (simp add: cm')
  ultimately show ?thesis by (simp add: cm' label_get_def map_get_def)
qed

lemma configMapMutate_foreign:
  "m_UID (cm_Meta cm) \<noteq> [] \<Longrightarrow> \<not> IsControlledBy L (cm_Meta cm) (b_Meta b) \<Longrightarrow>
     \<exists>e. configMapMutate L b endpoint cm = Inl e"
  by (simp add: configMapMutate_def)

text \<open>One call of \<open>CreateOrUpdate\<close> on a lawful store, at the key of the object.\<close>

lemma create_or_update_step:
  assumes "create_or_update_laws meta payload view op" and "op x f s = ((res, err), s')"
    and "k = (m_Namespace (meta x), m_Name (meta x))"
  shows "\<And>k'. k' \<noteq> k \<Longrightarrow> view s' k' = view s k'"
    and "err = None \<Longrightarrow> \<exists>new st. f (case view s k of None \<Rightarrow> x | Some cur \<Rightarrow> cur) = Inr new \<and>
      view s' k = Some st \<and> same_meta (meta st) (meta new) \<and> payload st = payload new"
    and "f (case view s k of None \<Rightarrow> x | Some cur \<Rightarrow> cur) = Inl e \<Longrightarrow> view s' k = view s k \<and> err \<noteq> None"
    and "view s k = Some y \<Longrightarrow> m_UID (meta y) \<noteq> []"
  using assms unfolding create_or_update_laws_def Let_def by blast+

text \<open>
  C21: the ConfigMap is the bucket's own: writing it leaves every other ConfigMap of the
  cluster as it was; one of that name which another object owns is left as it was too and the
  call fails; and when it succeeds the stored ConfigMap is controlled by the bucket, carries
  its label and holds exactly the name of the external bucket and the endpoint.
\<close>

theorem ensureConfigMap_safe:
  assumes L: "owner_laws L"
    and K: "create_or_update_laws cm_Meta cm_Data view (kCreateOrUpdateConfigMap K)"
    and run: "run_state (ensureConfigMap L K b endpoint) w = (r, w')"
    and k: "k = (m_Namespace (b_Meta b), desiredConfigMapName b)"
  shows "(\<forall>k'. k' = k \<or> view (ext w') k' = view (ext w) k') \<and>
    (\<forall>cm. view (ext w) k \<noteq> Some cm \<or> IsControlledBy L (cm_Meta cm) (b_Meta b) \<or>
       view (ext w') k = Some cm \<and> r \<noteq> None) \<and>
    (r \<noteq> None \<or> (\<exists>cm. view (ext w') k = Some cm \<and>
       IsControlledBy L (cm_Meta cm) (b_Meta b) \<and>
       label_get (m_Labels (cm_Meta cm)) labelBucketName = m_Name (b_Meta b) \<and>
       cm_Data cm = [configMapKeyBucketName \<mapsto> bst_BucketName (b_Status b),
         configMapKeyEndpoint \<mapsto> endpoint]))"
proof -
  let ?f = "configMapMutate L b endpoint"
  obtain res where op: "kCreateOrUpdateConfigMap K (own_configmap b) ?f (ext w) = ((res, r), ext w')"
    using run by (cases "kCreateOrUpdateConfigMap K (own_configmap b) ?f (ext w)")
      (auto simp: ensureConfigMap_def run_eval Let_def own_configmap_def)
  have key: "k = (m_Namespace (cm_Meta (own_configmap b)), m_Name (cm_Meta (own_configmap b)))"
    by (simp add: k own_configmap_def new_meta_def)
  note step = create_or_update_step [OF K op key]
  have "view (ext w') k = Some cm \<and> r \<noteq> None"
    if "view (ext w) k = Some cm" "\<not> IsControlledBy L (cm_Meta cm) (b_Meta b)" for cm
    using step(3) configMapMutate_foreign [OF step(4) that(2)] that(1) by fastforce
  moreover have "\<exists>cm. view (ext w') k = Some cm \<and>
       IsControlledBy L (cm_Meta cm) (b_Meta b) \<and>
       label_get (m_Labels (cm_Meta cm)) labelBucketName = m_Name (b_Meta b) \<and>
       cm_Data cm = [configMapKeyBucketName \<mapsto> bst_BucketName (b_Status b),
         configMapKeyEndpoint \<mapsto> endpoint]" if "r = None"
  proof -
    from step(2) [OF that] obtain new st where
      "?f (case view (ext w) k of None \<Rightarrow> own_configmap b | Some cur \<Rightarrow> cur) = Inr new"
      and st: "view (ext w') k = Some st" "same_meta (cm_Meta st) (cm_Meta new)"
        "cm_Data st = cm_Data new" by blast
    from configMapMutate_ok [OF L this(1)] st show ?thesis
      using controlled_refs [OF L, of "cm_Meta st" "cm_Meta new"] by (auto simp: same_meta_def)
  qed
  moreover have "k' = k \<or> view (ext w') k' = view (ext w) k'" for k'
    using step(1) by blast
  ultimately show ?thesis by (intro conjI allI) auto
qed

theorem ensureConfigMap_safe_witness:
  "run_state (ensureConfigMap plain_lib (ex_kube ex_import) ex_import ''http://s3'') ex_world =
     (None, snd (run_state (ensureConfigMap plain_lib (ex_kube ex_import) ex_import ''http://s3'')
       ex_world)) \<and>
   (\<exists>cm. valid_view cm_Meta (st_ConfigMaps (ext (snd (run_state (ensureConfigMap plain_lib
       (ex_kube ex_import) ex_import ''http://s3'') ex_world)))) (''default'', ''photos'') = Some cm \<and>
      controlled_by (cm_Meta cm) ex_meta \<and>
      cm_Data cm = [configMapKeyBucketName \<mapsto> [], configMapKeyEndpoint \<mapsto> ''http://s3''])"
proof -
  let ?r = "run_state (ensureConfigMap plain_lib (ex_kube ex_import) ex_import ''http://s3'') ex_world"
  have none: "fst ?r = None"
    by (simp add: ensureConfigMap_def run_eval Let_def ex_kube_def store_kube_def
        create_or_update_def valid_view_def ex_world_def empty_store_def configMapMutate_def
        desiredConfigMapName_def new_meta_def set_controller_def case_prod_beta)
  have K: "create_or_update_laws cm_Meta cm_Data (\<lambda>s. valid_view cm_Meta (st_ConfigMaps s))
      (kCreateOrUpdateConfigMap (ex_kube ex_import))"
    by (simp add: ex_kube_def store_kube_configmaps)
  show ?thesis
    using ensureConfigMap_safe [OF plain_lib_owner_laws K surjective_pairing refl,
        of ex_import "''http://s3''" ex_world] none
    by (auto simp: desiredConfigMapName_def prod_eq_iff)
qed

section \<open>Quotas\<close>

text \<open>
  The quotas converge exactly when neither is negative: after an update, a bucket that
  holds what the update sent and the next read returns is accepted by \<open>compareSpec\<close>, unless
  the spec has a negative limit; then the difference never goes away and every reconcile
  sends the same update again.
\<close>

theorem compareSpec_settles:
  "compareSpec L (s\<lparr>sb_Quotas := quotasToS3 (quotasFromS3 (spec_quotas L spec))\<rparr>) spec \<longleftrightarrow>
     sint (bs_MaxObjects spec) < 0 \<or> sint (QuantityValue L (bs_MaxSize spec)) < 0"
proof -
  have neg: "x \<noteq> 0 \<Longrightarrow> \<not> 0 < sint x \<Longrightarrow> sint x < 0" for x :: int64
    using sint_zero_cases by blast
  show ?thesis
    by (auto simp: compareSpec_def spec_quotas_def quotasToS3_def quotasFromS3_def intro: neg)
qed

section \<open>Condition reasons\<close>

lemma valid_unresolved:
  "unresolved L b b' \<Longrightarrow> valid_reasons L (b_Conditions b) \<Longrightarrow> valid_reasons L (b_Conditions b')"
  by (auto simp: unresolved_def valid_reasons_def)

lemma valid_published:
  "published_view L b b' err \<Longrightarrow> valid_reasons L (b_Conditions b) \<Longrightarrow> valid_reasons L (b_Conditions b')"
  by (auto simp: published_view_def valid_reasons_def)

lemma update_failed_not_ok:
  assumes "cond_laws L"
  shows "\<not> reason_ok (cond_view L (b_Conditions (update_failed L b e)) BucketReady)"
  by (simp add: update_failed_def mark_view [OF assms] update_failed_reason)

lemma reasons_after_update:
  assumes L: "cond_laws L" and b: "has_parts L b"
  shows "valid_reasons L (b_Conditions b) \<Longrightarrow>
      valid_reasons L (b_Conditions (updateBucketReadyCondition L b))"
    and "cond_view L (b_Conditions (updateBucketReadyCondition L b)) BucketReady =
      cond_view L (b_Conditions b) BucketReady"
proof -
  let ?s = "summary (part_views L (b_Conditions b) bucket_parts) bucket_waiting"
  have upd: "updateBucketReadyCondition L b = set_ready_bucket L ?s b"
    using b by (intro updateBucketReady_summary) (simp add: has_parts_def)
  show "cond_view L (b_Conditions (updateBucketReadyCondition L b)) BucketReady =
      cond_view L (b_Conditions b) BucketReady"
    by (simp add: upd set_ready_bucket_simps [OF L])
  assume v: "valid_reasons L (b_Conditions b)"
  then have "reason_valid (fst (snd ?s))"
    by (intro summary_reason ballI)
      (auto simp: valid_reasons_def bucket_waiting_def intro: part_views_reason [of bucket_parts L "b_Conditions b"])
  with v show "valid_reasons L (b_Conditions (updateBucketReadyCondition L b))"
    by (auto simp: valid_reasons_def upd set_ready_bucket_simps [OF L] split: prod.splits)
qed

definition quota_update_failed :: "ctrl_event list \<Rightarrow> bool" where
  "quota_update_failed es \<longleftrightarrow> (\<exists>i q e. BucketUpdate i q (Some e) \<in> set es)"

lemma configure_reasons:
  assumes L: "cond_laws L" and conf: "configure_trace L b s y b' out es"
    and b: "valid_reasons L (b_Conditions b)"
  shows "if quota_update_failed es then \<not> reason_ok (cond_view L (b_Conditions b') BucketReady)
    else valid_reasons L (b_Conditions b')"
proof -
  have pub: "valid_reasons L (b_Conditions b') \<and> \<not> quota_update_failed ps"
    if "publish_trace L (fill_identity s y b) b' out ps" for ps
    using that b L publish_trace_events [OF that]
    by (auto simp: publish_trace_def quota_update_failed_def intro: valid_published)
  show ?thesis
  proof (cases rule: configure_traceE [OF conf])
    case (1 e)
    then show ?thesis by (auto simp: quota_update_failed_def update_failed_not_ok [OF L])
  next
    case (2 rest)
    with pub [OF 2(3)] show ?thesis by (auto simp: quota_update_failed_def)
  next
    case 3
    with pub [OF 3(2)] show ?thesis by simp
  qed
qed

text \<open>
  C36: the API server accepts the status a reconcile leaves, unless the quota update failed:
  if the reasons of the stored conditions fit the CRD's pattern, then so do those of the
  reported ones exactly when no quota update of the run failed; a failed one writes the
  reason \<open>Update Failed\<close>, whose space the pattern does not admit.
\<close>

theorem bucket_reasons_valid_iff:
  assumes L: "cond_laws L" and K: "status_eq_laws K"
    and run: "run_state (BucketReconciler_Reconcile L K R req) w = (out, w')" and "out \<noteq> Panicked"
    and ev: "new_events w w' = GetBucket req (Inr b) # es"
    and b: "valid_reasons L (b_Conditions b)"
  shows "valid_reasons L (bst_Conditions (reported_status (b_Status b) es)) \<longleftrightarrow>
    \<not> quota_update_failed es"
proof -
  from Reconcile_run [OF run ev] obtain b1 b2 r o' es1 es2 es3
    where es: "es = es1 @ es2 @ es3"
      and res: "resolve_trace L (initializeBucketConditions L b) b1 r es1"
      and settle: "settle_trace L R b1 r b2 o' es2"
      and fin: "case o' of Panicked \<Rightarrow> out = Panicked \<and> es3 = []
         | Returned result err \<Rightarrow> finish_trace L K (b_Status b) b2 result err out es3"
    by (rule bucket_runE)
  have init: "valid_reasons L (b_Conditions (initializeBucketConditions L b))"
    unfolding initializeBucketConditions_def b_set_conditions_simps
    by (rule valid_reasons_init [OF L b])
  have rep: "reported_status (b_Status b) es = b_Status (updateBucketReadyCondition L b2)"
    using reported_run [OF K fin \<open>out \<noteq> Panicked\<close> res settle es] .
  have "\<not> quota_update_failed es1" "\<not> quota_update_failed es3"
    using res by (auto simp: quota_update_failed_def resolve_trace_def new_bucket_trace_def
        existing_bucket_trace_def list_all_iff Let_def split: option.splits
        dest!: last_events [OF fin])
  then have quf: "quota_update_failed es = quota_update_failed es2"
    by (auto simp: quota_update_failed_def es)
  have b2: "if quota_update_failed es2 then \<not> reason_ok (cond_view L (b_Conditions b2) BucketReady)
    else valid_reasons L (b_Conditions b2)"
  proof (cases r)
    case (Inl e)
    with res settle L have "unresolved L (initializeBucketConditions L b) b2" "es2 = []"
      by (simp_all add: resolve_trace_def)
    with valid_unresolved [OF this(1) init] show ?thesis by (simp add: quota_update_failed_def)
  next
    case (Inr sy)
    then obtain s y where r: "r = Inr (s, y)" by (cases sy) auto
    with resolve_trace_found(3) [OF res [unfolded r]] settle init configure_reasons [OF L]
    show ?thesis by auto
  qed
  have parts: "has_parts L b2" using reconcile_parts [OF L res settle] by simp
  from b2 reasons_after_update [OF L parts] show ?thesis
    unfolding rep quf by (cases "quota_update_failed es2") (simp, metis valid_reasons_def, simp)
qed

theorem bucket_reasons_valid_iff_witness:
  "let es = tl (run_events (BucketReconciler_Reconcile plain_lib (ex_kube ex_import) ex_reconciler
      ex_req) ex_world)
   in valid_reasons plain_lib (bst_Conditions (reported_status (b_Status ex_import) es)) \<longleftrightarrow>
      \<not> quota_update_failed es"
proof -
  have "valid_reasons plain_lib (b_Conditions ex_import)"
    by (simp add: valid_reasons_def cond_view_def ex_import_def)
  from bucket_reasons_valid_iff [OF plain_lib_cond_laws ex_status_eq surjective_pairing
      ex_not_panicked ex_reads [unfolded run_events_def] this]
  show ?thesis by (simp add: Let_def run_events_def)
qed

end
