(* ===== verification/AccessKeyController.thy ===== *)
theory AccessKeyController
  imports KubeClient Conditions Names
begin

text \<open>
  The AccessKey reconciler (\<^verbatim>\<open>internal/controller/accesskey_controller.go\<close>), function by
  function.  As in the other controllers the Go code mutates the object it was given and the
  model returns it; a Go function returning \<open>error\<close> returns an \<open>error option\<close>.
\<close>

definition SecretTypeOpaque :: string where "SecretTypeOpaque = ''Opaque''"

record 's AccessKeyReconciler =
  key_Create :: "string \<Rightarrow> 's \<Rightarrow> (error + s3_access_key) \<times> 's"
  key_Get :: "string \<Rightarrow> 's \<Rightarrow> (error + s3_access_key) \<times> 's"
  key_Lookup :: "string \<Rightarrow> 's \<Rightarrow> (error + s3_access_key) \<times> 's"
  key_Delete :: "string \<Rightarrow> 's \<Rightarrow> error option \<times> 's"

definition NewAccessKeyReconciler ::
  "(string \<Rightarrow> 's \<Rightarrow> (error + s3_access_key) \<times> 's) \<Rightarrow> (string \<Rightarrow> 's \<Rightarrow> (error + s3_access_key) \<times> 's) \<Rightarrow>
   (string \<Rightarrow> 's \<Rightarrow> (error + s3_access_key) \<times> 's) \<Rightarrow> (string \<Rightarrow> 's \<Rightarrow> error option \<times> 's) \<Rightarrow>
   's AccessKeyReconciler" where
  "NewAccessKeyReconciler create get lookup delete =
     \<lparr>key_Create = create, key_Get = get, key_Lookup = lookup, key_Delete = delete\<rparr>"

definition AccessKeyReconciler_SetupWithManager :: "object_change \<Rightarrow> nsname list" where
  "AccessKeyReconciler_SetupWithManager ch = (case ch of
     AccessKeyChanged k \<Rightarrow> [own_request (k_Meta k)] | _ \<Rightarrow> [])"

section \<open>The external key\<close>

definition resolveExtKeyID ::
  "'s AccessKeyReconciler \<Rightarrow> AccessKey \<Rightarrow> ('s cworld, error + string) state" where
  "resolveExtKeyID R k =
     (if kst_AccessKeyID (k_Status k) \<noteq> []
      then State_Monad.return (Inr (kst_AccessKeyID (k_Status k)))
      else do {
        let name = namespacedResourceName (k_Meta k);
        r \<leftarrow> call (key_Lookup R name) (KeyLookup name);
        State_Monad.return (case r of
          Inl err \<Rightarrow>
            if errors_Is err ErrResourceNotFound then Inr []
            else Inl (wrap ''looking up key for deletion: '' err)
        | Inr key \<Rightarrow> Inr (sk_ID key))
      })"

definition ensureExternalKey ::
  "'s AccessKeyReconciler \<Rightarrow> AccessKey \<Rightarrow> ('s cworld, error + s3_access_key) state" where
  "ensureExternalKey R k =
     (let externalKeyName = namespacedResourceName (k_Meta k);
          ident = kst_AccessKeyID (k_Status k)
      in if ident \<noteq> [] then do {
           r \<leftarrow> call (key_Get R ident) (KeyGet ident);
           (case r of
              Inl err \<Rightarrow>
                if errors_Is err ErrResourceNotFound
                then call (key_Create R externalKeyName) (KeyCreate externalKeyName)
                else State_Monad.return (Inl (wrap ''verifying existing key: '' err))
            | Inr existing \<Rightarrow> State_Monad.return (Inr existing))
         }
         else do {
           r \<leftarrow> call (key_Lookup R externalKeyName) (KeyLookup externalKeyName);
           (case r of
              Inl err \<Rightarrow>
                if errors_Is err ErrResourceNotFound
                then call (key_Create R externalKeyName) (KeyCreate externalKeyName)
                else State_Monad.return
                  (Inl (wrap ''unable to check for existing remote key: '' err))
            | Inr existingKey \<Rightarrow> State_Monad.return (Inr existingKey))
         })"

section \<open>The secret with the credentials\<close>

definition secretFor :: "AccessKey \<Rightarrow> secret" where
  "secretFor parent =
     \<lparr>s_Meta = (new_meta (ks_SecretName (k_Spec parent)) (m_Namespace (k_Meta parent)))
        \<lparr>m_Labels := Some [''garage.getclustered.net/owned-by'' \<mapsto> m_Name (k_Meta parent)]\<rparr>,
      s_Type = SecretTypeOpaque, s_Data = Map.empty\<rparr>"

definition secretMutate :: "AccessKey \<Rightarrow> string \<Rightarrow> secret \<Rightarrow> error + secret" where
  "secretMutate parent sec s = Inr (s\<lparr>s_Data :=
     [SecretKeyAccessKeyID \<mapsto> kst_AccessKeyID (k_Status parent),
      SecretKeySecretAccessKey \<mapsto> sec]\<rparr>)"

definition writeSecret ::
  "lib \<Rightarrow> 's kube \<Rightarrow> AccessKey \<Rightarrow> string \<Rightarrow> ('s cworld, error option) state" where
  "writeSecret L K parent sec =
     (case SetControllerReference L (k_Meta parent) (s_Meta (secretFor parent)) of
        Inl err \<Rightarrow> State_Monad.return (Some (wrap ''setting owner reference on secret: '' err))
      | Inr m \<Rightarrow> do {
          let secretRes = (secretFor parent)\<lparr>s_Meta := m\<rparr>;
          r \<leftarrow> call (kCreateOrUpdateSecret K secretRes (secretMutate parent sec))
                 (CreateOrUpdateSecret secretRes);
          State_Monad.return (snd r)
        })"

definition ensureSecret ::
  "lib \<Rightarrow> 's kube \<Rightarrow> AccessKey \<Rightarrow> string \<Rightarrow> ('s cworld, error option) state" where
  "ensureSecret L K parent sec = do {
     let name = (m_Namespace (k_Meta parent), ks_SecretName (k_Spec parent));
     r \<leftarrow> call (kGetSecret K name) (GetSecret name);
     (case r of
        Inl err \<Rightarrow>
          if \<not> IsNotFound L err
          then State_Monad.return (Some (wrap ''checking for existing secret: '' err))
          else writeSecret L K parent sec
      | Inr existingSecret \<Rightarrow>
          if \<not> IsControlledBy L (s_Meta existingSecret) (k_Meta parent)
          then State_Monad.return (Some (wrap
            (''existing secret '' @ [CHR 0x27] @ m_Name (s_Meta existingSecret) @ [CHR 0x27] @
             '' not owned by AccessKey '' @ [CHR 0x27] @ FormatMeta L (k_Meta parent) @
             [CHR 0x27] @ '': '') (Sentinel errNameConflict)))
          else writeSecret L K parent sec)
   }"

definition cleanupOldSecret ::
  "lib \<Rightarrow> 's kube \<Rightarrow> string \<Rightarrow> string \<Rightarrow> ('s cworld, error option) state" where
  "cleanupOldSecret L K secretName ns = do {
     let oldSecret = \<lparr>s_Meta = new_meta secretName ns, s_Type = [], s_Data = Map.empty\<rparr>;
     err \<leftarrow> call (kDeleteSecret K oldSecret) (DeleteSecret oldSecret);
     State_Monad.return (case err of
       None \<Rightarrow> None
     | Some e \<Rightarrow>
         if \<not> IsNotFound L e
         then Some (wrap (''deleting secret '' @ [CHR 0x27] @ ns @ ''/'' @ secretName @
                [CHR 0x27] @ '': '') e)
         else None)
   }"

section \<open>Reconciling\<close>

text \<open>
  The test that skips a reconciled object.  Its second conjunct dereferences a condition, so
  it panics (\<open>None\<close>) when it is reached and the condition is missing.
\<close>

definition keySettled :: "lib \<Rightarrow> AccessKey \<Rightarrow> bool option" where
  "keySettled L k =
     (if kst_ObservedGeneration (k_Status k) \<noteq> k_Generation k then Some False
      else map_option (\<lambda>s. s = ConditionTrue \<and> kst_AccessKeyID (k_Status k) \<noteq> [])
             (externalKeyReadyStat L k))"

definition finishSecret ::
  "lib \<Rightarrow> 's kube \<Rightarrow> AccessKey \<Rightarrow> ('s cworld, AccessKey \<times> error option) state" where
  "finishSecret L K k = do {
     let old = kst_SecretName (k_Status k);
     let done = markSecretReady L
           (k\<lparr>k_Status := (k_Status k)\<lparr>kst_SecretName := ks_SecretName (k_Spec k)\<rparr>\<rparr>);
     (if old \<noteq> [] \<and> old \<noteq> ks_SecretName (k_Spec k) then do {
        err \<leftarrow> cleanupOldSecret L K old (m_Namespace (k_Meta k));
        State_Monad.return (case err of
          Some e \<Rightarrow>
            (markSecretNotReady L k ''SecretCleanupFailed''
               (''New secret created but failed to delete old secret '' @ quote old @ '': '' @
                errmsg e), Some e)
        | None \<Rightarrow> (done, None))
      }
      else State_Monad.return (done, None))
   }"

definition establishKey ::
  "lib \<Rightarrow> 's kube \<Rightarrow> 's AccessKeyReconciler \<Rightarrow> AccessKey \<Rightarrow>
     ('s cworld, AccessKey \<times> error option) state" where
  "establishKey L K R k = do {
        r \<leftarrow> ensureExternalKey R k;
        (case r of
           Inl err \<Rightarrow> State_Monad.return
             (markAccessKeyNotReady L k ''AccessKeyUnknown''
                (''Failed to verify external access key: '' @ errmsg err), Some err)
         | Inr externalKey \<Rightarrow> do {
             let k = markAccessKeyReady L
                   (k\<lparr>k_Status := (k_Status k)\<lparr>kst_AccessKeyID := sk_ID externalKey\<rparr>\<rparr>);
             let ns = m_Namespace (k_Meta k);
             err \<leftarrow> ensureSecret L K k (sk_Secret externalKey);
             (case err of
                Some e \<Rightarrow>
                  if errors_Is e errNameConflict then State_Monad.return
                    (markSecretNotReady L k ReasonSecretNameConflict
                       (''Conflict: '' @ errmsg e), None)
                  else if IsForbidden L e then do {
                    _ \<leftarrow> emit (Eventf EventTypeWarning ReasonSecretAccessForbidden
                           (access_message ''Secrets'' ns e @ ''. '' @ rbacRemedyMsg));
                    State_Monad.return
                      (markSecretNotReady L k ReasonSecretAccessForbidden
                         (access_message ''Secrets'' ns e), Some e)
                  }
                  else State_Monad.return
                    (markSecretNotReady L k ReasonSecretSetupFailed
                       (''Failed to set up secret for credentials: '' @ errmsg e), Some e)
              | None \<Rightarrow> finishSecret L K k)
           })
      }"

definition reconcileAccessKey ::
  "lib \<Rightarrow> 's kube \<Rightarrow> 's AccessKeyReconciler \<Rightarrow> AccessKey \<Rightarrow>
     ('s cworld, (AccessKey \<times> error option) option) state" where
  "reconcileAccessKey L K R k =
     (case keySettled L k of
        None \<Rightarrow> State_Monad.return None
      | Some settled \<Rightarrow>
          if settled then State_Monad.return (Some (k, None))
          else do {
            r \<leftarrow> establishKey L K R k;
            State_Monad.return (Some r)
          })"

definition updateStatus ::
  "'s kube \<Rightarrow> nsname \<Rightarrow> AccessKeyStatus \<Rightarrow> ('s cworld, error option) state" where
  "updateStatus K name st = do {
     r \<leftarrow> call (kGetAccessKey K name) (GetAccessKey name);
     (case r of
        Inl err \<Rightarrow> State_Monad.return
          (Some (wrap ''re-reading access key for status update: '' err))
      | Inr latest \<Rightarrow> do {
          let latest = latest\<lparr>k_Status := st\<rparr>;
          call (kUpdateAccessKeyStatus K latest) (UpdateAccessKeyStatus latest)
        })
   }"

definition finishKey ::
  "lib \<Rightarrow> 's kube \<Rightarrow> nsname \<Rightarrow> AccessKeyStatus \<Rightarrow> AccessKey \<Rightarrow> error option \<Rightarrow>
     ('s cworld, outcome) state" where
  "finishKey L K req orig k err =
     (if \<not> AccessKeyStatusEqual K orig (k_Status k) then do {
        statusErr \<leftarrow> updateStatus K req (k_Status k);
        State_Monad.return (case statusErr of
          Some e \<Rightarrow>
            if IsConflict L e then Returned no_requeue None
            else if err = None then Returned no_requeue (Some e)
            else Returned no_requeue err
        | None \<Rightarrow> Returned no_requeue err)
      }
      else State_Monad.return (Returned no_requeue err))"

definition reconcileLiveKey ::
  "lib \<Rightarrow> 's kube \<Rightarrow> 's AccessKeyReconciler \<Rightarrow> nsname \<Rightarrow> AccessKey \<Rightarrow>
     ('s cworld, outcome) state" where
  "reconcileLiveKey L K R req k = do {
     let orig = k_Status k;
     r \<leftarrow> reconcileAccessKey L K R (InitializeConditions L k);
     (case r of
        None \<Rightarrow> State_Monad.return Panicked
      | Some (k', err) \<Rightarrow>
          (case updateAccessKeyCondition L k' of
             None \<Rightarrow> State_Monad.return Panicked
           | Some k'' \<Rightarrow> finishKey L K req orig k'' err))
   }"

definition releaseKey ::
  "lib \<Rightarrow> 's kube \<Rightarrow> AccessKey \<Rightarrow> ('s cworld, outcome) state" where
  "releaseKey L K k = do {
     let k = k\<lparr>k_Meta := RemoveFinalizer L (k_Meta k) finalizerName\<rparr>;
     err \<leftarrow> call (kUpdateAccessKey K k) (UpdateAccessKey k);
     State_Monad.return (Returned no_requeue err)
   }"

definition finalizeKey ::
  "lib \<Rightarrow> 's kube \<Rightarrow> 's AccessKeyReconciler \<Rightarrow> AccessKey \<Rightarrow> ('s cworld, outcome) state" where
  "finalizeKey L K R k = do {
     r \<leftarrow> resolveExtKeyID R k;
     (case r of
        Inl err \<Rightarrow> State_Monad.return (Returned no_requeue (Some err))
      | Inr ident \<Rightarrow>
          if ident \<noteq> [] then do {
            err \<leftarrow> call (key_Delete R ident) (KeyDelete ident);
            (case err of
               Some e \<Rightarrow>
                 if \<not> errors_Is e ErrResourceNotFound
                 then State_Monad.return (Returned no_requeue (Some e))
                 else releaseKey L K k
             | None \<Rightarrow> releaseKey L K k)
          }
          else releaseKey L K k)
   }"

definition AccessKeyReconciler_Reconcile ::
  "lib \<Rightarrow> 's kube \<Rightarrow> 's AccessKeyReconciler \<Rightarrow> nsname \<Rightarrow> ('s cworld, outcome) state" where
  "AccessKeyReconciler_Reconcile L K R req = do {
     r \<leftarrow> call (kGetAccessKey K req) (GetAccessKey req);
     (case r of
        Inl err \<Rightarrow> State_Monad.return
          (if IsNotFound L err then Returned no_requeue None else Returned no_requeue (Some err))
      | Inr k \<Rightarrow>
          if m_DeletionTimestamp (k_Meta k) = None then
            (if \<not> ContainsFinalizer L (k_Meta k) finalizerName then do {
               let k' = k\<lparr>k_Meta := AddFinalizer L (k_Meta k) finalizerName\<rparr>;
               p \<leftarrow> call (kPatchAccessKey K k k') (PatchAccessKey k');
               (case p of
                  Inl err \<Rightarrow> State_Monad.return (Returned no_requeue (Some err))
                | Inr patched \<Rightarrow> reconcileLiveKey L K R req patched)
             }
             else reconcileLiveKey L K R req k)
          else if ContainsFinalizer L (k_Meta k) finalizerName then finalizeKey L K R k
          else State_Monad.return (Returned no_requeue None))
   }"

end
