(* ===== verification/AccessKeyTrace.thy ===== *)
theory AccessKeyTrace
  imports AccessKeyController ReadySummary
begin

text \<open>
  What each function of the AccessKey reconciler does: the events it appends and the object
  it leaves.
\<close>

section \<open>The key between the steps\<close>

lemma key_mark_simps [simp]:
  "k_Meta (markAccessKeyReady L k) = k_Meta k" "k_Spec (markAccessKeyReady L k) = k_Spec k"
  "k_Meta (markAccessKeyNotReady L k r m) = k_Meta k"
  "k_Spec (markAccessKeyNotReady L k r m) = k_Spec k"
  "k_Meta (markSecretReady L k) = k_Meta k" "k_Spec (markSecretReady L k) = k_Spec k"
  "k_Meta (markSecretNotReady L k r m) = k_Meta k" "k_Spec (markSecretNotReady L k r m) = k_Spec k"
  "k_Meta (InitializeConditions L k) = k_Meta k" "k_Spec (InitializeConditions L k) = k_Spec k"
  by (simp_all add: markAccessKeyReady_def markAccessKeyNotReady_def markSecretReady_def
      markSecretNotReady_def InitializeConditions_def)

lemma key_mark_status [simp]:
  "kst_AccessKeyID (k_Status (markAccessKeyReady L k)) = kst_AccessKeyID (k_Status k)"
  "kst_SecretName (k_Status (markAccessKeyReady L k)) = kst_SecretName (k_Status k)"
  "kst_ObservedGeneration (k_Status (markAccessKeyReady L k)) = kst_ObservedGeneration (k_Status k)"
  "kst_AccessKeyID (k_Status (markAccessKeyNotReady L k r m)) = kst_AccessKeyID (k_Status k)"
  "kst_SecretName (k_Status (markAccessKeyNotReady L k r m)) = kst_SecretName (k_Status k)"
  "kst_ObservedGeneration (k_Status (markAccessKeyNotReady L k r m)) =
     kst_ObservedGeneration (k_Status k)"
  "kst_AccessKeyID (k_Status (markSecretReady L k)) = kst_AccessKeyID (k_Status k)"
  "kst_SecretName (k_Status (markSecretReady L k)) = kst_SecretName (k_Status k)"
  "kst_ObservedGeneration (k_Status (markSecretReady L k)) = kst_ObservedGeneration (k_Status k)"
  "kst_AccessKeyID (k_Status (markSecretNotReady L k r m)) = kst_AccessKeyID (k_Status k)"
  "kst_SecretName (k_Status (markSecretNotReady L k r m)) = kst_SecretName (k_Status k)"
  "kst_ObservedGeneration (k_Status (markSecretNotReady L k r m)) =
     kst_ObservedGeneration (k_Status k)"
  "kst_AccessKeyID (k_Status (InitializeConditions L k)) = kst_AccessKeyID (k_Status k)"
  "kst_SecretName (k_Status (InitializeConditions L k)) = kst_SecretName (k_Status k)"
  "kst_ObservedGeneration (k_Status (InitializeConditions L k)) =
     kst_ObservedGeneration (k_Status k)"
  by (simp_all add: markAccessKeyReady_def markAccessKeyNotReady_def markSecretReady_def
      markSecretNotReady_def InitializeConditions_def)

lemma key_mark_view:
  assumes "cond_laws L"
  shows "cond_view L (k_Conditions (markAccessKeyReady L k)) t =
      (if t = AccessKeyReady
       then Some (ConditionTrue, ''AccessKeyReady'', ''External access key is ready'', k_Generation k)
       else cond_view L (k_Conditions k) t)"
    and "cond_view L (k_Conditions (markAccessKeyNotReady L k r m)) t =
      (if t = AccessKeyReady then Some (ConditionFalse, r, m, k_Generation k)
       else cond_view L (k_Conditions k) t)"
    and "cond_view L (k_Conditions (markSecretReady L k)) t =
      (if t = KeySecretReady
       then Some (ConditionTrue, ''SecretReady'', ''Secret for external access key is ready'',
         k_Generation k)
       else cond_view L (k_Conditions k) t)"
    and "cond_view L (k_Conditions (markSecretNotReady L k r m)) t =
      (if t = KeySecretReady then Some (ConditionFalse, r, m, k_Generation k)
       else cond_view L (k_Conditions k) t)"
  by (simp_all add: markAccessKeyReady_def markAccessKeyNotReady_def markSecretReady_def
      markSecretNotReady_def markNotReady_def cond_view_set [OF assms])

section \<open>The external key\<close>

text \<open>How the code looks for the key: by the recorded ID, or by its name when none is.\<close>

definition key_probe :: "AccessKey \<Rightarrow> error + s3_access_key \<Rightarrow> ctrl_event" where
  "key_probe k r =
     (if kst_AccessKeyID (k_Status k) \<noteq> [] then KeyGet (kst_AccessKeyID (k_Status k)) r
      else KeyLookup (namespacedResourceName (k_Meta k)) r)"

definition key_trace :: "AccessKey \<Rightarrow> error + s3_access_key \<Rightarrow> ctrl_event list \<Rightarrow> bool" where
  "key_trace k r es \<longleftrightarrow>
     (\<exists>x. es = [key_probe k (Inr x)] \<and> r = Inr x) \<or>
     (\<exists>e m. es = [key_probe k (Inl e)] \<and> \<not> errors_Is e ErrResourceNotFound \<and> r = Inl (wrap m e)) \<or>
     (\<exists>e. es = [key_probe k (Inl e), KeyCreate (namespacedResourceName (k_Meta k)) r] \<and>
        errors_Is e ErrResourceNotFound)"

lemma ensureExternalKey_trace: "produces (ensureExternalKey R k) (key_trace k)"
  unfolding ensureExternalKey_def Let_def
  by (intro produces_intros) (auto simp: key_trace_def key_probe_def)

section \<open>The secret\<close>

text \<open>The name asked for is free, or taken by a secret of this very object.\<close>

definition secret_free :: "lib \<Rightarrow> AccessKey \<Rightarrow> error + secret \<Rightarrow> bool" where
  "secret_free L k r = (case r of
     Inl e \<Rightarrow> IsNotFound L e | Inr s \<Rightarrow> IsControlledBy L (s_Meta s) (k_Meta k))"

definition secret_name :: "AccessKey \<Rightarrow> nsname" where
  "secret_name k = (m_Namespace (k_Meta k), ks_SecretName (k_Spec k))"

definition secret_trace ::
  "lib \<Rightarrow> AccessKey \<Rightarrow> error option \<Rightarrow> ctrl_event list \<Rightarrow> bool" where
  "secret_trace L k out es \<longleftrightarrow>
     (\<exists>r. es = [GetSecret (secret_name k) r] \<and> out \<noteq> None \<and> (secret_free L k r \<longrightarrow>
        isl (SetControllerReference L (k_Meta k) (s_Meta (secretFor k))))) \<or>
     (\<exists>r m res. es = [GetSecret (secret_name k) r,
          CreateOrUpdateSecret ((secretFor k)\<lparr>s_Meta := m\<rparr>) (res, out)] \<and> secret_free L k r \<and>
        SetControllerReference L (k_Meta k) (s_Meta (secretFor k)) = Inr m)"

lemma writeSecret_trace:
  "produces (writeSecret L K k sec) (\<lambda>out es. (es = [] \<and> out \<noteq> None \<and>
        isl (SetControllerReference L (k_Meta k) (s_Meta (secretFor k)))) \<or>
     (\<exists>m res. es = [CreateOrUpdateSecret ((secretFor k)\<lparr>s_Meta := m\<rparr>) (res, out)] \<and>
        SetControllerReference L (k_Meta k) (s_Meta (secretFor k)) = Inr m))"
  unfolding writeSecret_def Let_def
  by (intro produces_intros) (auto intro: prod.collapse [symmetric])

lemma ensureSecret_trace: "produces (ensureSecret L K k sec) (secret_trace L k)"
  unfolding ensureSecret_def Let_def secret_name_def [symmetric]
  by (intro produces_intros produces_mono [OF writeSecret_trace])
    (auto simp: secret_trace_def secret_free_def)

text \<open>Renaming: the secret of the old name is deleted once the new one is there.\<close>

definition renamed :: "AccessKey \<Rightarrow> bool" where
  "renamed k \<longleftrightarrow> kst_SecretName (k_Status k) \<noteq> [] \<and>
     kst_SecretName (k_Status k) \<noteq> ks_SecretName (k_Spec k)"

definition old_secret :: "AccessKey \<Rightarrow> secret" where
  "old_secret k = \<lparr>s_Meta = new_meta (kst_SecretName (k_Status k)) (m_Namespace (k_Meta k)),
     s_Type = [], s_Data = Map.empty\<rparr>"

definition secret_done :: "lib \<Rightarrow> AccessKey \<Rightarrow> AccessKey" where
  "secret_done L k = markSecretReady L
     (k\<lparr>k_Status := (k_Status k)\<lparr>kst_SecretName := ks_SecretName (k_Spec k)\<rparr>\<rparr>)"

definition rename_trace ::
  "lib \<Rightarrow> AccessKey \<Rightarrow> AccessKey \<Rightarrow> error option \<Rightarrow> ctrl_event list \<Rightarrow> bool" where
  "rename_trace L k k' err es \<longleftrightarrow>
     (\<not> renamed k \<and> es = [] \<and> k' = secret_done L k \<and> err = None) \<or>
     (renamed k \<and> (\<exists>d. es = [DeleteSecret (old_secret k) d] \<and>
        (gone L d \<and> k' = secret_done L k \<and> err = None \<or>
         \<not> gone L d \<and> err \<noteq> None \<and>
           (\<exists>m. k' = markSecretNotReady L k ''SecretCleanupFailed'' m))))"

lemma cleanupOldSecret_trace:
  "produces (cleanupOldSecret L K (kst_SecretName (k_Status k)) (m_Namespace (k_Meta k)))
     (\<lambda>out es. \<exists>d. es = [DeleteSecret (old_secret k) d] \<and> (out = None) = gone L d)"
  unfolding cleanupOldSecret_def Let_def old_secret_def [symmetric]
  by (intro produces_intros) (auto split: option.splits)

lemma finishSecret_trace:
  "produces (finishSecret L K k) (\<lambda>(k', err) es. rename_trace L k k' err es)"
  unfolding finishSecret_def Let_def secret_done_def [symmetric]
  by (intro produces_intros produces_mono [OF cleanupOldSecret_trace])
    (auto simp: rename_trace_def renamed_def split: option.splits)

section \<open>Reconciling\<close>

text \<open>The reasons a failure to write the secret is reported with.\<close>

definition secret_reason :: "string \<Rightarrow> bool" where
  "secret_reason r \<longleftrightarrow> r = ReasonSecretAccessForbidden \<or> r = ReasonSecretSetupFailed"

definition credentials_trace ::
  "lib \<Rightarrow> AccessKey \<Rightarrow> AccessKey \<Rightarrow> error option \<Rightarrow> ctrl_event list \<Rightarrow> bool" where
  "credentials_trace L k k' err es \<longleftrightarrow>
     (\<exists>es1 es2. es = es1 @ es2 \<and> secret_trace L k None es1 \<and> rename_trace L k k' err es2) \<or>
     (\<exists>e m. secret_trace L k (Some e) es \<and> errors_Is e errNameConflict \<and> err = None \<and>
        k' = markSecretNotReady L k ReasonSecretNameConflict m) \<or>
     (\<exists>e es1 es2 r m. es = es1 @ es2 \<and> secret_trace L k (Some e) es1 \<and> err = Some e \<and>
        (es2 = [] \<or> (\<exists>m. es2 = [Eventf EventTypeWarning ReasonSecretAccessForbidden m])) \<and>
        secret_reason r \<and> k' = markSecretNotReady L k r m)"

text \<open>The object once the external key is known.\<close>

definition key_found :: "lib \<Rightarrow> s3_access_key \<Rightarrow> AccessKey \<Rightarrow> AccessKey" where
  "key_found L x k = markAccessKeyReady L
     (k\<lparr>k_Status := (k_Status k)\<lparr>kst_AccessKeyID := sk_ID x\<rparr>\<rparr>)"

definition establish_trace ::
  "lib \<Rightarrow> AccessKey \<Rightarrow> AccessKey \<Rightarrow> error option \<Rightarrow> ctrl_event list \<Rightarrow> bool" where
  "establish_trace L k k' err es \<longleftrightarrow>
     (\<exists>e m. key_trace k (Inl e) es \<and> err = Some e \<and>
        k' = markAccessKeyNotReady L k ''AccessKeyUnknown'' m) \<or>
     (\<exists>x es1 es2. es = es1 @ es2 \<and> key_trace k (Inr x) es1 \<and>
        credentials_trace L (key_found L x k) k' err es2)"

text \<open>The object after each step, seen through its conditions and status fields.\<close>

lemma key_found_simps [simp]:
  "k_Meta (key_found L x k) = k_Meta k" "k_Spec (key_found L x k) = k_Spec k"
  "kst_AccessKeyID (k_Status (key_found L x k)) = sk_ID x"
  "kst_SecretName (k_Status (key_found L x k)) = kst_SecretName (k_Status k)"
  "kst_ObservedGeneration (k_Status (key_found L x k)) = kst_ObservedGeneration (k_Status k)"
  by (simp_all add: key_found_def)

lemma secret_done_simps [simp]:
  "k_Meta (secret_done L k) = k_Meta k" "k_Spec (secret_done L k) = k_Spec k"
  "kst_AccessKeyID (k_Status (secret_done L k)) = kst_AccessKeyID (k_Status k)"
  "kst_SecretName (k_Status (secret_done L k)) = ks_SecretName (k_Spec k)"
  "kst_ObservedGeneration (k_Status (secret_done L k)) = kst_ObservedGeneration (k_Status k)"
  by (simp_all add: secret_done_def)

lemma renamed_found [simp]:
  "renamed (key_found L x k) = renamed k" "old_secret (key_found L x k) = old_secret k"
  "secretFor (key_found L x k) = secretFor k" "secret_name (key_found L x k) = secret_name k"
  by (simp_all add: renamed_def old_secret_def secretFor_def secret_name_def)

lemma establish_failed:
  "key_trace k (Inl e) es \<Longrightarrow>
     establish_trace L k (markAccessKeyNotReady L k ''AccessKeyUnknown'' m) (Some e) es"
  unfolding establish_trace_def by blast

lemma establish_found:
  "key_trace k (Inr x) es \<Longrightarrow> credentials_trace L (key_found L x k) k' err fs \<Longrightarrow>
     establish_trace L k k' err (es @ fs)"
  unfolding establish_trace_def by blast

lemma credentialsI:
  "secret_trace L k None es \<Longrightarrow> rename_trace L k k' err fs \<Longrightarrow> credentials_trace L k k' err (es @ fs)"
  "secret_trace L k (Some e) es \<Longrightarrow> errors_Is e errNameConflict \<Longrightarrow>
     credentials_trace L k (markSecretNotReady L k ReasonSecretNameConflict m) None es"
  "secret_trace L k (Some e) es \<Longrightarrow>
     credentials_trace L k (markSecretNotReady L k ReasonSecretSetupFailed m) (Some e) es"
  "secret_trace L k (Some e) es \<Longrightarrow>
     credentials_trace L k (markSecretNotReady L k ReasonSecretAccessForbidden m) (Some e)
       (es @ [Eventf EventTypeWarning ReasonSecretAccessForbidden m'])"
  unfolding credentials_trace_def secret_reason_def by fastforce+

lemma establishKey_trace:
  "produces (establishKey L K R k) (\<lambda>(k', err) es. establish_trace L k k' err es)"
  unfolding establishKey_def Let_def key_found_def [symmetric]
  by (intro produces_intros produces_mono [OF ensureExternalKey_trace]
      produces_mono [OF ensureSecret_trace] produces_mono [OF finishSecret_trace])
    (auto intro!: establish_failed establish_found intro: credentialsI simp del: append_assoc)

section \<open>Writing the status\<close>

text \<open>The status goes onto a fresh copy of the resource.\<close>

definition update_trace ::
  "nsname \<Rightarrow> AccessKeyStatus \<Rightarrow> error option \<Rightarrow> ctrl_event list \<Rightarrow> bool" where
  "update_trace req st out es \<longleftrightarrow>
     (\<exists>e m. es = [GetAccessKey req (Inl e)] \<and> out = Some (wrap m e)) \<or>
     (\<exists>latest. es = [GetAccessKey req (Inr latest),
        UpdateAccessKeyStatus (latest\<lparr>k_Status := st\<rparr>) out])"

lemma updateStatus_trace: "produces (updateStatus K req st) (update_trace req st)"
  unfolding updateStatus_def Let_def
  by (intro produces_intros) (auto simp: update_trace_def)

definition key_finish ::
  "lib \<Rightarrow> 's kube \<Rightarrow> nsname \<Rightarrow> AccessKeyStatus \<Rightarrow> AccessKey \<Rightarrow> error option \<Rightarrow> outcome \<Rightarrow>
     ctrl_event list \<Rightarrow> bool" where
  "key_finish L K req orig k err out es \<longleftrightarrow>
     (AccessKeyStatusEqual K orig (k_Status k) \<and> es = [] \<and> out = Returned no_requeue err) \<or>
     (\<not> AccessKeyStatusEqual K orig (k_Status k) \<and>
        (\<exists>e. update_trace req (k_Status k) e es \<and> out = patched_outcome L no_requeue err e))"

lemma finishKey_trace:
  "produces (finishKey L K req orig k err) (key_finish L K req orig k err)"
  unfolding finishKey_def
  by (intro produces_intros produces_mono [OF updateStatus_trace])
    (auto simp: key_finish_def patched_outcome_def split: option.splits)

section \<open>A run\<close>

definition key_work ::
  "lib \<Rightarrow> AccessKey \<Rightarrow> AccessKey \<Rightarrow> error option \<Rightarrow> ctrl_event list \<Rightarrow> bool" where
  "key_work L k k' err es \<longleftrightarrow>
     (keySettled L k = Some True \<and> k' = k \<and> err = None \<and> es = []) \<or>
     (keySettled L k = Some False \<and> establish_trace L k k' err es)"

definition live_key_run ::
  "lib \<Rightarrow> 's kube \<Rightarrow> nsname \<Rightarrow> AccessKey \<Rightarrow> outcome \<Rightarrow> ctrl_event list \<Rightarrow> bool" where
  "live_key_run L K req k out es \<longleftrightarrow>
     (keySettled L (InitializeConditions L k) = None \<and> out = Panicked \<and> es = []) \<or>
     (\<exists>k1 err es1 es2. es = es1 @ es2 \<and> key_work L (InitializeConditions L k) k1 err es1 \<and>
        (case updateAccessKeyCondition L k1 of
           None \<Rightarrow> out = Panicked \<and> es2 = []
         | Some k2 \<Rightarrow> key_finish L K req (k_Status k) k2 err out es2))"

lemma live_key_runI:
  "key_work L (InitializeConditions L k) k1 err es \<Longrightarrow> updateAccessKeyCondition L k1 = None \<Longrightarrow>
     live_key_run L K req k Panicked es"
  "key_work L (InitializeConditions L k) k1 err es \<Longrightarrow> updateAccessKeyCondition L k1 = Some k2 \<Longrightarrow>
     key_finish L K req (k_Status k) k2 err out fs \<Longrightarrow> live_key_run L K req k out (es @ fs)"
  unfolding live_key_run_def by fastforce+

lemma reconcileAccessKey_trace:
  "produces (reconcileAccessKey L K R k) (\<lambda>r es. case r of
     None \<Rightarrow> keySettled L k = None \<and> es = [] | Some (k', err) \<Rightarrow> key_work L k k' err es)"
  unfolding reconcileAccessKey_def
  by (intro produces_intros produces_mono [OF establishKey_trace]) (auto simp: key_work_def)

lemma reconcileLiveKey_trace:
  "produces (reconcileLiveKey L K R req k) (live_key_run L K req k)"
  unfolding reconcileLiveKey_def Let_def
  by (intro produces_intros produces_mono [OF reconcileAccessKey_trace]
      produces_mono [OF finishKey_trace])
    (auto intro: live_key_runI simp: live_key_run_def [of _ _ _ _ Panicked "[]"])

text \<open>Deletion: what must have happened before the finalizer goes.\<close>

definition deleted :: "error option \<Rightarrow> bool" where
  "deleted d = (case d of None \<Rightarrow> True | Some e \<Rightarrow> errors_Is e ErrResourceNotFound)"

definition key_released :: "AccessKey \<Rightarrow> ctrl_event list \<Rightarrow> bool" where
  "key_released k es \<longleftrightarrow>
    (let ident = kst_AccessKeyID (k_Status k); name = namespacedResourceName (k_Meta k)
     in if ident \<noteq> [] then \<exists>d. es = [KeyDelete ident d] \<and> deleted d
        else (\<exists>e. es = [KeyLookup name (Inl e)] \<and> errors_Is e ErrResourceNotFound) \<or>
          (\<exists>x. es = [KeyLookup name (Inr x)] \<and> sk_ID x = []) \<or>
          (\<exists>x d. es = [KeyLookup name (Inr x), KeyDelete (sk_ID x) d] \<and> sk_ID x \<noteq> [] \<and>
             deleted d))"

definition key_unfinalized :: "lib \<Rightarrow> AccessKey \<Rightarrow> AccessKey" where
  "key_unfinalized L k = k\<lparr>k_Meta := RemoveFinalizer L (k_Meta k) finalizerName\<rparr>"

fun key_call :: "ctrl_event \<Rightarrow> bool" where
  "key_call (KeyLookup n r) = True"
| "key_call (KeyDelete i r) = True"
| "key_call e = False"

text \<open>Which key may be deleted: the recorded one, or the one found under the derived name.\<close>

definition key_target :: "AccessKey \<Rightarrow> ctrl_event list \<Rightarrow> string \<Rightarrow> bool" where
  "key_target k es i \<longleftrightarrow> i \<noteq> [] \<and>
     (i = kst_AccessKeyID (k_Status k) \<or>
      kst_AccessKeyID (k_Status k) = [] \<and>
        (\<exists>x. KeyLookup (namespacedResourceName (k_Meta k)) (Inr x) \<in> set es \<and> i = sk_ID x))"

definition key_calls :: "AccessKey \<Rightarrow> ctrl_event list \<Rightarrow> bool" where
  "key_calls k es \<longleftrightarrow>
     list_all key_call es \<and> (\<forall>i d. KeyDelete i d \<in> set es \<longrightarrow> key_target k es i)"

lemma key_released_calls: "key_released k es \<Longrightarrow> key_calls k es"
  by (auto simp: key_released_def key_calls_def key_target_def Let_def split: if_splits)

text \<open>Garage stands in the way: the look-up or the deletion failed, and not for want of a key.\<close>

definition key_refused :: "ctrl_event list \<Rightarrow> bool" where
  "key_refused es \<longleftrightarrow> (\<exists>n e. KeyLookup n (Inl e) \<in> set es \<and> \<not> errors_Is e ErrResourceNotFound) \<or>
     (\<exists>i d. KeyDelete i d \<in> set es \<and> \<not> deleted d)"

lemma key_refused_delete: "\<not> errors_Is e ErrResourceNotFound \<Longrightarrow> key_refused (es @ [KeyDelete i (Some e)])"
  unfolding key_refused_def deleted_def by (intro disjI2 exI [of _ i] exI [of _ "Some e"]) simp

definition finalize_key_run :: "lib \<Rightarrow> AccessKey \<Rightarrow> outcome \<Rightarrow> ctrl_event list \<Rightarrow> bool" where
  "finalize_key_run L k out es \<longleftrightarrow>
     (\<exists>es1 r. key_released k es1 \<and> es = es1 @ [UpdateAccessKey (key_unfinalized L k) r] \<and>
        out = Returned no_requeue r) \<or>
     (\<exists>e. key_calls k es \<and> key_refused es \<and> out = Returned no_requeue (Some e))"

lemma releaseKey_trace:
  "produces (releaseKey L K k)
     (\<lambda>out es. \<exists>r. es = [UpdateAccessKey (key_unfinalized L k) r] \<and> out = Returned no_requeue r)"
  unfolding releaseKey_def Let_def key_unfinalized_def [symmetric]
  by (intro produces_intros) auto

lemma resolveExtKeyID_trace:
  "produces (resolveExtKeyID R k) (\<lambda>r es. key_calls k es \<and> (\<forall>e. r = Inl e \<longrightarrow> key_refused es) \<and> (\<forall>ident. r = Inr ident \<longrightarrow>
     (ident = [] \<longrightarrow> key_released k es) \<and>
     (ident \<noteq> [] \<longrightarrow> (\<forall>d. key_calls k (es @ [KeyDelete ident d]))) \<and>
     (ident \<noteq> [] \<longrightarrow> (\<forall>d. deleted d \<longrightarrow> key_released k (es @ [KeyDelete ident d])))))"
  unfolding resolveExtKeyID_def Let_def
  by (intro produces_intros)
    (auto simp: key_released_def key_calls_def key_target_def key_refused_def split: sum.splits if_splits)

lemma finalizeKey_trace: "produces (finalizeKey L K R k) (finalize_key_run L k)"
  unfolding finalizeKey_def
  by (intro produces_intros produces_mono [OF resolveExtKeyID_trace]
      produces_mono [OF releaseKey_trace])
    (auto simp: finalize_key_run_def deleted_def key_refused_delete)

definition key_run ::
  "lib \<Rightarrow> 's kube \<Rightarrow> nsname \<Rightarrow> AccessKey \<Rightarrow> outcome \<Rightarrow> ctrl_event list \<Rightarrow> bool" where
  "key_run L K req k out es \<longleftrightarrow>
     (if m_DeletionTimestamp (k_Meta k) = None then
        if ContainsFinalizer L (k_Meta k) finalizerName then live_key_run L K req k out es
        else (let k' = k\<lparr>k_Meta := AddFinalizer L (k_Meta k) finalizerName\<rparr> in
          (\<exists>e. es = [PatchAccessKey k' (Inl e)] \<and> out = Returned no_requeue (Some e)) \<or>
          (\<exists>k'' fs. es = PatchAccessKey k' (Inr k'') # fs \<and> live_key_run L K req k'' out fs))
      else if ContainsFinalizer L (k_Meta k) finalizerName then finalize_key_run L k out es
      else es = [] \<and> out = Returned no_requeue None)"

lemma AccessKey_Reconcile_trace:
  "produces (AccessKeyReconciler_Reconcile L K R req) (\<lambda>out es.
     (\<exists>e. es = [GetAccessKey req (Inl e)] \<and>
        out = Returned no_requeue (if IsNotFound L e then None else Some e)) \<or>
     (\<exists>k fs. es = GetAccessKey req (Inr k) # fs \<and> key_run L K req k out fs))"
  unfolding AccessKeyReconciler_Reconcile_def Let_def
  by (intro produces_intros produces_mono [OF reconcileLiveKey_trace]
      produces_mono [OF finalizeKey_trace]) (auto simp: key_run_def Let_def)

end
