(* ===== verification/AccessKeyExample.thy ===== *)
theory AccessKeyExample
  imports AccessKeyTrace BucketExample
begin

text \<open>
  Concrete runs of the AccessKey reconciler, on which the witnesses of its properties rest: a
  new resource, whose key is created and whose secret is written; a renamed secret; a resource
  being deleted; and one that is settled.
\<close>

section \<open>The objects\<close>

definition ex_key_meta :: objmeta where
  "ex_key_meta = ex_meta\<lparr>m_Finalizers := [finalizerName]\<rparr>"

definition ex_akey :: AccessKey where
  "ex_akey = ex_key\<lparr>k_Meta := ex_key_meta\<rparr>"

text \<open>With a key and a secret of an earlier name.\<close>

definition ex_rkey :: AccessKey where
  "ex_rkey = ex_akey\<lparr>k_Status := (k_Status ex_akey)
     \<lparr>kst_AccessKeyID := ''GK2'', kst_SecretName := ''old''\<rparr>\<rparr>"

text \<open>The same, being deleted.\<close>

definition ex_dkey :: AccessKey where
  "ex_dkey = ex_rkey\<lparr>k_Meta := ex_key_meta\<lparr>m_DeletionTimestamp := Some 5\<rparr>\<rparr>"

definition ex_cred :: s3_access_key where
  "ex_cred = \<lparr>sk_ID = ''GK2'', sk_Secret = ''s3cr3t'', sk_Name = ''key''\<rparr>"

definition ex_keys :: "store AccessKeyReconciler" where
  "ex_keys = NewAccessKeyReconciler (\<lambda>n s. (Inr ex_cred, s)) (\<lambda>i s. (Inr ex_cred, s))
     (\<lambda>n s. (Inl (Sentinel ErrResourceNotFound), s)) (\<lambda>i s. (None, s))"

definition key_kube :: "AccessKey \<Rightarrow> store kube" where
  "key_kube k = store_kube ex_import k ex_policy"

lemma ex_keys_sel [simp]:
  "key_Create ex_keys n s = (Inr ex_cred, s)" "key_Get ex_keys n s = (Inr ex_cred, s)"
  "key_Lookup ex_keys n s = (Inl (Sentinel ErrResourceNotFound), s)"
  "key_Delete ex_keys n s = (None, s)"
  by (simp_all add: ex_keys_def NewAccessKeyReconciler_def)

lemma key_kube_sel [simp]:
  "kGetAccessKey (key_kube k) n s = (Inr k, s)"
  "kUpdateAccessKey (key_kube k) x s = (None, s)"
  "kUpdateAccessKeyStatus (key_kube k) x s = (None, s)"
  "kDeleteSecret (key_kube k) y s = (None, s)"
  "AccessKeyStatusEqual (key_kube k) a b = (a = b)"
  by (simp_all add: key_kube_def store_kube_def)

lemma key_kube_status_eq: "status_eq_laws (key_kube k)"
  by (simp add: key_kube_def store_kube_status_eq)

lemma ex_key_meta_sel [simp]:
  "m_DeletionTimestamp ex_key_meta = None" "m_Finalizers ex_key_meta = [finalizerName]"
  "m_Name ex_key_meta = ''photos''" "m_Namespace ex_key_meta = ''default''"
  "m_UID ex_key_meta = ''uid''" "m_Generation ex_key_meta = 1"
  by (simp_all add: ex_key_meta_def ex_meta_def new_meta_def)

lemma ex_akey_sel [simp]:
  "k_Meta ex_akey = ex_key_meta" "ks_SecretName (k_Spec ex_akey) = ''creds''"
  "kst_AccessKeyID (k_Status ex_akey) = []" "kst_SecretName (k_Status ex_akey) = []"
  "kst_ObservedGeneration (k_Status ex_akey) = 0" "k_Conditions ex_akey = []"
  "k_Meta ex_rkey = ex_key_meta" "ks_SecretName (k_Spec ex_rkey) = ''creds''"
  "kst_AccessKeyID (k_Status ex_rkey) = ''GK2''" "kst_SecretName (k_Status ex_rkey) = ''old''"
  "kst_ObservedGeneration (k_Status ex_rkey) = 0" "k_Conditions ex_rkey = []"
  "k_Meta ex_dkey = ex_key_meta\<lparr>m_DeletionTimestamp := Some 5\<rparr>"
  "k_Status ex_dkey = k_Status ex_rkey" "k_Spec ex_rkey = k_Spec ex_akey"
  by (simp_all add: ex_akey_def ex_rkey_def ex_dkey_def ex_key_def)

lemma ex_cred_sel [simp]: "sk_ID ex_cred = ''GK2''" "sk_Secret ex_cred = ''s3cr3t''"
  by (simp_all add: ex_cred_def)

section \<open>The runs\<close>

text \<open>Writing the secret into an empty store.\<close>

definition ex_creds :: secret where
  "ex_creds = (secretFor ex_akey)\<lparr>s_Meta := (s_Meta (secretFor ex_akey))
     \<lparr>m_OwnerReferences := [\<lparr>or_Kind = [], or_Name = ''photos'', or_UID = ''uid'',
        or_Controller = True\<rparr>]\<rparr>\<rparr>"

definition ex_no_secret :: "ctrl_event" where
  "ex_no_secret = GetSecret (''default'', ''creds'') (Inl (APIError ''NotFound'' ''secret''))"

definition ex_wrote :: ctrl_event where
  "ex_wrote = CreateOrUpdateSecret ex_creds (OperationResultCreated, None)"

lemma ex_ensure_secret:
  assumes "k_Meta k = ex_key_meta" and "k_Spec k = k_Spec ex_akey" and "ext w = empty_store"
  shows "fst (run_state (ensureSecret plain_lib (key_kube k0) k sec) w) = None"
    and "log (snd (run_state (ensureSecret plain_lib (key_kube k0) k sec) w)) =
      log w @ [ex_no_secret, ex_wrote]"
  using assms
  by (simp_all add: ensureSecret_def writeSecret_def run_eval Let_def key_kube_def store_kube_def
      empty_store_def valid_view_def secretFor_def set_controller_def create_or_update_def
      secretMutate_def new_meta_def ex_no_secret_def ex_wrote_def ex_creds_def case_prod_beta)

text \<open>From the external key to the secret.\<close>

lemma ex_establish_new:
  assumes "ext w = empty_store"
  shows "run_state (establishKey plain_lib (key_kube k0) ex_keys (InitializeConditions plain_lib ex_akey)) w =
    ((secret_done plain_lib (key_found plain_lib ex_cred (InitializeConditions plain_lib ex_akey)), None),
     snd (run_state (establishKey plain_lib (key_kube k0) ex_keys (InitializeConditions plain_lib ex_akey)) w))"
    and "log (snd (run_state (establishKey plain_lib (key_kube k0) ex_keys
      (InitializeConditions plain_lib ex_akey)) w)) = log w @
      [KeyLookup (namespacedResourceName ex_key_meta) (Inl (Sentinel ErrResourceNotFound)),
       KeyCreate (namespacedResourceName ex_key_meta) (Inr ex_cred), ex_no_secret, ex_wrote]"
  using assms
  by (simp_all add: establishKey_def ensureExternalKey_def run_eval Let_def ex_ensure_secret
      finishSecret_def key_found_def [symmetric] secret_done_def prod_eq_iff case_prod_beta)

text \<open>With a key recorded and a secret of another name.\<close>

definition ex_old_gone :: ctrl_event where
  "ex_old_gone = DeleteSecret (old_secret ex_rkey) None"

lemma ex_establish_renamed:
  assumes "ext w = empty_store"
  shows "log (snd (run_state (establishKey plain_lib (key_kube k0) ex_keys
      (InitializeConditions plain_lib ex_rkey)) w)) = log w @
      [KeyGet ''GK2'' (Inr ex_cred), ex_no_secret, ex_wrote, ex_old_gone]"
  using assms
  by (simp add: establishKey_def ensureExternalKey_def run_eval Let_def ex_ensure_secret
      finishSecret_def key_found_def [symmetric] case_prod_beta cleanupOldSecret_def ex_old_gone_def
      old_secret_def)

text \<open>The whole run, up to its status update.\<close>

lemma live_key_log:
  assumes "kGetAccessKey K req (ext w) = (Inr k, s)" and "m_DeletionTimestamp (k_Meta k) = None"
    and "ContainsFinalizer L (k_Meta k) finalizerName"
    and "keySettled L (InitializeConditions L k) = Some False"
  obtains fs where "log (snd (run_state (AccessKeyReconciler_Reconcile L K R req) w)) =
    log (snd (run_state (establishKey L K R (InitializeConditions L k))
      (w\<lparr>ext := s, log := log w @ [GetAccessKey req (Inr k)]\<rparr>))) @ fs"
proof -
  let ?r = "run_state (establishKey L K R (InitializeConditions L k))
      (w\<lparr>ext := s, log := log w @ [GetAccessKey req (Inr k)]\<rparr>)"
  let ?m = "case updateAccessKeyCondition L (fst (fst ?r)) of
      None \<Rightarrow> State_Monad.return Panicked
    | Some k'' \<Rightarrow> finishKey L K req (k_Status k) k'' (snd (fst ?r))"
  have "produces ?m (\<lambda>out es. True)"
    by (intro produces_intros produces_mono [OF finishKey_trace]) auto
  then obtain fs where "log (snd (run_state ?m (snd ?r))) = log (snd ?r) @ fs"
    by (rule produces_log)
  then show thesis
    using assms(2-)
    by (intro that [of fs])
      (simp add: AccessKeyReconciler_Reconcile_def reconcileLiveKey_def reconcileAccessKey_def
        run_eval Let_def case_prod_beta assms(1))
qed

definition run_key :: "AccessKey \<Rightarrow> ctrl_event list" where
  "run_key k = run_events (AccessKeyReconciler_Reconcile plain_lib (key_kube k) ex_keys ex_req)
     empty_world"

lemma ex_unsettled:
  "kst_ObservedGeneration (k_Status k) \<noteq> k_Generation k \<Longrightarrow>
     keySettled L (InitializeConditions L k) = Some False"
  by (simp add: keySettled_def)

lemma run_key_log:
  assumes "k_Meta k = ex_key_meta" and "kst_ObservedGeneration (k_Status k) = 0"
    and "\<And>w :: store cworld. ext w = empty_store \<Longrightarrow> log (snd (run_state (establishKey plain_lib (key_kube k)
      ex_keys (InitializeConditions plain_lib k)) w)) = log w @ es"
  obtains fs where "run_key k = GetAccessKey ex_req (Inr k) # es @ fs"
proof -
  let ?w = "empty_world\<lparr>ext := empty_store, log := log empty_world @ [GetAccessKey ex_req (Inr k)]\<rparr>"
  obtain fs where "log (snd (run_state (AccessKeyReconciler_Reconcile plain_lib (key_kube k) ex_keys
      ex_req) empty_world)) = log (snd (run_state (establishKey plain_lib (key_kube k) ex_keys
      (InitializeConditions plain_lib k)) ?w)) @ fs"
    by (rule live_key_log [of "key_kube k" ex_req empty_world k empty_store plain_lib ex_keys])
      (simp_all add: assms(1,2) ex_unsettled empty_world_def)
  then show thesis
    by (intro that [of fs])
      (simp add: run_key_def run_events_def new_events_def assms(3) empty_world_def)
qed

lemma ex_new_key_events:
  obtains fs where "run_key ex_akey = GetAccessKey ex_req (Inr ex_akey) #
    [KeyLookup (namespacedResourceName ex_key_meta) (Inl (Sentinel ErrResourceNotFound))] @
     KeyCreate (namespacedResourceName ex_key_meta) (Inr ex_cred) # ex_no_secret # ex_wrote # fs"
proof -
  obtain fs where "run_key ex_akey = GetAccessKey ex_req (Inr ex_akey) #
    [KeyLookup (namespacedResourceName ex_key_meta) (Inl (Sentinel ErrResourceNotFound)),
     KeyCreate (namespacedResourceName ex_key_meta) (Inr ex_cred), ex_no_secret, ex_wrote] @ fs"
    by (rule run_key_log [OF _ _ ex_establish_new(2)]) simp_all
  with that [of fs] show thesis by simp
qed

lemma ex_renamed_events:
  obtains fs where "run_key ex_rkey = GetAccessKey ex_req (Inr ex_rkey) #
    [KeyGet ''GK2'' (Inr ex_cred), ex_no_secret, ex_wrote] @ ex_old_gone # fs"
proof -
  obtain fs where "run_key ex_rkey = GetAccessKey ex_req (Inr ex_rkey) #
    [KeyGet ''GK2'' (Inr ex_cred), ex_no_secret, ex_wrote, ex_old_gone] @ fs"
    by (rule run_key_log [OF _ _ ex_establish_renamed]) simp_all
  with that [of fs] show thesis by simp
qed

lemma ex_deleted_events:
  "run_key ex_dkey = GetAccessKey ex_req (Inr ex_dkey) #
    [KeyDelete ''GK2'' None] @ UpdateAccessKey (key_unfinalized plain_lib ex_dkey) None # []"
  by (simp add: run_key_def run_events_def new_events_def AccessKeyReconciler_Reconcile_def run_eval
      Let_def finalizeKey_def resolveExtKeyID_def releaseKey_def key_unfinalized_def empty_world_def)

lemma Key_reads:
  assumes "kGetAccessKey K req (ext w) = (Inr k, s)" and "m_DeletionTimestamp (k_Meta k) = None"
    and "ContainsFinalizer L (k_Meta k) finalizerName"
  shows "run_events (AccessKeyReconciler_Reconcile L K R req) w = GetAccessKey req (Inr k) #
    tl (run_events (AccessKeyReconciler_Reconcile L K R req) w)"
proof -
  let ?w = "w\<lparr>ext := s, log := log w @ [GetAccessKey req (Inr k)]\<rparr>"
  obtain fs where "log (snd (run_state (reconcileLiveKey L K R req k) ?w)) = log ?w @ fs"
    by (rule produces_log [OF reconcileLiveKey_trace])
  then show ?thesis
    using assms by (simp add: run_events_def new_events_def AccessKeyReconciler_Reconcile_def run_eval)
qed

end
