(* ===== verification/AccessKeyProps.thy ===== *)
theory AccessKeyProps
  imports AccessKeyExample BucketPublish
begin

text \<open>
  Properties of the AccessKey reconciler, over every Kubernetes client, Garage service and
  state of the world: when keys are created and deleted, whose secrets are written, and what
  a reported status says.
\<close>

section \<open>Shared steps of the proofs\<close>

lemma Key_run:
  assumes "run_state (AccessKeyReconciler_Reconcile L K R req) w = (out, w')"
    and "new_events w w' = GetAccessKey req (Inr k) # es"
  shows "key_run L K req k out es"
  using produces_run [OF AccessKey_Reconcile_trace assms(1)] assms(2) by auto

text \<open>The object a live run works on: the one read, or the one the finalizer patch returned.\<close>

definition admitted :: "lib \<Rightarrow> AccessKey \<Rightarrow> AccessKey \<Rightarrow> ctrl_event list \<Rightarrow> bool" where
  "admitted L k k' es \<longleftrightarrow> m_DeletionTimestamp (k_Meta k) = None \<and>
     (if ContainsFinalizer L (k_Meta k) finalizerName then k' = k \<and> es = []
      else es = [PatchAccessKey (k\<lparr>k_Meta := AddFinalizer L (k_Meta k) finalizerName\<rparr>) (Inr k')])"

lemma key_runE:
  assumes "key_run L K req k out es"
  obtains (live) k' ps fs where "admitted L k k' ps" "es = ps @ fs" "live_key_run L K req k' out fs"
  | (finalize) "m_DeletionTimestamp (k_Meta k) \<noteq> None"
      "ContainsFinalizer L (k_Meta k) finalizerName" "finalize_key_run L k out es"
  | (idle) err where "\<forall>e \<in> set es. \<exists>k' e'. e = PatchAccessKey k' (Inl e')"
      "out = Returned no_requeue err"
proof (cases "m_DeletionTimestamp (k_Meta k) = None")
  case True
  show thesis
  proof (cases "ContainsFinalizer L (k_Meta k) finalizerName")
    case fin: True
    with True assms live [of k "[]" es] show thesis by (simp add: key_run_def admitted_def)
  next
    case False
    let ?p = "PatchAccessKey (k\<lparr>k_Meta := AddFinalizer L (k_Meta k) finalizerName\<rparr>)"
    from False True assms consider (f) e where "es = [?p (Inl e)]" "out = Returned no_requeue (Some e)"
      | (p) k'' fs where "es = ?p (Inr k'') # fs" "live_key_run L K req k'' out fs"
      by (auto simp: key_run_def Let_def)
    then show thesis
    proof cases
      case f with idle show thesis by simp
    next
      case p
      with True False live [of k'' "[?p (Inr k'')]" fs] show thesis by (simp add: admitted_def)
    qed
  qed
next
  case False
  with assms finalize idle [of None] show thesis
    by (cases "ContainsFinalizer L (k_Meta k) finalizerName") (simp_all add: key_run_def)
qed

definition has_key_parts :: "lib \<Rightarrow> AccessKey \<Rightarrow> bool" where
  "has_key_parts L k \<longleftrightarrow>
     (\<forall>t \<in> fst ` set access_key_parts. FindStatusCondition L (k_Conditions k) t \<noteq> None)"

lemma has_key_parts_stat:
  "has_key_parts L k \<longleftrightarrow> cond_stat L (k_Conditions k) AccessKeyReady \<noteq> None \<and>
     cond_stat L (k_Conditions k) KeySecretReady \<noteq> None"
  by (simp add: has_key_parts_def access_key_parts_def find_None_stat)

lemma has_key_parts_init: "cond_laws L \<Longrightarrow> has_key_parts L (InitializeConditions L k)"
  unfolding has_key_parts_def using access_key_cond.initialized_parts by blast

lemma key_mark_stat:
  assumes "cond_laws L"
  shows "cond_stat L (k_Conditions (markAccessKeyReady L k)) t =
      (if t = AccessKeyReady then Some ConditionTrue else cond_stat L (k_Conditions k) t)"
    and "cond_stat L (k_Conditions (markAccessKeyNotReady L k r m)) t =
      (if t = AccessKeyReady then Some ConditionFalse else cond_stat L (k_Conditions k) t)"
    and "cond_stat L (k_Conditions (markSecretReady L k)) t =
      (if t = KeySecretReady then Some ConditionTrue else cond_stat L (k_Conditions k) t)"
    and "cond_stat L (k_Conditions (markSecretNotReady L k r m)) t =
      (if t = KeySecretReady then Some ConditionFalse else cond_stat L (k_Conditions k) t)"
  by (simp_all add: cond_stat_view key_mark_view [OF assms])

lemma key_with_status [simp]:
  "cond_view L (k_Conditions (k\<lparr>k_Status := (k_Status k)\<lparr>kst_AccessKeyID := i\<rparr>\<rparr>)) t =
     cond_view L (k_Conditions k) t"
  "cond_view L (k_Conditions (k\<lparr>k_Status := (k_Status k)\<lparr>kst_SecretName := i\<rparr>\<rparr>)) t =
     cond_view L (k_Conditions k) t"
  by simp_all

lemma key_probe_init [simp]: "key_probe (InitializeConditions L k) = key_probe k"
  by (simp add: key_probe_def fun_eq_iff)

lemma renamed_init [simp]:
  "renamed (InitializeConditions L k) = renamed k"
  "old_secret (InitializeConditions L k) = old_secret k"
  "secretFor (InitializeConditions L k) = secretFor k"
  by (simp_all add: renamed_def old_secret_def secretFor_def)

text \<open>What a run does to the credentials: the secret of the spec was written without error, and
  after a renaming the one of the old name is gone.\<close>

definition credentials_stored :: "lib \<Rightarrow> AccessKey \<Rightarrow> ctrl_event list \<Rightarrow> bool" where
  "credentials_stored L k es \<longleftrightarrow>
     (\<exists>m res. CreateOrUpdateSecret ((secretFor k)\<lparr>s_Meta := m\<rparr>) (res, None) \<in> set es) \<and>
     (renamed k \<longrightarrow> (\<exists>d. DeleteSecret (old_secret k) d \<in> set es \<and> gone L d))"

lemma credentials_stored_same [simp]:
  "credentials_stored L (key_found L x k) = credentials_stored L k"
  "credentials_stored L (InitializeConditions L k) = credentials_stored L k"
  by (simp_all add: credentials_stored_def fun_eq_iff)

definition failed_secret_reason :: "string \<Rightarrow> bool" where
  "failed_secret_reason r \<longleftrightarrow> secret_reason r \<or> r = ''SecretCleanupFailed''"

lemma credentialsE:
  assumes "credentials_trace L k k' err es"
  obtains (conflict) m where "k' = markSecretNotReady L k ReasonSecretNameConflict m"
      "err = None" "\<not> credentials_stored L k es"
  | (failed) r m where "k' = markSecretNotReady L k r m" "err \<noteq> None" "failed_secret_reason r"
      "\<not> credentials_stored L k es"
  | (stored) "k' = secret_done L k" "err = None" "credentials_stored L k es"
  using assms unfolding credentials_trace_def
proof (elim disjE exE conjE, goal_cases)
  case (1 es1 es2)
  then obtain r m res where es1: "es1 = [GetSecret (secret_name k) r,
      CreateOrUpdateSecret ((secretFor k)\<lparr>s_Meta := m\<rparr>) (res, None)]"
    by (auto simp: secret_trace_def)
  then have written: "\<exists>m res. CreateOrUpdateSecret ((secretFor k)\<lparr>s_Meta := m\<rparr>) (res, None) \<in> set es"
    unfolding 1(4) by auto
  from 1(6) show ?case
    unfolding rename_trace_def
  proof (elim disjE exE conjE)
    assume "\<not> renamed k" "k' = secret_done L k" "err = None"
    with written 1(3) show ?thesis by (simp add: credentials_stored_def)
  next
    fix d
    assume d: "renamed k" "es2 = [DeleteSecret (old_secret k) d]" "gone L d"
      and "k' = secret_done L k" "err = None"
    from d have "DeleteSecret (old_secret k) d \<in> set es" by (simp add: 1(4))
    with d written \<open>k' = _\<close> \<open>err = None\<close> 1(3) show ?thesis
      unfolding credentials_stored_def by blast
  next
    fix d m
    assume d: "renamed k" "es2 = [DeleteSecret (old_secret k) d]" "\<not> gone L d"
      and "err \<noteq> None" "k' = markSecretNotReady L k ''SecretCleanupFailed'' m"
    from d es1 have "\<not> credentials_stored L k es"
      by (auto simp: credentials_stored_def 1(4))
    with \<open>k' = _\<close> \<open>err \<noteq> None\<close> 1(2) show ?thesis by (simp add: failed_secret_reason_def)
  qed
next
  case (2 e m)
  then show ?case by (auto simp: secret_trace_def credentials_stored_def)
next
  case (3 e es1 es2 r m)
  then have "\<not> credentials_stored L k es"
    by (auto simp: secret_trace_def credentials_stored_def)
  with 3 show ?case by (auto simp: failed_secret_reason_def)
next
  case (4 e es1 es2 r m m')
  then have "\<not> credentials_stored L k es"
    by (auto simp: secret_trace_def credentials_stored_def)
  with 4 show ?case by (auto simp: failed_secret_reason_def)
qed

lemma establishE:
  assumes "establish_trace L k k' err es"
  obtains (unknown) e m where "k' = markAccessKeyNotReady L k ''AccessKeyUnknown'' m"
      "err = Some e" "key_trace k (Inl e) es"
  | (conflict) x es1 es2 m where "es = es1 @ es2" "key_trace k (Inr x) es1"
      "k' = markSecretNotReady L (key_found L x k) ReasonSecretNameConflict m" "err = None"
      "\<not> credentials_stored L k es2"
  | (failed) x es1 es2 r m where "es = es1 @ es2" "key_trace k (Inr x) es1"
      "k' = markSecretNotReady L (key_found L x k) r m" "err \<noteq> None"
      "failed_secret_reason r" "\<not> credentials_stored L k es2"
  | (stored) x es1 es2 where "es = es1 @ es2" "key_trace k (Inr x) es1"
      "k' = secret_done L (key_found L x k)" "err = None" "credentials_stored L k es2"
  using assms unfolding establish_trace_def
proof (elim disjE exE conjE, goal_cases)
  case (1 e m)
  then show ?case by blast
next
  case (2 x es1 es2)
  from 2(7) show ?case
    by (cases rule: credentialsE) (use 2 in auto)
qed

text \<open>Which events a live run has.\<close>

fun key_step :: "ctrl_event \<Rightarrow> bool" where
  "key_step (KeyGet i r) = True"
| "key_step (KeyLookup n r) = True"
| "key_step (KeyCreate n r) = True"
| "key_step (GetSecret n r) = True"
| "key_step (CreateOrUpdateSecret s r) = True"
| "key_step (DeleteSecret s r) = True"
| "key_step (Eventf t r m) = True"
| "key_step e = False"

lemma key_trace_steps: "key_trace k r es \<Longrightarrow> list_all key_step es"
  by (auto simp: key_trace_def key_probe_def)

lemma credentials_trace_steps:
  "credentials_trace L k k' err es \<Longrightarrow>
     list_all (\<lambda>e. key_step e \<and> (\<forall>n r. e \<noteq> KeyCreate n r)) es"
  by (auto simp: credentials_trace_def secret_trace_def rename_trace_def)

lemma key_work_steps: "key_work L k k' err es \<Longrightarrow> list_all key_step es"
  unfolding key_work_def establish_trace_def
  using credentials_trace_steps key_trace_steps by (fastforce simp: list_all_iff)

lemma key_finish_events:
  "key_finish L K req orig k err out es \<Longrightarrow> e \<in> set es \<Longrightarrow>
     (\<exists>r. e = GetAccessKey req r) \<or>
     (\<exists>latest r. e = UpdateAccessKeyStatus (latest\<lparr>k_Status := k_Status k\<rparr>) r)"
  by (auto simp: key_finish_def update_trace_def)

text \<open>A live run under the laws of the condition functions: it always gets to its end.\<close>

lemma live_key_runE:
  assumes L: "cond_laws L" and "live_key_run L K req k out es"
  obtains k1 err es1 es2 where "es = es1 @ es2"
    and "key_work L (InitializeConditions L k) k1 err es1" and "has_key_parts L k1"
    and "key_finish L K req (k_Status k) (set_ready_access_key L
      (summary (part_views L (k_Conditions k1) access_key_parts) access_key_waiting) k1) err out es2"
proof -
  have init: "has_key_parts L (InitializeConditions L k)" by (rule has_key_parts_init [OF L])
  then have "keySettled L (InitializeConditions L k) \<noteq> None"
    by (auto simp: keySettled_def externalKeyReadyStat_def has_key_parts_def access_key_parts_def)
  with assms(2) obtain k1 err es1 es2 where es: "es = es1 @ es2"
    and work: "key_work L (InitializeConditions L k) k1 err es1"
    and fin: "case updateAccessKeyCondition L k1 of None \<Rightarrow> out = Panicked \<and> es2 = []
         | Some k2 \<Rightarrow> key_finish L K req (k_Status k) k2 err out es2"
    unfolding live_key_run_def by blast
  have parts: "has_key_parts L k1"
    using work unfolding key_work_def
  proof (elim disjE conjE)
    assume "establish_trace L (InitializeConditions L k) k1 err es1"
    then show ?thesis
      by (cases rule: establishE)
        (use init in \<open>auto simp: has_key_parts_stat key_mark_stat [OF L] key_found_def secret_done_def\<close>)
  qed (simp add: init)
  with fin es work that show thesis
    by (simp add: updateAccessKey_summary has_key_parts_def)
qed

text \<open>The events of a live run: those of \<open>establishKey\<close>, if it is called, then the status.\<close>

lemma live_key_events:
  assumes "live_key_run L K req k out es"
  obtains es1 es2 where "es = es1 @ es2"
    and "es1 = [] \<or> (\<exists>k1 err. establish_trace L (InitializeConditions L k) k1 err es1)"
    and "\<forall>e \<in> set es2. (\<exists>r. e = GetAccessKey req r) \<or> (\<exists>x r. e = UpdateAccessKeyStatus x r)"
  using assms unfolding live_key_run_def
proof (elim disjE exE conjE, goal_cases)
  case 1
  from 1(1) [of "[]" "[]"] 1(4) show ?case by simp
next
  case (2 k1 err es1 es2)
  then have "\<forall>e \<in> set es2. (\<exists>r. e = GetAccessKey req r) \<or> (\<exists>x r. e = UpdateAccessKeyStatus x r)"
    by (auto split: option.splits dest: key_finish_events)
  with 2 show ?case unfolding key_work_def by blast
qed

lemma establish_steps: "establish_trace L k k' err es \<Longrightarrow> list_all key_step es"
  unfolding establish_trace_def
  using credentials_trace_steps key_trace_steps by (fastforce simp: list_all_iff)

lemma live_key_step_events:
  assumes "live_key_run L K req k out es" and "e \<in> set es"
  shows "key_step e \<or> (\<exists>r. e = GetAccessKey req r) \<or> (\<exists>x r. e = UpdateAccessKeyStatus x r)"
proof -
  from assms(1) obtain es1 es2 where "es = es1 @ es2"
    and "es1 = [] \<or> (\<exists>k1 err. establish_trace L (InitializeConditions L k) k1 err es1)"
    and "\<forall>e \<in> set es2. (\<exists>r. e = GetAccessKey req r) \<or> (\<exists>x r. e = UpdateAccessKeyStatus x r)"
    by (rule live_key_events)
  with assms(2) show ?thesis by (auto dest: establish_steps simp: list_all_iff)
qed

lemma admitted_events: "admitted L k k' es \<Longrightarrow> e \<in> set es \<Longrightarrow> \<exists>x r. e = PatchAccessKey x r"
  by (auto simp: admitted_def split: if_splits)

lemma finalize_events:
  assumes "finalize_key_run L k out es" and "e \<in> set es"
  shows "key_call e \<or> (\<exists>r. e = UpdateAccessKey (key_unfinalized L k) r)"
proof -
  have "list_all key_call es1" if "key_calls k es1" for es1
    using that by (simp add: key_calls_def)
  with assms key_released_calls show ?thesis by (fastforce simp: finalize_key_run_def list_all_iff)
qed

lemma establish_create:
  assumes "establish_trace L k k' err es" and "KeyCreate n r \<in> set es"
  shows "\<exists>e fs. es = [key_probe k (Inl e)] @ KeyCreate n r # fs \<and> errors_Is e ErrResourceNotFound \<and>
    n = namespacedResourceName (k_Meta k) \<and> (\<forall>n' r'. KeyCreate n' r' \<notin> set fs)" (is ?goal)
proof -
  have none: "\<forall>n' r'. KeyCreate n' r' \<notin> set fs" if "credentials_trace L k1 k' err fs" for k1 fs
    using credentials_trace_steps [OF that] by (auto simp: list_all_iff)
  have first: ?goal if "key_trace k x es1" "es = es1 @ fs" "\<forall>n' r'. KeyCreate n' r' \<notin> set fs"
    for x es1 fs
    using that assms(2)
    by (auto simp: key_trace_def key_probe_def split: if_splits)
  from assms(1) show ?goal
    unfolding establish_trace_def using first [of _ es "[]"] first none by auto
qed

section \<open>Keys are created once\<close>

text \<open>
  C17: an external key is only created when it is known not to exist: the call that creates
  one comes right after the key was looked for (by the recorded ID, or by its name when none
  is recorded) and Garage answered \<open>ErrResourceNotFound\<close>; the resource is not being deleted
  and carries the finalizer, set in this very run if need be, so that the key cannot be
  orphaned; the name is the one derived from the resource, and no other key is created.
\<close>

theorem access_key_created_once:
  assumes run: "run_state (AccessKeyReconciler_Reconcile L K R req) w = (out, w')"
    and ev: "new_events w w' = GetAccessKey req (Inr k) # pre @ KeyCreate n r # post"
  shows "\<exists>k' ps e. pre = ps @ [key_probe k' (Inl e)] \<and> admitted L k k' ps \<and>
    errors_Is e ErrResourceNotFound \<and> n = namespacedResourceName (k_Meta k') \<and>
    (\<forall>n' r'. KeyCreate n' r' \<notin> set post)"
  using Key_run [OF run ev]
proof (cases rule: key_runE)
  case (live k' ps fs)
  let ?c = "KeyCreate n r"
  have "?c \<notin> set ps" using admitted_events [OF live(1)] by blast
  from split_after [OF live(2) [symmetric] this] obtain pre1
    where pre: "pre = ps @ pre1" and fs: "fs = pre1 @ ?c # post" .
  from live(3) obtain es1 es2 where split: "fs = es1 @ es2"
    and es1: "es1 = [] \<or> (\<exists>k1 err. establish_trace L (InitializeConditions L k') k1 err es1)"
    and es2: "\<forall>e \<in> set es2. (\<exists>r. e = GetAccessKey req r) \<or> (\<exists>x r. e = UpdateAccessKeyStatus x r)"
    by (rule live_key_events)
  from es2 have no2: "\<forall>n' r'. KeyCreate n' r' \<notin> set es2" by blast
  with fs split have in1: "?c \<in> set es1" by (metis Un_iff in_set_conv_decomp set_append)
  with es1 obtain k1 err where "establish_trace L (InitializeConditions L k') k1 err es1" by auto
  with establish_create [OF this in1] obtain e gs where
    es1': "es1 = [key_probe k' (Inl e)] @ ?c # gs" and e: "errors_Is e ErrResourceNotFound"
    and n: "n = namespacedResourceName (k_Meta k')" and gs: "\<forall>n' r'. KeyCreate n' r' \<notin> set gs"
    unfolding key_probe_init key_mark_simps by metis
  have "[key_probe k' (Inl e)] @ ?c # gs @ es2 = pre1 @ ?c # post"
    using fs split es1' by simp
  moreover have "?c \<notin> set (gs @ es2)" using gs no2 by simp
  ultimately have "pre1 = [key_probe k' (Inl e)]" "post = gs @ es2"
    by (subst (asm) append_Cons_eq_iff; simp add: key_probe_def)+
  with pre live(1) e n gs no2 show ?thesis by auto
next
  case finalize
  from finalize_events [OF finalize(3), of "KeyCreate n r"] show ?thesis by simp
qed auto

theorem access_key_created_once_witness:
  "\<exists>k' ps e. [KeyLookup (namespacedResourceName ex_key_meta) (Inl (Sentinel ErrResourceNotFound))] =
      ps @ [key_probe k' (Inl e)] \<and> admitted plain_lib ex_akey k' ps \<and>
    errors_Is e ErrResourceNotFound"
proof -
  obtain fs where ev: "run_key ex_akey = GetAccessKey ex_req (Inr ex_akey) #
    [KeyLookup (namespacedResourceName ex_key_meta) (Inl (Sentinel ErrResourceNotFound))] @
     KeyCreate (namespacedResourceName ex_key_meta) (Inr ex_cred) # ex_no_secret # ex_wrote # fs"
    by (rule ex_new_key_events)
  show ?thesis
    using access_key_created_once [OF surjective_pairing ev [unfolded run_key_def run_events_def]]
    by blast
qed

section \<open>Deletion\<close>

text \<open>
  C16: the finalizer keeps the resource until its key is gone: the update that drops it is
  sent only for a resource being deleted, changes nothing else, is the last call of the run,
  and comes after the recorded key was deleted or found missing, or, when no ID is recorded,
  after the key of the derived name was looked up and found missing or deleted (a key Garage
  reports without an ID counts as missing).
\<close>

theorem key_finalizer_released:
  assumes run: "run_state (AccessKeyReconciler_Reconcile L K R req) w = (out, w')"
    and ev: "new_events w w' = GetAccessKey req (Inr k) # pre @ UpdateAccessKey k' r # post"
  shows "m_DeletionTimestamp (k_Meta k) \<noteq> None \<and> ContainsFinalizer L (k_Meta k) finalizerName \<and>
    k' = key_unfinalized L k \<and> key_released k pre \<and> post = [] \<and> out = Returned no_requeue r"
  using Key_run [OF run ev]
proof (cases rule: key_runE)
  case (live k1 ps fs)
  have "UpdateAccessKey k' r \<in> set ps \<union> set fs"
    using arg_cong [OF live(2), of set] by auto
  then show ?thesis
    using admitted_events [OF live(1)] live_key_step_events [OF live(3)] by fastforce
next
  case finalize
  have calls: "list_all key_call es" if "key_calls k es" for es
    using that by (simp add: key_calls_def)
  from finalize(3) show ?thesis
    unfolding finalize_key_run_def
  proof (elim disjE exE conjE)
    fix es1 s
    assume rel: "key_released k es1" and out: "out = Returned no_requeue s"
      and es: "pre @ UpdateAccessKey k' r # post = es1 @ [UpdateAccessKey (key_unfinalized L k) s]"
    have "UpdateAccessKey k' r \<notin> set es1"
      using calls [OF key_released_calls [OF rel]] by (auto simp: list_all_iff)
    from split_after [OF es [symmetric] this] rel out finalize(1,2) show ?thesis
      by (auto simp: Cons_eq_append_conv)
  qed (use calls in \<open>fastforce simp: list_all_iff\<close>)
qed auto

theorem key_finalizer_released_witness:
  "key_released ex_dkey [KeyDelete ''GK2'' None] \<and> m_DeletionTimestamp (k_Meta ex_dkey) \<noteq> None"
  using key_finalizer_released [OF surjective_pairing
      ex_deleted_events [unfolded run_key_def run_events_def]]
  by blast

lemma live_no_delete:
  "live_key_run L K req k out es \<Longrightarrow> KeyDelete i d \<notin> set es"
  using live_key_step_events by fastforce

text \<open>
  C19: keys are only deleted with their resource: a call that deletes a key is made only for a
  resource that is being deleted and still carries the finalizer, and it names the recorded
  key, or, when no ID is recorded, the key just found under the name derived from the
  resource; never an empty ID.
\<close>

theorem key_deletion_targets:
  assumes run: "run_state (AccessKeyReconciler_Reconcile L K R req) w = (out, w')"
    and ev: "new_events w w' = GetAccessKey req (Inr k) # es"
    and del: "KeyDelete i d \<in> set es"
  shows "m_DeletionTimestamp (k_Meta k) \<noteq> None \<and> ContainsFinalizer L (k_Meta k) finalizerName \<and>
    key_target k es i"
  using Key_run [OF run ev]
proof (cases rule: key_runE)
  case (live k' ps fs)
  from del live(2) admitted_events [OF live(1)] live_no_delete [OF live(3)] show ?thesis
    by fastforce
next
  case finalize
  obtain cs us where "es = cs @ us" "key_calls k cs" "\<forall>e \<in> set us. \<exists>x r. e = UpdateAccessKey x r"
    using finalize(3) unfolding finalize_key_run_def
  proof (elim disjE exE conjE)
    fix e assume "key_calls k es" "out = Returned no_requeue (Some e)"
    with that [of es "[]"] show thesis by simp
  qed (auto dest: key_released_calls intro: that)
  with del finalize(1,2) show ?thesis by (auto simp: key_calls_def key_target_def)
next
  case idle
  with del show ?thesis by auto
qed

theorem key_deletion_targets_witness:
  "key_target ex_dkey [KeyDelete ''GK2'' None,
     UpdateAccessKey (key_unfinalized plain_lib ex_dkey) None] ''GK2''"
  using key_deletion_targets [OF surjective_pairing
      ex_deleted_events [unfolded run_key_def run_events_def], of "''GK2''" None]
  by simp

section \<open>The outcome\<close>

text \<open>
  the reconciler never panics on a condition it dereferences, and never asks for a delay:
  it returns without an error, or with one for the runtime to retry.
\<close>

theorem AccessKeyReconciler_outcome:
  assumes L: "cond_laws L"
    and run: "run_state (AccessKeyReconciler_Reconcile L K R req) w = (out, w')"
  shows "\<exists>err. out = Returned no_requeue err"
  using produces_run [OF AccessKey_Reconcile_trace run]
proof (elim disjE exE conjE)
  fix k fs
  assume "key_run L K req k out fs"
  then show ?thesis
  proof (cases rule: key_runE)
    case (live k' ps gs)
    from L live(3) obtain k2 err es2 where "key_finish L K req (k_Status k') k2 err out es2"
      by (rule live_key_runE)
    then show ?thesis using patched_outcome_cases by (fastforce simp: key_finish_def)
  next
    case finalize
    then show ?thesis by (auto simp: finalize_key_run_def)
  next
    case idle
    then show ?thesis by blast
  qed
qed simp

theorem AccessKeyReconciler_outcome_witness:
  "\<exists>err. fst (run_state (AccessKeyReconciler_Reconcile plain_lib (key_kube ex_akey) ex_keys ex_req)
     empty_world) = Returned no_requeue err"
  by (rule AccessKeyReconciler_outcome [OF plain_lib_cond_laws surjective_pairing])

section \<open>The old secret\<close>

lemma secret_no_delete: "secret_trace L k out es \<Longrightarrow> DeleteSecret s d \<notin> set es"
  by (auto simp: secret_trace_def)

text \<open>A secret is deleted after the credentials were written under the new name.\<close>

lemma establish_rename:
  assumes "establish_trace L (InitializeConditions L k) k1 err es" and "DeleteSecret s d \<in> set es"
  shows "\<exists>a b m res. es = a @ b \<and> DeleteSecret s d \<notin> set a \<and>
    CreateOrUpdateSecret ((secretFor k)\<lparr>s_Meta := m\<rparr>) (res, None) \<in> set a \<and>
    renamed k \<and> s = old_secret k"
proof -
  let ?d = "DeleteSecret s d"
  from assms obtain x a b where es: "es = a @ b"
    and a: "key_trace (InitializeConditions L k) (Inr x) a"
    and b: "credentials_trace L (key_found L x (InitializeConditions L k)) k1 err b"
    unfolding establish_trace_def using key_trace_steps
    by (auto simp: key_trace_def key_probe_def split: if_splits)
  from a have "?d \<notin> set a" by (auto simp: key_trace_def key_probe_def split: if_splits)
  with assms(2) es have "?d \<in> set b" by simp
  with b obtain b1 b2 where b12: "b = b1 @ b2"
    and b1: "secret_trace L (key_found L x (InitializeConditions L k)) None b1"
    and b2: "rename_trace L (key_found L x (InitializeConditions L k)) k1 err b2"
    using secret_no_delete by (fastforce simp: credentials_trace_def)
  from b1 obtain m res where cu: "CreateOrUpdateSecret ((secretFor k)\<lparr>s_Meta := m\<rparr>) (res, None) \<in> set b1"
    and new: "?d \<notin> set b1" by (auto simp: secret_trace_def)
  from b2 \<open>?d \<in> set b\<close> new b12 have "renamed k \<and> s = old_secret k" by (auto simp: rename_trace_def)
  moreover have "es = (a @ b1) @ b2" "?d \<notin> set (a @ b1)" using es b12 \<open>?d \<notin> set a\<close> new by simp_all
  ultimately show ?thesis using cu by (metis Un_iff set_append)
qed

text \<open>
  C27: renaming the secret never leaves the user without one: a secret is only deleted when
  the recorded name differs from the one in the spec; it is the one of the recorded name, in
  the namespace of the resource; and the call comes after the secret of the name in the spec
  was written without error in the same run.  The resource is the object the run read or, in a
  run that adds the finalizer first, the object the API server answered to that patch
  (\<open>admitted\<close>).
\<close>

theorem old_secret_last:
  assumes run: "run_state (AccessKeyReconciler_Reconcile L K R req) w = (out, w')"
    and ev: "new_events w w' = GetAccessKey req (Inr k) # pre @ DeleteSecret s d # post"
  shows "\<exists>k' ps pre'. pre = ps @ pre' \<and> admitted L k k' ps \<and> renamed k' \<and> s = old_secret k' \<and>
    (\<exists>m res. CreateOrUpdateSecret ((secretFor k')\<lparr>s_Meta := m\<rparr>) (res, None) \<in> set pre')"
  using Key_run [OF run ev]
proof (cases rule: key_runE)
  case (live k' ps fs)
  let ?d = "DeleteSecret s d"
  have "?d \<notin> set ps" using admitted_events [OF live(1)] by blast
  from split_after [OF live(2) [symmetric] this] obtain pre1
    where pre1: "pre = ps @ pre1" and fs: "fs = pre1 @ ?d # post" .
  from live(3) obtain es1 es2 where es: "fs = es1 @ es2"
    and es1: "es1 = [] \<or> (\<exists>k1 err. establish_trace L (InitializeConditions L k') k1 err es1)"
    and es2: "\<forall>e \<in> set es2. (\<exists>r. e = GetAccessKey req r) \<or> (\<exists>x r. e = UpdateAccessKeyStatus x r)"
    by (rule live_key_events)
  from es2 have "?d \<notin> set es2" by blast
  with fs es have in1: "?d \<in> set es1" by (metis Un_iff in_set_conv_decomp set_append)
  with es1 obtain k1 err where "establish_trace L (InitializeConditions L k') k1 err es1" by auto
  from establish_rename [OF this in1] obtain a b m res where es1': "es1 = a @ b" "?d \<notin> set a"
    and cu: "CreateOrUpdateSecret ((secretFor k')\<lparr>s_Meta := m\<rparr>) (res, None) \<in> set a"
    and old: "renamed k'" "s = old_secret k'" by auto
  from split_after [of a "b @ es2" pre1 ?d post] fs es es1' obtain pre2 where "pre1 = a @ pre2"
    by auto
  with cu have "CreateOrUpdateSecret ((secretFor k')\<lparr>s_Meta := m\<rparr>) (res, None) \<in> set pre1" by simp
  with pre1 live(1) old show ?thesis by blast
next
  case finalize
  from finalize_events [OF finalize(3), of "DeleteSecret s d"] show ?thesis by simp
next
  case idle
  then show ?thesis by auto
qed

theorem old_secret_last_witness:
  "\<exists>k' ps pre'. [KeyGet ''GK2'' (Inr ex_cred), ex_no_secret, ex_wrote] = ps @ pre' \<and>
     admitted plain_lib ex_rkey k' ps \<and> renamed k' \<and>
     (\<exists>m res. CreateOrUpdateSecret ((secretFor k')\<lparr>s_Meta := m\<rparr>) (res, None) \<in> set pre')"
proof -
  obtain fs where ev: "run_key ex_rkey = GetAccessKey ex_req (Inr ex_rkey) #
    [KeyGet ''GK2'' (Inr ex_cred), ex_no_secret, ex_wrote] @ ex_old_gone # fs"
    by (rule ex_renamed_events)
  from old_secret_last [OF surjective_pairing ev [unfolded run_key_def run_events_def ex_old_gone_def]]
  show ?thesis by blast
qed

section \<open>The secret belongs to the resource\<close>

lemma secretFor_key:
  "m_Namespace (s_Meta (secretFor k)) = fst (secret_name k)"
  "m_Name (s_Meta (secretFor k)) = snd (secret_name k)"
  by (simp_all add: secretFor_def secret_name_def new_meta_def)

lemma writeSecret_store:
  assumes L: "owner_laws L"
    and K: "create_or_update_laws s_Meta s_Data view (kCreateOrUpdateSecret K)"
    and run: "run_state (writeSecret L K k sec) w = (r, w')"
    and own: "\<And>s. view (ext w) (secret_name k) = Some s \<Longrightarrow> IsControlledBy L (s_Meta s) (k_Meta k)"
  shows "(\<forall>n. n \<noteq> secret_name k \<longrightarrow> view (ext w') n = view (ext w) n) \<and>
    (r = None \<longrightarrow> (\<exists>s. view (ext w') (secret_name k) = Some s \<and>
      IsControlledBy L (s_Meta s) (k_Meta k) \<and>
      s_Data s = [SecretKeyAccessKeyID \<mapsto> kst_AccessKeyID (k_Status k), SecretKeySecretAccessKey \<mapsto> sec]))"
proof (cases "SetControllerReference L (k_Meta k) (s_Meta (secretFor k))")
  case (Inl e)
  with run show ?thesis by (auto simp: writeSecret_def run_eval)
next
  case (Inr m)
  let ?new = "(secretFor k)\<lparr>s_Meta := m\<rparr>"
  let ?base = "case view (ext w) (secret_name k) of None \<Rightarrow> ?new | Some cur \<Rightarrow> cur"
  from L Inr obtain rs where m: "m = (s_Meta (secretFor k))\<lparr>m_OwnerReferences := rs\<rparr>"
    and ctl: "IsControlledBy L m (k_Meta k)" unfolding owner_laws_def by blast
  obtain res where op: "kCreateOrUpdateSecret K ?new (secretMutate k sec) (ext w) = ((res, r), ext w')"
    using run Inr by (cases "kCreateOrUpdateSecret K ?new (secretMutate k sec) (ext w)")
      (auto simp: writeSecret_def run_eval Let_def)
  have key: "secret_name k = (m_Namespace (s_Meta ?new), m_Name (s_Meta ?new))"
    by (simp add: m secretFor_key)
  note step = create_or_update_step [OF K op key]
  have base: "IsControlledBy L (s_Meta ?base) (k_Meta k)"
    using own ctl by (auto split: option.splits)
  have "\<exists>s. view (ext w') (secret_name k) = Some s \<and> IsControlledBy L (s_Meta s) (k_Meta k) \<and>
      s_Data s = [SecretKeyAccessKeyID \<mapsto> kst_AccessKeyID (k_Status k), SecretKeySecretAccessKey \<mapsto> sec]"
    if "r = None"
  proof -
    from step(2) [OF that] obtain new st where "secretMutate k sec ?base = Inr new"
      "view (ext w') (secret_name k) = Some st" "same_meta (s_Meta st) (s_Meta new)"
      "s_Data st = s_Data new" by blast
    with base controlled_refs [OF L, of "s_Meta st" "s_Meta ?base"] show ?thesis
      by (auto simp: secretMutate_def same_meta_def)
  qed
  with step(1) show ?thesis by blast
qed

text \<open>
  C20: the credentials are written to the resource's own secret only: the call leaves every
  other secret of the cluster as it was; a secret of that name which another object owns is
  left as it was too and the call fails; and when it succeeds the stored secret is controlled
  by the resource and holds exactly the key's ID and its secret.
\<close>

theorem ensureSecret_safe:
  assumes L: "owner_laws L"
    and K: "create_or_update_laws s_Meta s_Data view (kCreateOrUpdateSecret K)"
    and G: "read_laws L view (kGetSecret K)"
    and run: "run_state (ensureSecret L K k sec) w = (r, w')"
  shows "(\<forall>n. n = secret_name k \<or> view (ext w') n = view (ext w) n) \<and>
    (\<forall>s. view (ext w) (secret_name k) \<noteq> Some s \<or> IsControlledBy L (s_Meta s) (k_Meta k) \<or>
       view (ext w') (secret_name k) = Some s \<and> r \<noteq> None) \<and>
    (r \<noteq> None \<or> (\<exists>s. view (ext w') (secret_name k) = Some s \<and>
       IsControlledBy L (s_Meta s) (k_Meta k) \<and>
       s_Data s = [SecretKeyAccessKeyID \<mapsto> kst_AccessKeyID (k_Status k),
         SecretKeySecretAccessKey \<mapsto> sec]))"
proof -
  obtain x s1 where get: "kGetSecret K (secret_name k) (ext w) = (x, s1)" by fastforce
  define w1 where "w1 = w\<lparr>ext := s1, log := log w @ [GetSecret (secret_name k) x]\<rparr>"
  have v1: "view (ext w1) = view (ext w)"
    and found: "\<And>s. x = Inr s \<Longrightarrow> view (ext w) (secret_name k) = Some s"
    and none: "\<And>e. x = Inl e \<Longrightarrow> IsNotFound L e \<Longrightarrow> view (ext w) (secret_name k) = None"
    using read_lawsD [OF G get] by (simp_all add: w1_def)
  consider (stop) "w' = w1" "r \<noteq> None" | (written) "run_state (writeSecret L K k sec) w1 = (r, w')"
      "secret_free L k x"
    using run get
    by (auto simp: ensureSecret_def run_eval Let_def secret_name_def w1_def secret_free_def
        split: sum.splits if_splits)
  then show ?thesis
  proof cases
    case stop
    with v1 show ?thesis by auto
  next
    case written
    have own: "IsControlledBy L (s_Meta s) (k_Meta k)"
      if "view (ext w1) (secret_name k) = Some s" for s
      using that written(2) found none v1 by (auto simp: secret_free_def split: sum.splits)
    from writeSecret_store [OF L K written(1) own] own v1 show ?thesis by auto
  qed
qed

theorem ensureSecret_safe_witness:
  "let w' = snd (run_state (ensureSecret plain_lib (key_kube ex_rkey) ex_rkey ''s3cr3t'') empty_world)
   in \<exists>s. valid_view s_Meta (st_Secrets (ext w')) (secret_name ex_rkey) = Some s \<and>
      controlled_by (s_Meta s) ex_key_meta \<and>
      s_Data s = [SecretKeyAccessKeyID \<mapsto> ''GK2'', SecretKeySecretAccessKey \<mapsto> ''s3cr3t'']"
proof -
  have K: "create_or_update_laws s_Meta s_Data (\<lambda>s. valid_view s_Meta (st_Secrets s))
      (kCreateOrUpdateSecret (key_kube ex_rkey))"
    by (simp add: key_kube_def store_kube_secrets)
  have G: "read_laws plain_lib (\<lambda>s. valid_view s_Meta (st_Secrets s)) (kGetSecret (key_kube ex_rkey))"
    by (simp add: key_kube_def store_kube_reads_secrets)
  have "fst (run_state (ensureSecret plain_lib (key_kube ex_rkey) ex_rkey ''s3cr3t'') empty_world) = None"
    by (simp add: ex_ensure_secret empty_world_def)
  with ensureSecret_safe [OF plain_lib_owner_laws K G surjective_pairing, of ex_rkey "''s3cr3t''" empty_world]
  show ?thesis by (auto simp: Let_def)
qed

end
