(* ===== verification/AccessKeyHistory.thy ===== *)
theory AccessKeyHistory
  imports AccessKeyProps
begin

text \<open>
  The status an AccessKey carries over its life: what a run reports, the invariant of the
  stored object under edits, interleaved runs and stale reads, and the quiet state it ends in.
\<close>

section \<open>What a run makes of the status\<close>

definition key_summary :: "lib \<Rightarrow> condition list \<Rightarrow> cond_status \<times> string \<times> string" where
  "key_summary L cs = summary (part_views L cs access_key_parts) access_key_waiting"

definition key_reported :: "lib \<Rightarrow> AccessKey \<Rightarrow> AccessKey" where
  "key_reported L k = set_ready_access_key L (key_summary L (k_Conditions k)) k"

lemma key_summary_views:
  assumes "cond_view L cs AccessKeyReady = Some (s1, r1, m1, g1)"
    and "cond_view L cs KeySecretReady = Some (s2, r2, m2, g2)"
  shows "key_summary L cs =
    (if s1 = ConditionTrue \<and> s2 = ConditionTrue
     then (ConditionTrue, defaultReadyReason, defaultReadyMessage)
     else if s1 = ConditionFalse then (ConditionFalse, r1, m1)
     else if s2 = ConditionFalse then (ConditionFalse, r2, m2)
     else (ConditionFalse, access_key_waiting))"
  using assms
  by (cases s1; cases s2)
    (simp_all add: key_summary_def part_views_Cons part_view_def access_key_parts_def summary_def)

lemma key_reported_simps:
  assumes "cond_laws L"
  shows "cond_view L (k_Conditions (key_reported L k)) t =
      (if t = Ready then Some (case key_summary L (k_Conditions k) of (st, r, m) \<Rightarrow>
         (st, r, m, k_Generation k))
       else cond_view L (k_Conditions k) t)"
    and "kst_ObservedGeneration (k_Status (key_reported L k)) =
      (if access_key_settled (key_summary L (k_Conditions k)) then k_Generation k
       else kst_ObservedGeneration (k_Status k))"
    and "k_Meta (key_reported L k) = k_Meta k" and "k_Spec (key_reported L k) = k_Spec k"
    and "kst_AccessKeyID (k_Status (key_reported L k)) = kst_AccessKeyID (k_Status k)"
    and "kst_SecretName (k_Status (key_reported L k)) = kst_SecretName (k_Status k)"
  unfolding key_reported_def by (rule set_ready_access_key_simps [OF assms])+

lemma live_runE:
  assumes L: "cond_laws L" and "live_key_run L K req k out es"
  obtains k1 err es1 es2 where "es = es1 @ es2"
    and "key_work L (InitializeConditions L k) k1 err es1" and "has_key_parts L k1"
    and "key_finish L K req (k_Status k) (key_reported L k1) err out es2"
  by (rule live_key_runE [OF L assms(2), folded key_summary_def key_reported_def]) (rule that)

lemma not_permanent:
  "\<not> access_key_settled (ConditionFalse, ''AccessKeyUnknown'', m)"
  "failed_secret_reason r \<Longrightarrow> \<not> access_key_settled (ConditionFalse, r, m)"
  "access_key_settled (ConditionFalse, ReasonSecretNameConflict, m)"
  "access_key_settled (ConditionTrue, rm)"
  by (auto simp: access_key_settled_def isPermanentFailure_def failureReasons_def
      List.member_iff failed_secret_reason_def secret_reason_def ReasonSecretNameConflict_def
      ReasonSecretAccessForbidden_def ReasonSecretSetupFailed_def)

text \<open>The two partial conditions and the summary after each way a run can go.\<close>

lemma work_summary:
  assumes L: "cond_laws L" and "has_key_parts L k"
  shows "key_summary L (k_Conditions (markAccessKeyNotReady L k r m)) = (ConditionFalse, r, m)"
    and "key_summary L (k_Conditions (markSecretNotReady L (key_found L x k) r m)) =
      (ConditionFalse, r, m)"
    and "key_summary L (k_Conditions (secret_done L (key_found L x k))) =
      (ConditionTrue, defaultReadyReason, defaultReadyMessage)"
proof -
  from assms(2) obtain s1 r1 m1 g1 s2 r2 m2 g2 where
    v: "cond_view L (k_Conditions k) AccessKeyReady = Some (s1, r1, m1, g1)"
    "cond_view L (k_Conditions k) KeySecretReady = Some (s2, r2, m2, g2)"
    by (auto simp: has_key_parts_def access_key_parts_def find_None_view)
  note marks = key_mark_view [OF L] key_found_def secret_done_def
  from key_summary_views [of L "k_Conditions (markAccessKeyNotReady L k r m)"] v
  show "key_summary L (k_Conditions (markAccessKeyNotReady L k r m)) = (ConditionFalse, r, m)"
    by (simp add: marks)
  from key_summary_views [of L "k_Conditions (markSecretNotReady L (key_found L x k) r m)"] v
  show "key_summary L (k_Conditions (markSecretNotReady L (key_found L x k) r m)) =
      (ConditionFalse, r, m)"
    by (simp add: marks)
  from key_summary_views [of L "k_Conditions (secret_done L (key_found L x k))"] v
  show "key_summary L (k_Conditions (secret_done L (key_found L x k))) =
      (ConditionTrue, defaultReadyReason, defaultReadyMessage)"
    by (simp add: marks)
qed

text \<open>The run of the example that creates a key, to its end.\<close>

definition ex_done :: AccessKey where
  "ex_done = key_reported plain_lib
     (secret_done plain_lib (key_found plain_lib ex_cred (InitializeConditions plain_lib ex_akey)))"

lemma ex_done_update:
  "updateAccessKeyCondition plain_lib
     (secret_done plain_lib (key_found plain_lib ex_cred (InitializeConditions plain_lib ex_akey))) =
   Some ex_done"
proof -
  have "has_key_parts plain_lib
     (secret_done plain_lib (key_found plain_lib ex_cred (InitializeConditions plain_lib ex_akey)))"
    using has_key_parts_init [OF plain_lib_cond_laws, of ex_akey]
    by (simp add: has_key_parts_stat key_mark_stat [OF plain_lib_cond_laws] key_found_def secret_done_def)
  then show ?thesis
    by (simp add: updateAccessKey_summary has_key_parts_def ex_done_def key_reported_def key_summary_def)
qed

lemma ex_done_sel [simp]:
  "kst_AccessKeyID (k_Status ex_done) = ''GK2''" "k_Meta ex_done = ex_key_meta"
  "kst_ObservedGeneration (k_Status ex_done) = 1"
proof -
  note simps = key_reported_simps [OF plain_lib_cond_laws]
    work_summary [OF plain_lib_cond_laws has_key_parts_init [OF plain_lib_cond_laws]]
  show "kst_AccessKeyID (k_Status ex_done) = ''GK2''" "k_Meta ex_done = ex_key_meta"
    "kst_ObservedGeneration (k_Status ex_done) = 1"
    by (simp_all add: ex_done_def simps not_permanent)
qed

definition ex_new_pre :: "ctrl_event list" where
  "ex_new_pre =
     [KeyLookup (namespacedResourceName ex_key_meta) (Inl (Sentinel ErrResourceNotFound)),
      KeyCreate (namespacedResourceName ex_key_meta) (Inr ex_cred), ex_no_secret, ex_wrote,
      GetAccessKey ex_req (Inr ex_akey)]"

lemma ex_new_key_run:
  "run_key ex_akey = GetAccessKey ex_req (Inr ex_akey) # ex_new_pre @
     UpdateAccessKeyStatus (ex_akey\<lparr>k_Status := k_Status ex_done\<rparr>) None # []"
proof -
  define w where "w = empty_world\<lparr>ext := ext empty_world, log := log empty_world @ [GetAccessKey ex_req (Inr ex_akey)]\<rparr>"
  have w: "ext w = empty_store" "log w = [GetAccessKey ex_req (Inr ex_akey)]"
    by (simp_all add: w_def empty_world_def)
  have uns: "keySettled plain_lib (InitializeConditions plain_lib ex_akey) = Some False"
    by (rule ex_unsettled) simp
  have ne: "k_Status ex_akey \<noteq> k_Status ex_done"
    by (rule notI, drule arg_cong [where f = kst_AccessKeyID]) simp
  let ?e = "run_state (establishKey plain_lib (key_kube ex_akey) ex_keys
    (InitializeConditions plain_lib ex_akey)) w"
  have e1: "fst ?e = (secret_done plain_lib (key_found plain_lib ex_cred
      (InitializeConditions plain_lib ex_akey)), None)"
    and e2: "log (snd ?e) = log w @
      [KeyLookup (namespacedResourceName ex_key_meta) (Inl (Sentinel ErrResourceNotFound)),
       KeyCreate (namespacedResourceName ex_key_meta) (Inr ex_cred), ex_no_secret, ex_wrote]"
    using ex_establish_new [OF w(1), of ex_akey] by (simp_all add: prod_eq_iff)
  have rec: "run_state (reconcileAccessKey plain_lib (key_kube ex_akey) ex_keys
      (InitializeConditions plain_lib ex_akey)) w = (Some (fst ?e), snd ?e)"
    by (simp add: reconcileAccessKey_def uns run_eval case_prod_beta)
  have "log (snd (run_state (reconcileLiveKey plain_lib (key_kube ex_akey) ex_keys ex_req ex_akey) w)) =
    GetAccessKey ex_req (Inr ex_akey) # ex_new_pre @
     UpdateAccessKeyStatus (ex_akey\<lparr>k_Status := k_Status ex_done\<rparr>) None # []"
    by (simp add: reconcileLiveKey_def run_eval Let_def rec e1 e2 ex_done_update finishKey_def ne
        updateStatus_def ex_new_pre_def w)
  then show ?thesis
    by (simp add: run_key_def run_events_def new_events_def AccessKeyReconciler_Reconcile_def run_eval
        w_def) (simp add: empty_world_def)
qed

section \<open>What \<open>Ready\<close> stands for\<close>

text \<open>The key Garage answered with in this run, found or created.\<close>

definition key_answered :: "AccessKey \<Rightarrow> s3_access_key \<Rightarrow> ctrl_event list \<Rightarrow> bool" where
  "key_answered k x es \<longleftrightarrow> key_probe k (Inr x) \<in> set es \<or>
     KeyCreate (namespacedResourceName (k_Meta k)) (Inr x) \<in> set es"

lemma key_trace_answered: "key_trace k (Inr x) es \<Longrightarrow> key_answered k x (es @ fs)"
  by (auto simp: key_trace_def key_answered_def)

fun secret_effect :: "ctrl_event \<Rightarrow> bool" where
  "secret_effect (CreateOrUpdateSecret s r) = True"
| "secret_effect (DeleteSecret s r) = True"
| "secret_effect e = False"

lemma credentials_stored_append:
  assumes "list_all (\<lambda>e. \<not> secret_effect e) es"
  shows "credentials_stored L k (es @ fs) = credentials_stored L k fs"
    and "credentials_stored L k (fs @ es) = credentials_stored L k fs"
proof -
  have "\<not> secret_effect e \<Longrightarrow> e \<noteq> CreateOrUpdateSecret s r \<and> e \<noteq> DeleteSecret s d" for e s r d
    by auto
  with assms have "CreateOrUpdateSecret s r \<notin> set es" "DeleteSecret s d \<notin> set es" for s r d
    by (force simp: list_all_iff)+
  then show "credentials_stored L k (es @ fs) = credentials_stored L k fs"
    and "credentials_stored L k (fs @ es) = credentials_stored L k fs"
    by (simp_all add: credentials_stored_def)
qed

lemma key_trace_no_secret: "key_trace k r es \<Longrightarrow> list_all (\<lambda>e. \<not> secret_effect e) es"
  by (auto simp: key_trace_def key_probe_def)

lemma finish_no_secret:
  "key_finish L K req orig k err out es \<Longrightarrow> list_all (\<lambda>e. \<not> secret_effect e) es"
  unfolding list_all_iff using key_finish_events by fastforce

text \<open>What the object is after the work, given what happened to the credentials.\<close>

lemma work_result:
  assumes L: "cond_laws L" and work: "establish_trace L k k1 err es" and parts: "has_key_parts L k"
  shows "if credentials_stored L k es
    then (\<exists>x. k1 = secret_done L (key_found L x k) \<and> key_answered k x es) \<and> err = None \<and>
      key_summary L (k_Conditions k1) = (ConditionTrue, defaultReadyReason, defaultReadyMessage)
    else fst (key_summary L (k_Conditions k1)) = ConditionFalse"
  using work
proof (cases rule: establishE)
  case (unknown e m)
  have "\<not> credentials_stored L k (es @ [])"
    unfolding credentials_stored_append(1) [OF key_trace_no_secret [OF unknown(3)]]
    by (simp add: credentials_stored_def)
  with unknown work_summary [OF L parts] show ?thesis by simp
next
  case (conflict x es1 es2 m)
  with credentials_stored_append(1) [OF key_trace_no_secret [OF conflict(2)]]
    work_summary [OF L parts] show ?thesis by simp
next
  case (failed x es1 es2 r m)
  with credentials_stored_append(1) [OF key_trace_no_secret [OF failed(2)]]
    work_summary [OF L parts] show ?thesis by simp
next
  case (stored x es1 es2)
  with credentials_stored_append(1) [OF key_trace_no_secret [OF stored(2)]] key_trace_answered
    work_summary [OF L parts] show ?thesis by auto
qed

lemma work_frame:
  assumes "key_work L k k1 err es"
  shows "k_Meta k1 = k_Meta k \<and> k_Spec k1 = k_Spec k \<and>
    kst_ObservedGeneration (k_Status k1) = kst_ObservedGeneration (k_Status k)"
  using assms unfolding key_work_def
proof (elim disjE conjE)
  assume "establish_trace L k k1 err es"
  then show ?thesis by (cases rule: establishE) simp_all
qed simp

text \<open>
  \<open>Ready\<close> is earned by the run that reports it: when the resource was not already settled
  and the run writes a status, that status has the condition \<open>Ready\<close> true exactly when in
  this very run the secret of the spec was written without error and, after a renaming, the
  one of the old name is gone; it then records the ID of the key Garage answered with, the
  name of the secret and the generation of the spec; otherwise \<open>Ready\<close> is false.
\<close>

theorem access_key_ready_evidence:
  assumes L: "cond_laws L"
    and run: "run_state (AccessKeyReconciler_Reconcile L K R req) w = (out, w')"
    and ev: "new_events w w' = GetAccessKey req (Inr k) # es"
    and fin: "ContainsFinalizer L (k_Meta k) finalizerName"
    and uns: "keySettled L (InitializeConditions L k) = Some False"
    and upd: "UpdateAccessKeyStatus k' r \<in> set es"
  shows "(if credentials_stored L k es
     then cond_stat L (k_Conditions k') Ready = Some ConditionTrue \<and>
       kst_ObservedGeneration (k_Status k') = k_Generation k \<and>
       kst_SecretName (k_Status k') = ks_SecretName (k_Spec k) \<and>
       (\<exists>x. key_answered k x es \<and> kst_AccessKeyID (k_Status k') = sk_ID x)
     else cond_stat L (k_Conditions k') Ready = Some ConditionFalse)"
  using Key_run [OF run ev]
proof (cases rule: key_runE)
  case (live k0 ps fs)
  from live(1,2) fin have fs: "fs = es" "k0 = k" by (simp_all add: admitted_def)
  from live(3) obtain k1 err es1 es2 where es: "es = es1 @ es2"
    and work: "key_work L (InitializeConditions L k) k1 err es1" and parts: "has_key_parts L k1"
    and kf: "key_finish L K req (k_Status k) (key_reported L k1) err out es2"
    unfolding fs by (rule live_runE [OF L])
  from work uns have est: "establish_trace L (InitializeConditions L k) k1 err es1"
    by (simp add: key_work_def)
  have "UpdateAccessKeyStatus k' r \<notin> set es1"
    using establish_steps [OF est] by (auto simp: list_all_iff)
  with upd es key_finish_events [OF kf] have st: "k_Status k' = k_Status (key_reported L k1)"
    by fastforce
  have cs: "credentials_stored L (InitializeConditions L k) es1 = credentials_stored L k es"
    using credentials_stored_append(2) [OF finish_no_secret [OF kf]] by (simp add: es)
  note res = work_result [OF L est has_key_parts_init [OF L], unfolded cs]
  note rep = key_reported_simps [OF L, of k1]
  have ready: "cond_stat L (k_Conditions k') Ready = Some (fst (key_summary L (k_Conditions k1)))"
    by (simp add: st cond_stat_view rep case_prod_beta)
  show ?thesis
  proof (cases "credentials_stored L k es")
    case True
    with res obtain x where k1: "k1 = secret_done L (key_found L x (InitializeConditions L k))"
      and x: "key_answered (InitializeConditions L k) x es1"
      and s: "key_summary L (k_Conditions k1) = (ConditionTrue, defaultReadyReason, defaultReadyMessage)"
      by auto
    from x have "key_answered k x es" by (auto simp: key_answered_def es)
    with True ready s k1 show ?thesis by (auto simp: st key_reported_simps [OF L] not_permanent)
  next
    case False
    with res ready show ?thesis by simp
  qed
next
  case finalize
  from finalize_events [OF finalize(3) upd] show ?thesis by simp
next
  case idle
  with upd show ?thesis by auto
qed

lemma ex_new_settled:
  "keySettled plain_lib (InitializeConditions plain_lib ex_akey) = Some False"
  "ContainsFinalizer plain_lib (k_Meta ex_akey) finalizerName"
  by (rule ex_unsettled, simp) simp

theorem access_key_ready_evidence_witness:
  "if credentials_stored plain_lib ex_akey (tl (run_key ex_akey))
   then cond_stat plain_lib (k_Conditions (ex_akey\<lparr>k_Status := k_Status ex_done\<rparr>)) Ready =
     Some ConditionTrue \<and> kst_SecretName (k_Status ex_done) = ''creds''
   else cond_stat plain_lib (k_Conditions (ex_akey\<lparr>k_Status := k_Status ex_done\<rparr>)) Ready =
     Some ConditionFalse"
proof -
  note ev = ex_new_key_run [unfolded run_key_def run_events_def]
  have upd: "UpdateAccessKeyStatus (ex_akey\<lparr>k_Status := k_Status ex_done\<rparr>) None \<in>
    set (ex_new_pre @ [UpdateAccessKeyStatus (ex_akey\<lparr>k_Status := k_Status ex_done\<rparr>) None])" by simp
  show ?thesis
    using access_key_ready_evidence [OF plain_lib_cond_laws surjective_pairing ev ex_new_settled(2,1) upd]
    by (simp add: ex_new_key_run split: if_splits)
qed

section \<open>Well-formed statuses\<close>

lemma key_reasons_valid [simp]:
  "reason_valid ''AccessKeyUnknown''" "reason_valid ReasonSecretNameConflict"
  "reason_valid ReasonSecretSetupFailed" "reason_valid ''SecretCleanupFailed''"
  "reason_valid ''AccessKeyReady''" "reason_valid ''SecretReady''"
  "reason_valid ''WaitingForResources''"
  by code_simp+

lemma valid_marks:
  assumes "cond_laws L" and "valid_reasons L (k_Conditions k)"
  shows "reason_valid r \<Longrightarrow> valid_reasons L (k_Conditions (markAccessKeyNotReady L k r m))"
    and "reason_valid r \<Longrightarrow> valid_reasons L (k_Conditions (markSecretNotReady L k r m))"
    and "valid_reasons L (k_Conditions (key_found L x k))"
    and "valid_reasons L (k_Conditions (secret_done L k))"
  using assms by (simp_all add: valid_reasons_def key_mark_view [OF assms(1)] key_found_def secret_done_def)

lemma valid_key_reported:
  assumes L: "cond_laws L" and v: "valid_reasons L (k_Conditions k)"
  shows "valid_reasons L (k_Conditions (key_reported L k))"
proof -
  have "reason_valid (fst (snd (key_summary L (k_Conditions k))))"
    unfolding key_summary_def
    by (intro summary_reason ballI)
      (use v in \<open>auto simp: valid_reasons_def access_key_waiting_def
         intro: part_views_reason [of access_key_parts L "k_Conditions k"]\<close>)
  with v show ?thesis
    by (auto simp: valid_reasons_def key_reported_simps [OF L] split: prod.splits)
qed

lemma valid_work:
  assumes L: "cond_laws L" and v: "valid_reasons L (k_Conditions k)" and "key_work L k k1 err es"
  shows "valid_reasons L (k_Conditions k1)"
  using assms(3) unfolding key_work_def
proof (elim disjE conjE)
  assume "establish_trace L k k1 err es"
  then show ?thesis
  proof (cases rule: establishE)
    case (failed x es1 es2 r m)
    then have "reason_valid r" by (auto simp: failed_secret_reason_def secret_reason_def)
    with failed L v show ?thesis by (simp add: valid_marks)
  qed (simp_all add: valid_marks L v)
qed (simp add: v)

text \<open>
  C15: the API server accepts every status the reconciler writes: when the reasons of the
  conditions of the object the run read, and of the object the API server answered when the run
  added the finalizer, fit the pattern the CRD puts on them, then so do all reasons of the
  status the run writes, on success and on every error path.  The first run of a resource, which
  adds the finalizer and then reconciles, is included.
\<close>

theorem access_key_reasons_valid:
  assumes L: "cond_laws L"
    and run: "run_state (AccessKeyReconciler_Reconcile L K R req) w = (out, w')"
    and ev: "new_events w w' = GetAccessKey req (Inr k) # es"
    and v: "valid_reasons L (k_Conditions k)"
    and answered: "\<And>x p. PatchAccessKey x (Inr p) \<in> set es \<Longrightarrow> valid_reasons L (k_Conditions p)"
    and upd: "UpdateAccessKeyStatus k' r \<in> set es"
  shows "valid_reasons L (k_Conditions k')"
  using Key_run [OF run ev]
proof (cases rule: key_runE)
  case (live k0 ps fs)
  have v0: "valid_reasons L (k_Conditions k0)"
    using live(1,2) v answered by (auto simp: admitted_def split: if_splits)
  from live(3) obtain k1 err es1 es2 where es: "fs = es1 @ es2"
    and work: "key_work L (InitializeConditions L k0) k1 err es1"
    and kf: "key_finish L K req (k_Status k0) (key_reported L k1) err out es2"
    by (rule live_runE [OF L])
  have "UpdateAccessKeyStatus k' r \<notin> set es1" and "UpdateAccessKeyStatus k' r \<notin> set ps"
    using key_work_steps [OF work] admitted_events [OF live(1)] by (auto simp: list_all_iff)
  with upd live(2) es key_finish_events [OF kf] have st: "k_Status k' = k_Status (key_reported L k1)"
    by fastforce
  have "valid_reasons L (k_Conditions (InitializeConditions L k0))"
    unfolding InitializeConditions_def k_set_conditions_simps by (rule valid_reasons_init [OF L v0])
  from valid_key_reported [OF L valid_work [OF L this work]] st show ?thesis by simp
next
  case finalize
  from finalize_events [OF finalize(3) upd] show ?thesis by simp
next
  case idle
  with upd show ?thesis by auto
qed

theorem access_key_reasons_valid_witness:
  "valid_reasons plain_lib (k_Conditions (ex_akey\<lparr>k_Status := k_Status ex_done\<rparr>))"
proof -
  note ev = ex_new_key_run [unfolded run_key_def run_events_def]
  have upd: "UpdateAccessKeyStatus (ex_akey\<lparr>k_Status := k_Status ex_done\<rparr>) None \<in>
    set (ex_new_pre @ [UpdateAccessKeyStatus (ex_akey\<lparr>k_Status := k_Status ex_done\<rparr>) None])" by simp
  have v: "valid_reasons plain_lib (k_Conditions ex_akey)"
    by (simp add: valid_reasons_def cond_view_def)
  show ?thesis
    by (rule access_key_reasons_valid [OF plain_lib_cond_laws surjective_pairing ev v _ upd])
      (auto simp: ex_new_pre_def ex_no_secret_def ex_wrote_def)
qed

section \<open>The invariant of the stored object\<close>

text \<open>
  What a status that claims its generation observed (\<open>ObservedGeneration = Generation\<close>) says:
  the external key was confirmed and its ID is recorded, and either the secret is the one of
  the spec, or the resource gave up because its name is taken; \<open>Ready\<close> is the summary of it.
\<close>

definition key_good :: "lib \<Rightarrow> AccessKeySpec \<Rightarrow> AccessKeyStatus \<Rightarrow> bool" where
  "key_good L spec st \<longleftrightarrow>
     cond_stat L (kst_Conditions st) AccessKeyReady = Some ConditionTrue \<and>
     kst_AccessKeyID st \<noteq> [] \<and>
     (cond_stat L (kst_Conditions st) KeySecretReady = Some ConditionTrue \<and>
        kst_SecretName st = ks_SecretName spec \<or>
      (\<exists>m g. cond_view L (kst_Conditions st) KeySecretReady =
         Some (ConditionFalse, ReasonSecretNameConflict, m, g))) \<and>
     cond_view L (kst_Conditions st) Ready =
       (case key_summary L (kst_Conditions st) of (s, r, m) \<Rightarrow>
          Some (s, r, m, kst_ObservedGeneration st))"

text \<open>Every Garage answer of a run names a key.\<close>

fun key_answer :: "ctrl_event \<Rightarrow> s3_access_key option" where
  "key_answer (KeyGet i (Inr x)) = Some x"
| "key_answer (KeyLookup n (Inr x)) = Some x"
| "key_answer (KeyCreate n (Inr x)) = Some x"
| "key_answer e = None"

definition keys_named :: "ctrl_event list \<Rightarrow> bool" where
  "keys_named es \<longleftrightarrow> list_all (\<lambda>e. case key_answer e of None \<Rightarrow> True | Some x \<Rightarrow> sk_ID x \<noteq> []) es"

lemma keys_named_append [simp]: "keys_named (es @ fs) \<longleftrightarrow> keys_named es \<and> keys_named fs"
  by (simp add: keys_named_def)

lemma key_trace_named: "key_trace k (Inr x) es \<Longrightarrow> keys_named es \<Longrightarrow> sk_ID x \<noteq> []"
  by (auto simp: key_trace_def key_probe_def keys_named_def split: if_splits)

lemma settled_iff:
  assumes "cond_laws L"
  shows "keySettled L (InitializeConditions L k) = Some (kst_ObservedGeneration (k_Status k) = k_Generation k \<and>
     cond_stat L (k_Conditions (InitializeConditions L k)) AccessKeyReady = Some ConditionTrue \<and>
     kst_AccessKeyID (k_Status k) \<noteq> [])"
  using has_key_parts_init [OF assms, of k]
  by (auto simp: keySettled_def externalKeyReadyStat_def cond_stat_def has_key_parts_def
      access_key_parts_def)

lemma init_view_some:
  "cond_laws L \<Longrightarrow> cond_view L (k_Conditions k) t = Some v \<Longrightarrow>
     cond_view L (k_Conditions (InitializeConditions L k)) t = Some v"
  unfolding InitializeConditions_def k_set_conditions_simps cond_view_def
  using init_find_some by fastforce

lemma key_good_views:
  assumes "key_good L spec st"
  obtains r1 m1 g1 s2 r2 m2 g2 where
    "cond_view L (kst_Conditions st) AccessKeyReady = Some (ConditionTrue, r1, m1, g1)"
    "cond_view L (kst_Conditions st) KeySecretReady = Some (s2, r2, m2, g2)"
    "s2 = ConditionTrue \<and> kst_SecretName st = ks_SecretName spec \<or>
       s2 = ConditionFalse \<and> r2 = ReasonSecretNameConflict"
  using assms by (auto simp: key_good_def cond_stat_view)

lemma key_good_settled:
  assumes L: "cond_laws L" and "key_good L spec (k_Status k)"
    and "kst_ObservedGeneration (k_Status k) = k_Generation k"
  shows "keySettled L (InitializeConditions L k) = Some True"
proof -
  from assms(2) obtain r m g where "cond_view L (k_Conditions k) AccessKeyReady = Some (ConditionTrue, r, m, g)"
    by (rule key_good_views)
  from init_view_some [OF L this] assms show ?thesis
    by (simp add: settled_iff [OF L] cond_stat_view key_good_def)
qed

lemma key_good_reported:
  assumes L: "cond_laws L" and gen: "kst_ObservedGeneration (k_Status (key_reported L k)) = k_Generation k"
    and key: "cond_stat L (k_Conditions k) AccessKeyReady = Some ConditionTrue"
      "kst_AccessKeyID (k_Status k) \<noteq> []"
    and sec: "cond_stat L (k_Conditions k) KeySecretReady = Some ConditionTrue \<and>
        kst_SecretName (k_Status k) = ks_SecretName spec \<or>
      (\<exists>m g. cond_view L (k_Conditions k) KeySecretReady =
         Some (ConditionFalse, ReasonSecretNameConflict, m, g))"
  shows "key_good L spec (k_Status (key_reported L k))"
proof -
  have "key_summary L (k_Conditions (key_reported L k)) = key_summary L (k_Conditions k)"
    unfolding key_summary_def
    by (rule arg_cong [of _ _ "\<lambda>p. summary p access_key_waiting"])
      (rule access_key_cond.part_views_frame, simp add: key_reported_simps [OF L])
  with gen key sec show ?thesis
    by (simp add: key_good_def cond_stat_view key_reported_simps [OF L] case_prod_beta)
qed

text \<open>One run, on an object whose status may claim its generation only when it is good.\<close>

lemma settled_run_good:
  assumes L: "cond_laws L" and gen: "kst_ObservedGeneration (k_Status k) = k_Generation k"
    and good: "key_good L (k_Spec k) (k_Status k)"
  shows "kst_ObservedGeneration (k_Status (key_reported L (InitializeConditions L k))) = k_Generation k \<and>
    key_good L (k_Spec k) (k_Status (key_reported L (InitializeConditions L k)))"
proof -
  let ?k = "InitializeConditions L k"
  from good obtain r1 m1 g1 s2 r2 m2 g2 where v:
    "cond_view L (k_Conditions k) AccessKeyReady = Some (ConditionTrue, r1, m1, g1)"
    "cond_view L (k_Conditions k) KeySecretReady = Some (s2, r2, m2, g2)"
    "s2 = ConditionTrue \<and> kst_SecretName (k_Status k) = ks_SecretName (k_Spec k) \<or>
       s2 = ConditionFalse \<and> r2 = ReasonSecretNameConflict"
    by (rule key_good_views)
  have obs: "kst_ObservedGeneration (k_Status (key_reported L ?k)) = k_Generation ?k"
    using gen key_reported_simps(2) [OF L, of ?k] by simp
  have "key_good L (k_Spec ?k) (k_Status (key_reported L ?k))"
    by (rule key_good_reported [OF L obs])
      (use v init_view_some [OF L v(1)] init_view_some [OF L v(2)] good in
        \<open>auto simp: cond_stat_view key_good_def\<close>)
  with obs show ?thesis by simp
qed

lemma run_good:
  assumes L: "cond_laws L"
    and work: "key_work L (InitializeConditions L k) k1 err es" and named: "keys_named es"
    and good: "kst_ObservedGeneration (k_Status k) = k_Generation k \<longrightarrow>
      key_good L (k_Spec k) (k_Status k)"
  shows "kst_ObservedGeneration (k_Status (key_reported L k1)) = kst_ObservedGeneration (k_Status k) \<and>
      kst_ObservedGeneration (k_Status k) \<noteq> k_Generation k \<or>
    kst_ObservedGeneration (k_Status (key_reported L k1)) = k_Generation k \<and>
      key_good L (k_Spec k) (k_Status (key_reported L k1))"
proof -
  note frame = work_frame [OF work, simplified]
  note init = has_key_parts_init [OF L, of k]
  note obs = key_reported_simps(2) [OF L, of k1, unfolded frame [THEN conjunct1]]
  from work show ?thesis
    unfolding key_work_def
  proof (elim disjE conjE)
    assume settled: "keySettled L (InitializeConditions L k) = Some True" and k1: "k1 = InitializeConditions L k"
    from settled have "kst_ObservedGeneration (k_Status k) = k_Generation k"
      by (simp add: settled_iff [OF L])
    with settled_run_good [OF L this] good show ?thesis by (simp add: k1)
  next
    assume uns: "keySettled L (InitializeConditions L k) = Some False"
      and est: "establish_trace L (InitializeConditions L k) k1 err es"
    have neq: "kst_ObservedGeneration (k_Status k) \<noteq> k_Generation k"
      using uns good key_good_settled [OF L] by auto
    note sums = work_summary [OF L init]
    from est show ?thesis
    proof (cases rule: establishE)
      case (unknown e m)
      with neq obs sums show ?thesis by (simp add: not_permanent)
    next
      case (conflict x es1 es2 m)
      with obs sums have gen: "kst_ObservedGeneration (k_Status (key_reported L k1)) = k_Generation k1"
        by (simp add: not_permanent)
      have "key_good L (k_Spec k) (k_Status (key_reported L k1))"
        by (rule key_good_reported [OF L gen])
          (use conflict named key_trace_named [OF conflict(2)] in
            \<open>simp_all add: key_mark_stat [OF L] key_mark_view [OF L] key_found_def\<close>)
      with gen frame show ?thesis by simp
    next
      case (failed x es1 es2 r m)
      with neq obs sums not_permanent(2) [OF failed(5)] show ?thesis by simp
    next
      case (stored x es1 es2)
      with obs sums have gen: "kst_ObservedGeneration (k_Status (key_reported L k1)) = k_Generation k1"
        by (simp add: not_permanent)
      have "key_good L (k_Spec k) (k_Status (key_reported L k1))"
        by (rule key_good_reported [OF L gen])
          (use stored named key_trace_named [OF stored(2)] in
            \<open>simp_all add: key_mark_stat [OF L] key_found_def secret_done_def\<close>)
      with gen frame show ?thesis by simp
    qed
  qed
qed

section \<open>The versions of an object\<close>

text \<open>
  \<open>key_history\<close> lists the versions the API server stored of one AccessKey, newest first.  It
  is created without an observed generation; it is edited, which keeps the status and raises
  the generation when the spec changes; and runs of the reconciler write statuses: such a
  run may have read any earlier version (a cache may be stale, and other runs and edits may
  have come in between), but its update only lands on the newest one.
\<close>

definition observed_gen :: "AccessKey \<Rightarrow> int64" where
  "observed_gen k = kst_ObservedGeneration (k_Status k)"

inductive key_history ::
  "lib \<Rightarrow> 's kube \<Rightarrow> 's AccessKeyReconciler \<Rightarrow> AccessKey list \<Rightarrow> bool"
  for L K R where
  created: "key_history L K R [k]" if "observed_gen k = 0" "0 < sint (k_Generation k)"
| edited: "key_history L K R (k' # k # h)" if "key_history L K R (k # h)"
    "k_Status k' = k_Status k"
    "k_Spec k' = k_Spec k \<and> k_Generation k' = k_Generation k \<or>
      sint (k_Generation k) < sint (k_Generation k')"
| reported: "key_history L K R (k\<lparr>k_Status := st\<rparr> # k # h)" if "key_history L K R (k # h)"
    "run_state (AccessKeyReconciler_Reconcile L K R req) w = (out, w')"
    "new_events w w' =
       GetAccessKey req (Inr k0) # pre @ UpdateAccessKeyStatus (k\<lparr>k_Status := st\<rparr>) None # post"
    "k0 \<in> set (k # h)" "\<And>p k1. PatchAccessKey p (Inr k1) \<in> set pre \<Longrightarrow> k1 \<in> set (k # h)"
    "keys_named pre"

text \<open>What every stored version satisfies, and how versions of one generation relate.\<close>

definition version_ok :: "lib \<Rightarrow> AccessKey \<Rightarrow> bool" where
  "version_ok L k \<longleftrightarrow> sint (observed_gen k) \<le> sint (k_Generation k) \<and>
     (observed_gen k = k_Generation k \<longrightarrow> key_good L (k_Spec k) (k_Status k))"

definition older :: "AccessKey \<Rightarrow> AccessKey \<Rightarrow> bool" where
  "older k k' \<longleftrightarrow> sint (k_Generation k) \<le> sint (k_Generation k') \<and>
     (k_Generation k = k_Generation k' \<longrightarrow> k_Spec k = k_Spec k')"

lemma reported_version:
  assumes L: "cond_laws L" and k0: "version_ok L k0" and old: "older k0 k"
    and run: "observed_gen k2 = observed_gen k0 \<and> observed_gen k0 \<noteq> k_Generation k0 \<or>
      observed_gen k2 = k_Generation k0 \<and> key_good L (k_Spec k0) (k_Status k2)"
  shows "version_ok L (k\<lparr>k_Status := k_Status k2\<rparr>)"
proof -
  have le: "sint (observed_gen k2) \<le> sint (k_Generation k0)"
    using run k0 by (auto simp: version_ok_def)
  have "key_good L (k_Spec k) (k_Status k2)" if "observed_gen k2 = k_Generation k"
  proof -
    from le that old have "sint (k_Generation k0) = sint (k_Generation k)" by (simp add: older_def)
    then have "k_Generation k0 = k_Generation k" by (rule signed_word_eqI)
    with run that old show ?thesis by (auto simp: older_def)
  qed
  with le old show ?thesis by (simp add: version_ok_def older_def observed_gen_def)
qed

text \<open>The status a run writes, from the object it worked on.\<close>

lemma run_reports:
  assumes L: "cond_laws L"
    and run: "run_state (AccessKeyReconciler_Reconcile L K R req) w = (out, w')"
    and ev: "new_events w w' = GetAccessKey req (Inr k0) # pre @ UpdateAccessKeyStatus k' r # post"
    and h: "k0 \<in> H" "\<And>p k1. PatchAccessKey p (Inr k1) \<in> set pre \<Longrightarrow> k1 \<in> H"
    and named: "keys_named pre" and ok: "\<And>k. k \<in> H \<Longrightarrow> version_ok L k"
  obtains k1 k2 where "k1 \<in> H" and "k_Status k' = k_Status k2"
    and "observed_gen k2 = observed_gen k1 \<and> observed_gen k1 \<noteq> k_Generation k1 \<or>
      observed_gen k2 = k_Generation k1 \<and> key_good L (k_Spec k1) (k_Status k2)"
  using Key_run [OF run ev]
proof (cases rule: key_runE)
  case (live k1 ps fs)
  let ?u = "UpdateAccessKeyStatus k' r"
  have "?u \<notin> set ps" using admitted_events [OF live(1)] by blast
  from split_after [OF live(2) [symmetric] this] obtain pre1
    where pre: "pre = ps @ pre1" and fs: "fs = pre1 @ ?u # post" .
  from live(3) obtain kw err es1 es2 where es: "fs = es1 @ es2"
    and work: "key_work L (InitializeConditions L k1) kw err es1"
    and kf: "key_finish L K req (k_Status k1) (key_reported L kw) err out es2"
    by (rule live_runE [OF L])
  have "?u \<notin> set es1" using key_work_steps [OF work] by (auto simp: list_all_iff)
  from split_after [OF es [symmetric, unfolded fs] this] obtain pre2
    where pre1: "pre1 = es1 @ pre2" and es2: "es2 = pre2 @ ?u # post" .
  from key_finish_events [OF kf, of ?u] es2 have st: "k_Status k' = k_Status (key_reported L kw)"
    by auto
  have k1: "k1 \<in> H"
    using live(1) h pre by (auto simp: admitted_def split: if_splits)
  from named pre pre1 have "keys_named es1" by simp
  from run_good [OF L work this] ok [OF k1] st k1 that [of k1 "key_reported L kw"] show ?thesis
    by (simp add: version_ok_def observed_gen_def)
next
  case finalize
  from finalize_events [OF finalize(3), of "UpdateAccessKeyStatus k' r"] show ?thesis by simp
next
  case idle
  then show ?thesis by auto
qed

lemma history_ok:
  assumes "key_history L K R h" and L: "cond_laws L"
  shows "h \<noteq> [] \<and> (\<forall>k \<in> set h. version_ok L k \<and> older k (hd h))"
  using assms(1)
proof induction
  case (created k)
  then show ?case by (auto simp: version_ok_def older_def)
next
  case (edited k h k')
  have old: "older k1 k'" if "older k1 k" for k1
    using that edited(3) by (auto simp: older_def)
  from edited.IH have "version_ok L k" by simp
  with edited(2,3) have "version_ok L k'" by (auto simp: version_ok_def observed_gen_def)
  with edited.IH old show ?case by (auto simp: older_def)
next
  case (reported k h req w out w' k0 pre st post)
  from reported.IH have ok: "\<And>k1. k1 \<in> set (k # h) \<Longrightarrow> version_ok L k1" by auto
  obtain k1 k2 where k1: "k1 \<in> set (k # h)" and st: "k_Status (k\<lparr>k_Status := st\<rparr>) = k_Status k2"
    and r: "observed_gen k2 = observed_gen k1 \<and> observed_gen k1 \<noteq> k_Generation k1 \<or>
      observed_gen k2 = k_Generation k1 \<and> key_good L (k_Spec k1) (k_Status k2)"
    by (rule run_reports [OF L reported(2,3), of "set (k # h)"]) (use reported ok in auto)
  from reported.IH k1 have "older k1 k" by auto
  from reported_version [OF L ok [OF k1] this r] st
  have "version_ok L (k\<lparr>k_Status := st\<rparr>)" by simp
  moreover have "older k3 (k\<lparr>k_Status := st\<rparr>) = older k3 k" for k3
    by (simp add: older_def)
  ultimately show ?case using reported.IH by (auto simp: older_def)
qed

text \<open>
  C11: an AccessKey that claims to be reconciled is: in every state the stored object can
  reach through edits of its spec and metadata and through runs of the reconciler, however
  they interleave and however stale the version a run read, a status whose observed
  generation is the generation of the stored object has the condition \<open>AccessKeyReady\<close> true
  and a key ID, and is either \<open>Ready\<close> with the secret name of the stored spec, or not \<open>Ready\<close>
  because that name is taken by a secret of another owner; and the observed generation never
  runs ahead.
\<close>

theorem access_key_settled_invariant:
  assumes L: "cond_laws L" and hist: "key_history L K R (k # h)"
  shows "sint (observed_gen k) \<le> sint (k_Generation k) \<and>
    (observed_gen k = k_Generation k \<longrightarrow>
       cond_stat L (k_Conditions k) AccessKeyReady = Some ConditionTrue \<and>
       kst_AccessKeyID (k_Status k) \<noteq> [] \<and>
       (cond_stat L (k_Conditions k) Ready = Some ConditionTrue \<and>
          kst_SecretName (k_Status k) = ks_SecretName (k_Spec k) \<or>
        cond_stat L (k_Conditions k) Ready = Some ConditionFalse \<and>
          (\<exists>m g. cond_view L (k_Conditions k) KeySecretReady =
             Some (ConditionFalse, ReasonSecretNameConflict, m, g))))"
proof -
  have ok: "version_ok L k" using history_ok [OF hist L] by simp
  show ?thesis
  proof (intro conjI [of "sint _ \<le> _"] impI)
    show "sint (observed_gen k) \<le> sint (k_Generation k)" using ok by (simp add: version_ok_def)
  next
    assume "observed_gen k = k_Generation k"
    with ok have good: "key_good L (k_Spec k) (k_Status k)" by (simp add: version_ok_def)
    then obtain r1 m1 g1 s2 r2 m2 g2 where v:
      "cond_view L (k_Conditions k) AccessKeyReady = Some (ConditionTrue, r1, m1, g1)"
      "cond_view L (k_Conditions k) KeySecretReady = Some (s2, r2, m2, g2)"
      "s2 = ConditionTrue \<and> kst_SecretName (k_Status k) = ks_SecretName (k_Spec k) \<or>
         s2 = ConditionFalse \<and> r2 = ReasonSecretNameConflict"
      by (rule key_good_views)
    have "cond_stat L (k_Conditions k) Ready = Some (fst (key_summary L (k_Conditions k)))"
      using good by (simp add: key_good_def cond_stat_view case_prod_beta)
    with key_summary_views [OF v(1,2)] v good
    show "cond_stat L (k_Conditions k) AccessKeyReady = Some ConditionTrue \<and>
       kst_AccessKeyID (k_Status k) \<noteq> [] \<and>
       (cond_stat L (k_Conditions k) Ready = Some ConditionTrue \<and>
          kst_SecretName (k_Status k) = ks_SecretName (k_Spec k) \<or>
        cond_stat L (k_Conditions k) Ready = Some ConditionFalse \<and>
          (\<exists>m g. cond_view L (k_Conditions k) KeySecretReady =
             Some (ConditionFalse, ReasonSecretNameConflict, m, g)))"
      by (auto simp: key_good_def cond_stat_view)
  qed
qed

text \<open>The example's run as two versions of the object.\<close>

definition ex_stored :: AccessKey where
  "ex_stored = ex_akey\<lparr>k_Status := k_Status ex_done\<rparr>"

lemma ex_history: "key_history plain_lib (key_kube ex_akey) ex_keys [ex_stored, ex_akey]"
proof -
  have one: "key_history plain_lib (key_kube ex_akey) ex_keys [ex_akey]"
    by (rule key_history.created) (simp_all add: observed_gen_def)
  show ?thesis
    unfolding ex_stored_def
    by (rule key_history.reported [OF one surjective_pairing
          ex_new_key_run [unfolded run_key_def run_events_def]])
      (simp_all add: ex_new_pre_def keys_named_def ex_no_secret_def ex_wrote_def)
qed

lemma ex_stored_gen: "observed_gen ex_stored = k_Generation ex_stored"
  by (simp add: observed_gen_def ex_stored_def)

theorem access_key_settled_invariant_witness:
  "cond_stat plain_lib (k_Conditions ex_stored) AccessKeyReady = Some ConditionTrue \<and>
   kst_AccessKeyID (k_Status ex_stored) \<noteq> []"
  using access_key_settled_invariant [OF plain_lib_cond_laws ex_history] ex_stored_gen by blast

section \<open>Quiet\<close>

lemma set_view_idle:
  assumes L: "cond_laws L" and v: "cond_view L cs (c_Type c) = Some (view_of c)"
  shows "SetStatusCondition L cs c = cs"
proof -
  from v obtain d where d: "FindStatusCondition L cs (c_Type c) = Some d" "view_of d = view_of c"
    by (auto simp: cond_view_def)
  from L d(1) have "c_Type d = c_Type c" unfolding cond_laws_def by blast
  with d show ?thesis by (intro set_same_idle [OF L d(1)]) (simp add: same_condition_def view_of_def)
qed

lemma good_is_fixed:
  assumes L: "cond_laws L" and good: "key_good L spec (k_Status k)" and gen: "observed_gen k = k_Generation k"
  shows "InitializeConditions L k = k" and "key_reported L k = k"
proof -
  from good obtain r1 m1 g1 s2 r2 m2 g2 where v:
    "cond_view L (k_Conditions k) AccessKeyReady = Some (ConditionTrue, r1, m1, g1)"
    "cond_view L (k_Conditions k) KeySecretReady = Some (s2, r2, m2, g2)"
    by (rule key_good_views)
  have rdy: "cond_view L (k_Conditions k) Ready = (case key_summary L (k_Conditions k) of
      (s, r, m) \<Rightarrow> Some (s, r, m, k_Generation k))"
    using good gen by (simp add: key_good_def observed_gen_def)
  have "initResourceConditions L [Ready, AccessKeyReady, KeySecretReady] (k_Conditions k) = k_Conditions k"
    by (rule init_idle) (use v rdy in \<open>auto simp: find_None_view split: prod.splits\<close>)
  then show "InitializeConditions L k = k"
    by (simp add: InitializeConditions_def k_set_conditions_def)
  obtain s r m where kv: "key_summary L (k_Conditions k) = (s, r, m)" by (cases "key_summary L (k_Conditions k)")
  with rdy have "SetStatusCondition L (k_Conditions k) (mk_condition Ready s r m (k_Generation k)) = k_Conditions k"
    by (intro set_view_idle [OF L]) simp
  with kv gen show "key_reported L k = k"
    by (simp add: key_reported_def set_ready_access_key_def Let_def k_set_conditions_def observed_gen_def)
qed

text \<open>
  C26: the loop comes to rest: once a stored AccessKey has its generation observed, a run that
  reads it makes no call at all after that read (none to Garage, no write, no event), returns
  no error and asks for no repetition, so the reconciler does not wake itself up.
\<close>

theorem access_key_quiet:
  assumes L: "cond_laws L" and K: "status_eq_laws K"
    and hist: "key_history L K' R' (k # h)" and gen: "observed_gen k = k_Generation k"
    and live: "m_DeletionTimestamp (k_Meta k) = None" "ContainsFinalizer L (k_Meta k) finalizerName"
    and run: "run_state (AccessKeyReconciler_Reconcile L K R req) w = (out, w')"
    and ev: "new_events w w' = GetAccessKey req (Inr k) # es"
  shows "es = [] \<and> out = Returned no_requeue None"
proof -
  have good: "key_good L (k_Spec k) (k_Status k)"
    using history_ok [OF hist L] gen by (simp add: version_ok_def)
  note fixed = good_is_fixed [OF L good gen]
  have settled: "keySettled L (InitializeConditions L k) = Some True"
    by (rule key_good_settled [OF L good]) (use gen in \<open>simp add: observed_gen_def\<close>)
  from Key_run [OF run ev] live have "live_key_run L K req k out es" by (simp add: key_run_def)
  then obtain k1 err es1 es2 where es: "es = es1 @ es2"
    and work: "key_work L (InitializeConditions L k) k1 err es1"
    and kf: "key_finish L K req (k_Status k) (key_reported L k1) err out es2"
    by (rule live_runE [OF L])
  from work settled have "k1 = k" "err = None" "es1 = []" by (auto simp: key_work_def fixed(1))
  with kf K es fixed(2) show ?thesis by (auto simp: key_finish_def status_eq_laws_def)
qed

theorem access_key_quiet_witness:
  "run_events (AccessKeyReconciler_Reconcile plain_lib (key_kube ex_stored) ex_keys ex_req)
     empty_world = [GetAccessKey ex_req (Inr ex_stored)]"
proof -
  have live: "m_DeletionTimestamp (k_Meta ex_stored) = None"
    "ContainsFinalizer plain_lib (k_Meta ex_stored) finalizerName"
    by (simp_all add: ex_stored_def)
  have ev: "run_events (AccessKeyReconciler_Reconcile plain_lib (key_kube ex_stored) ex_keys ex_req)
      empty_world = GetAccessKey ex_req (Inr ex_stored) # tl (run_events
        (AccessKeyReconciler_Reconcile plain_lib (key_kube ex_stored) ex_keys ex_req) empty_world)"
    by (rule Key_reads [OF _ live]) simp
  have "tl (run_events (AccessKeyReconciler_Reconcile plain_lib (key_kube ex_stored) ex_keys ex_req)
      empty_world) = []"
    using access_key_quiet [OF plain_lib_cond_laws key_kube_status_eq ex_history ex_stored_gen live
        surjective_pairing ev [unfolded run_events_def]]
    by (simp add: run_events_def)
  with ev show ?thesis by simp
qed

end
