(* ===== verification/Simulation.thy ===== *)
theory Simulation
  imports Prelude
begin

text \<open>
  Refinement of a transition system by the controllers' computations.

  An abstract system has states of type \<open>'t\<close> and a relation \<open>R e t t'\<close>: the effect an event
  \<open>e\<close> of the log may have.  \<open>tracks view R m\<close> says that a computation \<open>m\<close> implements it:
  under the abstraction \<open>view\<close> of the outside state, whatever \<open>m\<close> does is a path of the
  abstract system labelled with exactly the events \<open>m\<close> logs.  The rules in
  \<open>tracks_intros\<close> reduce this to the single calls.
\<close>

named_theorems tracks_intros "rules for what a computation does to an abstract state"

fun path :: "('e \<Rightarrow> 't \<Rightarrow> 't \<Rightarrow> bool) \<Rightarrow> 'e list \<Rightarrow> 't \<Rightarrow> 't \<Rightarrow> bool" where
  "path R [] t t' = (t' = t)"
| "path R (e # es) t t'' = (\<exists>t'. R e t t' \<and> path R es t' t'')"

lemma path_append:
  "path R (es @ fs) t t'' \<longleftrightarrow> (\<exists>t'. path R es t t' \<and> path R fs t' t'')"
  by (induction es arbitrary: t) auto

lemma path_single [simp]: "path R [e] t t' \<longleftrightarrow> R e t t'"
  by simp

text \<open>A path preserves what its steps preserve.\<close>

lemma path_invariant:
  assumes "path R es t t'" and "I t" and "\<And>e t t'. e \<in> set es \<Longrightarrow> R e t t' \<Longrightarrow> I t \<Longrightarrow> I t'"
  shows "I t'"
  using assms by (induction es arbitrary: t) auto

text \<open>Steps that all narrow a state narrow it together.\<close>

lemma path_order:
  assumes "path R es t t'" and "\<And>t. le t t" and "\<And>t u v. le t u \<Longrightarrow> le u v \<Longrightarrow> le t v"
    and "\<And>e t t'. e \<in> set es \<Longrightarrow> R e t t' \<Longrightarrow> le t' t"
  shows "le t' t"
  by (rule path_invariant [OF assms(1)]) (blast intro: assms(2-4))+

lemma path_idle:
  assumes "path R es t t'" and "\<And>e t t'. e \<in> set es \<Longrightarrow> R e t t' \<Longrightarrow> t' = t"
  shows "t' = t"
  by (rule path_order [OF assms(1)]) (auto dest: assms(2))

definition tracks ::
  "('s \<Rightarrow> 't) \<Rightarrow> ('e \<Rightarrow> 't \<Rightarrow> 't \<Rightarrow> bool) \<Rightarrow> (('s, 'e) world, 'a) state \<Rightarrow> bool" where
  "tracks view R m \<longleftrightarrow>
     (\<forall>w. wp m (\<lambda>a w'. \<exists>es. log w' = log w @ es \<and> path R es (view (ext w)) (view (ext w'))) w)"

lemma tracks_return [tracks_intros]: "tracks view R (State_Monad.return x)"
  by (simp add: tracks_def wp_simps)

lemma tracks_bind [tracks_intros]:
  assumes "tracks view R (m :: (('s, 'e) world, 'a) state)" and "\<And>a. tracks view R (f a)"
  shows "tracks view R (State_Monad.bind m f)"
  unfolding tracks_def wp_bind
proof
  fix w
  let ?m = "\<lambda>w w'. \<exists>es. log w' = log w @ es \<and> path R es (view (ext w)) (view (ext w'))"
  show "wp m (\<lambda>a. wp (f a) (\<lambda>b. ?m w)) w"
  proof (rule wp_mono)
    show "wp m (\<lambda>a. ?m w) w" using assms(1) by (simp add: tracks_def)
  next
    fix a and w' :: "('s, 'e) world"
    assume "?m w w'"
    then obtain es where es: "log w' = log w @ es" "path R es (view (ext w)) (view (ext w'))"
      by blast
    have "wp (f a) (\<lambda>b. ?m w') w'" using assms(2) by (simp add: tracks_def)
    then show "wp (f a) (\<lambda>b. ?m w) w'"
    proof (rule wp_mono)
      fix b and v :: "('s, 'e) world"
      assume "?m w' v"
      then obtain fs where "log v = log w' @ fs" "path R fs (view (ext w')) (view (ext v))"
        by blast
      with es show "?m w v" by (intro exI [of _ "es @ fs"]) (auto simp: path_append)
    qed
  qed
qed

lemma tracks_call [tracks_intros]:
  "(\<And>s r s'. f s = (r, s') \<Longrightarrow> R (ev r) (view s) (view s')) \<Longrightarrow> tracks view R (call f ev)"
  by (simp add: tracks_def wp_simps)

lemma tracks_emit [tracks_intros]: "(\<And>t. R ev t t) \<Longrightarrow> tracks view R (emit ev)"
  by (simp add: tracks_def wp_simps)

lemma tracks_observe [tracks_intros]:
  "(\<And>s r s'. f s = (r, s') \<Longrightarrow> view s' = view s) \<Longrightarrow> tracks view R (observe f)"
  by (simp add: tracks_def wp_simps)

lemma tracks_if [tracks_intros]:
  "(c \<Longrightarrow> tracks view R m) \<Longrightarrow> (\<not> c \<Longrightarrow> tracks view R n) \<Longrightarrow> tracks view R (if c then m else n)"
  by simp

lemma tracks_case_sum [tracks_intros]:
  "(\<And>e. tracks view R (f e)) \<Longrightarrow> (\<And>v. tracks view R (g v)) \<Longrightarrow>
     tracks view R (case x of Inl e \<Rightarrow> f e | Inr v \<Rightarrow> g v)"
  by (cases x) auto

lemma tracks_case_option [tracks_intros]:
  "tracks view R f \<Longrightarrow> (\<And>v. tracks view R (g v)) \<Longrightarrow>
     tracks view R (case x of None \<Rightarrow> f | Some v \<Rightarrow> g v)"
  by (cases x) auto

lemma tracks_case_prod [tracks_intros]:
  "(\<And>a b. tracks view R (f a b)) \<Longrightarrow> tracks view R (case x of (a, b) \<Rightarrow> f a b)"
  by (cases x) auto

lemma tracks_run:
  assumes "tracks view R m" and "run_state m w = (a, w')"
  shows "path R (new_events w w') (view (ext w)) (view (ext w'))"
proof -
  from assms obtain es where "log w' = log w @ es" "path R es (view (ext w)) (view (ext w'))"
    by (auto simp: tracks_def dest: wp_run)
  then show ?thesis by (simp add: new_events_append)
qed

end
