(* ===== verification/AccessPolicyController.thy ===== *)
theory AccessPolicyController
  imports KubeClient Conditions
begin

text \<open>
  The AccessPolicy reconciler (\<^verbatim>\<open>internal/controller/accesspolicy_controller.go\<close>), function by
  function.
\<close>

definition accesskeyLabel :: string where
  "accesskeyLabel = ''garage.getclustered.net/accesskey-name''"
definition bucketLabel :: string where
  "bucketLabel = ''garage.getclustered.net/bucket-name''"

record 's AccessPolicyReconciler =
  admin_SetPermissions :: "string \<Rightarrow> string \<Rightarrow> s3_permissions \<Rightarrow> 's \<Rightarrow> error option \<times> 's"

definition NewAccessPolicyReconciler ::
  "(string \<Rightarrow> string \<Rightarrow> s3_permissions \<Rightarrow> 's \<Rightarrow> error option \<times> 's) \<Rightarrow>
     's AccessPolicyReconciler" where
  "NewAccessPolicyReconciler setPermissions = \<lparr>admin_SetPermissions = setPermissions\<rparr>"

definition setPermissions ::
  "'s AccessPolicyReconciler \<Rightarrow> string \<Rightarrow> string \<Rightarrow> s3_permissions \<Rightarrow>
     ('s cworld, error option) state" where
  "setPermissions R keyID bucketID p =
     call (admin_SetPermissions R keyID bucketID p) (PermissionsSet keyID bucketID p)"

section \<open>Labels and watches\<close>

definition ensureLabels :: "AccessPolicy \<Rightarrow> AccessPolicy \<times> bool" where
  "ensureLabels a =
     (let labels = (case m_Labels (a_Meta a) of None \<Rightarrow> Map.empty | Some ls \<Rightarrow> ls);
          (labels, changed) =
            (if map_get labels accesskeyLabel \<noteq> ps_AccessKey (a_Spec a)
             then (labels(accesskeyLabel \<mapsto> ps_AccessKey (a_Spec a)), True) else (labels, False));
          (labels, changed) =
            (if map_get labels bucketLabel \<noteq> ps_Bucket (a_Spec a)
             then (labels(bucketLabel \<mapsto> ps_Bucket (a_Spec a)), True) else (labels, changed))
      in (a\<lparr>a_Meta := (a_Meta a)\<lparr>m_Labels := Some labels\<rparr>\<rparr>, changed))"

definition policyRequests :: "error + AccessPolicy list \<Rightarrow> nsname list" where
  "policyRequests r = (case r of
     Inl err \<Rightarrow> []
   | Inr items \<Rightarrow> map (\<lambda>p. (m_Namespace (a_Meta p), m_Name (a_Meta p))) items)"

definition findPoliciesForAccessKey ::
  "'s kube \<Rightarrow> AccessKey \<Rightarrow> ('s cworld, nsname list) state" where
  "findPoliciesForAccessKey K k = do {
     let ns = m_Namespace (k_Meta k);
     let sel = (accesskeyLabel, m_Name (k_Meta k));
     r \<leftarrow> call (kListAccessPolicies K ns sel) (ListAccessPolicies ns sel);
     State_Monad.return (policyRequests r)
   }"

definition findPoliciesForBucket ::
  "'s kube \<Rightarrow> Bucket \<Rightarrow> ('s cworld, nsname list) state" where
  "findPoliciesForBucket K b = do {
     let ns = m_Namespace (b_Meta b);
     let sel = (bucketLabel, m_Name (b_Meta b));
     r \<leftarrow> call (kListAccessPolicies K ns sel) (ListAccessPolicies ns sel);
     State_Monad.return (policyRequests r)
   }"

text \<open>\<open>For(&AccessPolicy{})\<close> and the two \<open>Watches\<close>: a policy is asked for by its own changes
  and by those of the keys and buckets it is labelled with.\<close>

definition AccessPolicyReconciler_SetupWithManager ::
  "'s kube \<Rightarrow> object_change \<Rightarrow> ('s cworld, nsname list) state" where
  "AccessPolicyReconciler_SetupWithManager K ch = (case ch of
     AccessPolicyChanged a \<Rightarrow> State_Monad.return [own_request (a_Meta a)]
   | AccessKeyChanged k \<Rightarrow> findPoliciesForAccessKey K k
   | BucketChanged b \<Rightarrow> findPoliciesForBucket K b)"

section \<open>The two dependencies\<close>

definition ready_cond :: "condition option \<Rightarrow> bool" where
  "ready_cond c = (case c of None \<Rightarrow> False | Some c \<Rightarrow> c_Status c = ConditionTrue)"

definition cond_message :: "string \<Rightarrow> condition option \<Rightarrow> string" where
  "cond_message d c = (case c of None \<Rightarrow> d | Some c \<Rightarrow> c_Message c)"

definition checkBucket ::
  "lib \<Rightarrow> 's kube \<Rightarrow> AccessPolicy \<Rightarrow> ('s cworld, AccessPolicy \<times> (error + Bucket)) state" where
  "checkBucket L K a = do {
     let name = (m_Namespace (a_Meta a), ps_Bucket (a_Spec a));
     r \<leftarrow> call (kGetBucket K name) (GetBucket name);
     State_Monad.return (case r of
       Inl err \<Rightarrow>
         if IsNotFound L err
         then (markPolicyConditionNotReady L a PolicyBucketReady ReasonBucketMissing
                 (''Bucket not found in namespace: '' @ errmsg err),
               Inl (wrap (''retrieve bucket '' @ ps_Bucket (a_Spec a) @ '': '') err))
         else (a, Inl (wrap ''unexpected error getting bucket: '' err))
     | Inr bucket \<Rightarrow>
         (let a = a\<lparr>a_Status := (a_Status a)\<lparr>pst_BucketID := bst_BucketID (b_Status bucket)\<rparr>\<rparr>;
              bucketCond = FindStatusCondition L (b_Conditions bucket) Ready
          in if \<not> ready_cond bucketCond
             then (markPolicyConditionNotReady L a PolicyBucketReady ReasonDependenciesNotReady
                     (cond_message ''Bucket condition not met'' bucketCond),
                   Inl (wrap ''bucket not ready: '' (Sentinel errDependencyNotReady)))
             else (markPolicyBucketReady L a, Inr bucket)))
   }"

definition checkAccessKey ::
  "lib \<Rightarrow> 's kube \<Rightarrow> AccessPolicy \<Rightarrow> ('s cworld, AccessPolicy \<times> (error + AccessKey)) state" where
  "checkAccessKey L K a = do {
     let name = (m_Namespace (a_Meta a), ps_AccessKey (a_Spec a));
     r \<leftarrow> call (kGetAccessKey K name) (GetAccessKey name);
     State_Monad.return (case r of
       Inl err \<Rightarrow>
         if IsNotFound L err
         then (markPolicyConditionNotReady L a PolicyAccessKeyReady ReasonAccessKeyMissing
                 (''Access key not found in namespace: '' @ errmsg err),
               Inl (wrap (''retrieve access key '' @ ps_AccessKey (a_Spec a) @ '': '') err))
         else (a, Inl (wrap ''unexpected error gettig access key: '' err))
     | Inr accessKey \<Rightarrow>
         (let a = a\<lparr>a_Status := (a_Status a)
                      \<lparr>pst_AccessKeyID := kst_AccessKeyID (k_Status accessKey)\<rparr>\<rparr>;
              accessKeyCond = FindStatusCondition L (k_Conditions accessKey) Ready
          in if \<not> ready_cond accessKeyCond
             then (markPolicyConditionNotReady L a PolicyAccessKeyReady ReasonDependenciesNotReady
                     (cond_message ''AccessKey condition not met'' accessKeyCond),
                   Inl (wrap ''access key not ready: '' (Sentinel errDependencyNotReady)))
             else (markPolicyKeyReady L a, Inr accessKey)))
   }"

section \<open>Reconciling\<close>

definition spec_permissions :: "AccessPolicySpec \<Rightarrow> s3_permissions" where
  "spec_permissions s =
     \<lparr>p_Owner = perm_Owner (ps_Permissions s), p_Read = perm_Read (ps_Permissions s),
      p_Write = perm_Write (ps_Permissions s)\<rparr>"

text \<open>The steps of \<open>reconcilePolicy\<close>: each dependency, with the revocation when it is gone.\<close>

definition resolveBucket ::
  "lib \<Rightarrow> 's kube \<Rightarrow> 's AccessPolicyReconciler \<Rightarrow> AccessPolicy \<Rightarrow>
     ('s cworld, AccessPolicy \<times> (error + Bucket)) state" where
  "resolveBucket L K R a = do {
     (a, r) \<leftarrow> checkBucket L K a;
     (case r of
        Inl err \<Rightarrow>
          if IsNotFound L err \<and> pst_BucketID (a_Status a) \<noteq> [] then do {
            _ \<leftarrow> setPermissions R (pst_AccessKeyID (a_Status a)) (pst_BucketID (a_Status a))
                   no_permissions;
            State_Monad.return
              (a\<lparr>a_Status := (a_Status a)\<lparr>pst_BucketID := []\<rparr>\<rparr>, Inl err)
          }
          else State_Monad.return (a, Inl err)
      | Inr bucket \<Rightarrow> State_Monad.return (a, Inr bucket))
   }"

definition resolveAccessKey ::
  "lib \<Rightarrow> 's kube \<Rightarrow> 's AccessPolicyReconciler \<Rightarrow> AccessPolicy \<Rightarrow>
     ('s cworld, AccessPolicy \<times> (error + AccessKey)) state" where
  "resolveAccessKey L K R a = do {
     (a, r) \<leftarrow> checkAccessKey L K a;
     (case r of
        Inl err \<Rightarrow>
          if IsNotFound L err \<and> pst_AccessKeyID (a_Status a) \<noteq> [] then do {
            _ \<leftarrow> setPermissions R (pst_AccessKeyID (a_Status a)) (pst_BucketID (a_Status a))
                   no_permissions;
            State_Monad.return
              (a\<lparr>a_Status := (a_Status a)\<lparr>pst_AccessKeyID := []\<rparr>\<rparr>, Inl err)
          }
          else State_Monad.return (a, Inl err)
      | Inr key \<Rightarrow> State_Monad.return (a, Inr key))
   }"

definition assignPermissions ::
  "lib \<Rightarrow> 's AccessPolicyReconciler \<Rightarrow> AccessPolicy \<Rightarrow> AccessKey \<Rightarrow> Bucket \<Rightarrow>
     ('s cworld, AccessPolicy \<times> error option) state" where
  "assignPermissions L R a accessKey bucket = do {
     err \<leftarrow> setPermissions R (kst_AccessKeyID (k_Status accessKey)) (bst_BucketID (b_Status bucket))
              (spec_permissions (a_Spec a));
     (case err of
        Some e \<Rightarrow> do {
          _ \<leftarrow> emit (Eventf EventTypeWarning ReasonPolicyAssignmentFailed
                 (''Failed to apply access policy to Garage: '' @ errmsg e));
          State_Monad.return
            (markPolicyConditionNotReady L a PolicyAssignmentReady ReasonPolicyAssignmentFailed
               (''Failed to apply access policy to Garage: '' @ errmsg e),
             Some (wrap ''applying access policy: '' e))
        }
      | None \<Rightarrow> State_Monad.return (markPolicyAssignmentReady L a, None))
   }"

definition reconcilePolicy ::
  "lib \<Rightarrow> 's kube \<Rightarrow> 's AccessPolicyReconciler \<Rightarrow> AccessPolicy \<Rightarrow>
     ('s cworld, AccessPolicy \<times> error option) state" where
  "reconcilePolicy L K R a = do {
     (a, rb) \<leftarrow> resolveBucket L K R a;
     (a, rk) \<leftarrow> resolveAccessKey L K R a;
     (case (rb, rk) of
        (Inr bucket, Inr accessKey) \<Rightarrow> assignPermissions L R a accessKey bucket
      | (Inl e, Inr accessKey) \<Rightarrow> State_Monad.return (a, Some (Joined [e]))
      | (Inr bucket, Inl e') \<Rightarrow> State_Monad.return (a, Some (Joined [e']))
      | (Inl e, Inl e') \<Rightarrow> State_Monad.return (a, Some (Joined [e, e'])))
   }"

definition policyResult :: "lib \<Rightarrow> error option \<Rightarrow> ctrl_result \<times> error option" where
  "policyResult L err = (case err of
     None \<Rightarrow> (no_requeue, None)
   | Some e \<Rightarrow>
       if IsNotFound L e then (\<lparr>RequeueAfter = 15 * 1000000000\<rparr>, None)
       else if errors_Is e errDependencyNotReady then (\<lparr>RequeueAfter = 10 * 1000000000\<rparr>, None)
       else (no_requeue, Some e))"

definition finishPolicy ::
  "lib \<Rightarrow> 's kube \<Rightarrow> AccessPolicyStatus \<Rightarrow> AccessPolicy \<Rightarrow> error option \<Rightarrow>
     ('s cworld, outcome) state" where
  "finishPolicy L K oldStatus a err =
     (case policyResult L err of (result, resultErr) \<Rightarrow>
        if \<not> AccessPolicyStatusEqual K oldStatus (a_Status a) then do {
          patchErr \<leftarrow> call (kPatchAccessPolicyStatus K a) (PatchAccessPolicyStatus a);
          State_Monad.return (case patchErr of
            Some e \<Rightarrow>
              if IsConflict L e then Returned no_requeue None
              else if resultErr = None then Returned no_requeue (Some e)
              else Returned result resultErr
          | None \<Rightarrow> Returned result resultErr)
        }
        else State_Monad.return (Returned result resultErr))"

definition reconcileLivePolicy ::
  "lib \<Rightarrow> 's kube \<Rightarrow> 's AccessPolicyReconciler \<Rightarrow> AccessPolicy \<Rightarrow> ('s cworld, outcome) state" where
  "reconcileLivePolicy L K R a = do {
     (a', err) \<leftarrow> reconcilePolicy L K R (initializePolicyConditions L a);
     (case updateAccessPolicyCondition L a' of
        None \<Rightarrow> State_Monad.return Panicked
      | Some a'' \<Rightarrow> finishPolicy L K (a_Status a) a'' err)
   }"

definition saveMeta ::
  "lib \<Rightarrow> 's kube \<Rightarrow> AccessPolicy \<Rightarrow> ('s cworld, outcome) state" where
  "saveMeta L K a = do {
     err \<leftarrow> call (kUpdateAccessPolicy K a) (UpdateAccessPolicy a);
     State_Monad.return (case err of
       Some e \<Rightarrow>
         if IsConflict L e then Returned no_requeue None
         else Returned no_requeue (Some (wrap ''updating object meta: '' e))
     | None \<Rightarrow> Returned no_requeue None)
   }"

definition releasePolicy ::
  "lib \<Rightarrow> 's kube \<Rightarrow> AccessPolicy \<Rightarrow> ('s cworld, outcome) state" where
  "releasePolicy L K a = do {
     let a = a\<lparr>a_Meta := RemoveFinalizer L (a_Meta a) finalizerName\<rparr>;
     err \<leftarrow> call (kUpdateAccessPolicy K a) (UpdateAccessPolicy a);
     State_Monad.return (Returned no_requeue err)
   }"

definition finalizePolicy ::
  "lib \<Rightarrow> 's kube \<Rightarrow> 's AccessPolicyReconciler \<Rightarrow> AccessPolicy \<Rightarrow> ('s cworld, outcome) state" where
  "finalizePolicy L K R a =
     (if pst_AccessKeyID (a_Status a) \<noteq> [] \<and> pst_BucketID (a_Status a) \<noteq> [] then do {
        err \<leftarrow> setPermissions R (pst_AccessKeyID (a_Status a)) (pst_BucketID (a_Status a))
                 no_permissions;
        (case err of
           Some e \<Rightarrow>
             if errors_Is e ErrResourceNotFound then releasePolicy L K a
             else State_Monad.return (Returned no_requeue (Some e))
         | None \<Rightarrow> releasePolicy L K a)
      }
      else releasePolicy L K a)"

definition AccessPolicyReconciler_Reconcile ::
  "lib \<Rightarrow> 's kube \<Rightarrow> 's AccessPolicyReconciler \<Rightarrow> nsname \<Rightarrow> ('s cworld, outcome) state" where
  "AccessPolicyReconciler_Reconcile L K R req = do {
     r \<leftarrow> call (kGetAccessPolicy K req) (GetAccessPolicy req);
     (case r of
        Inl err \<Rightarrow> State_Monad.return
          (if IsNotFound L err then Returned no_requeue None else Returned no_requeue (Some err))
      | Inr policy \<Rightarrow> do {
          let (a, labelsChanged) = ensureLabels policy;
          (if m_DeletionTimestamp (a_Meta a) = None then
             (if \<not> ContainsFinalizer L (a_Meta a) finalizerName
              then saveMeta L K (a\<lparr>a_Meta := AddFinalizer L (a_Meta a) finalizerName\<rparr>)
              else if labelsChanged then saveMeta L K a
              else reconcileLivePolicy L K R a)
           else if \<not> ContainsFinalizer L (a_Meta a) finalizerName
           then State_Monad.return (Returned no_requeue None)
           else finalizePolicy L K R a)
        })
   }"

end
