(* ===== verification/Wiring.thy ===== *)
theory Wiring
  imports Simulation GarageSpec BucketController AccessKeyController AccessPolicyController
begin

text \<open>
  The controllers as \<^verbatim>\<open>cmd/main.go\<close> wires them: all three share one cluster, and all three
  talk to Garage through the operations of one client.  The outside state is a pair: the
  cluster, and the world of the Garage client (the server behind the transport, with the log
  of the client's exchanges).  A call to the one leaves the other alone.

  The interfaces of the controllers are then implemented by the client, and the controllers
  refine an abstract service: a permission table and a sequence of writes, which a call of
  the controllers' log changes as \<open>service_step\<close> says.
\<close>

section \<open>Two services side by side\<close>

definition on_cluster :: "('k \<Rightarrow> 'a \<times> 'k) \<Rightarrow> 'k \<times> 'g \<Rightarrow> 'a \<times> 'k \<times> 'g" where
  "on_cluster f s = (case f (fst s) of (r, k) \<Rightarrow> (r, k, snd s))"

definition on_garage :: "('g, 'a) state \<Rightarrow> 'k \<times> 'g \<Rightarrow> 'a \<times> 'k \<times> 'g" where
  "on_garage m s = (case run_state m (snd s) of (r, g) \<Rightarrow> (r, fst s, g))"

definition shared_kube :: "'k kube \<Rightarrow> ('k \<times> 'g) kube" where
  "shared_kube K =
     \<lparr>kGetBucket = \<lambda>n. on_cluster (kGetBucket K n),
      kGetAccessKey = \<lambda>n. on_cluster (kGetAccessKey K n),
      kGetAccessPolicy = \<lambda>n. on_cluster (kGetAccessPolicy K n),
      kGetSecret = \<lambda>n. on_cluster (kGetSecret K n),
      kPatchBucketStatus = \<lambda>b. on_cluster (kPatchBucketStatus K b),
      kPatchAccessKey = \<lambda>k x. on_cluster (kPatchAccessKey K k x),
      kUpdateAccessKey = \<lambda>k. on_cluster (kUpdateAccessKey K k),
      kUpdateAccessKeyStatus = \<lambda>k. on_cluster (kUpdateAccessKeyStatus K k),
      kUpdateAccessPolicy = \<lambda>a. on_cluster (kUpdateAccessPolicy K a),
      kPatchAccessPolicyStatus = \<lambda>a. on_cluster (kPatchAccessPolicyStatus K a),
      kCreateOrUpdateConfigMap = \<lambda>x f. on_cluster (kCreateOrUpdateConfigMap K x f),
      kCreateOrUpdateSecret = \<lambda>x f. on_cluster (kCreateOrUpdateSecret K x f),
      kListConfigMaps = \<lambda>ns sel. on_cluster (kListConfigMaps K ns sel),
      kListAccessPolicies = \<lambda>ns sel. on_cluster (kListAccessPolicies K ns sel),
      kDeleteConfigMap = \<lambda>x. on_cluster (kDeleteConfigMap K x),
      kDeleteSecret = \<lambda>x. on_cluster (kDeleteSecret K x),
      clockSince = \<lambda>t. on_cluster (clockSince K t),
      BucketStatusEqual = BucketStatusEqual K, AccessKeyStatusEqual = AccessKeyStatusEqual K,
      AccessPolicyStatusEqual = AccessPolicyStatusEqual K\<rparr>"

lemma on_cluster_garage: "on_cluster f s = (r, s') \<Longrightarrow> snd s' = snd s"
  by (auto simp: on_cluster_def split: prod.splits)

lemma on_garage_run: "on_garage m s = (r, s') \<Longrightarrow> run_state m (snd s) = (r, snd s')"
  by (auto simp: on_garage_def split: prod.splits)

section \<open>The reconcilers on the client\<close>

definition garage_bucket_reconciler ::
  "'s transport \<Rightarrow> adminAPIHttpClient \<Rightarrow> string \<Rightarrow> ('k \<times> 's gworld) BucketReconciler" where
  "garage_bucket_reconciler T c endpoint =
     NewBucketReconciler (\<lambda>a. on_garage (BucketClient_Create T c a))
       (\<lambda>a. on_garage (BucketClient_Get T c a)) (\<lambda>i q. on_garage (BucketClient_Update T c i q))
       endpoint (\<lambda>k b. on_garage (GetPermissions T c k b))"

definition garage_key_reconciler ::
  "'s transport \<Rightarrow> adminAPIHttpClient \<Rightarrow> ('k \<times> 's gworld) AccessKeyReconciler" where
  "garage_key_reconciler T c =
     NewAccessKeyReconciler (\<lambda>n. on_garage (AccessKeyClient_Create T c n))
       (\<lambda>i. on_garage (AccessKeyClient_Get T c i)) (\<lambda>n. on_garage (AccessKeyClient_Lookup T c n))
       (\<lambda>i. on_garage (AccessKeyClient_Delete T c i))"

definition garage_policy_reconciler ::
  "'s transport \<Rightarrow> adminAPIHttpClient \<Rightarrow> ('k \<times> 's gworld) AccessPolicyReconciler" where
  "garage_policy_reconciler T c =
     NewAccessPolicyReconciler (\<lambda>k b p. on_garage (SetPermissions T c k b p))"

section \<open>The abstract service\<close>

type_synonym service = "perm_table \<times> garage_write list"

definition set_effect ::
  "string \<Rightarrow> string \<Rightarrow> s3_permissions \<Rightarrow> error option \<Rightarrow> perm_table \<Rightarrow> perm_table \<Rightarrow> bool" where
  "set_effect k b p r t t' \<longleftrightarrow>
     (case r of
        None \<Rightarrow> t' = set_entry t k b p
      | Some e \<Rightarrow> \<exists>q. t' = set_entry t k b q \<and> (q \<le> t k b \<or> q = p))"

definition set_writes :: "string \<Rightarrow> string \<Rightarrow> s3_permissions \<Rightarrow> garage_write list set" where
  "set_writes k b p = {[WDeny k b (perm_not p)], [WDeny k b (perm_not p), WAllow k b p]}"

fun service_step :: "ctrl_event \<Rightarrow> service \<Rightarrow> service \<Rightarrow> bool" where
  "service_step (BucketCreate a r) s s' = (s' = (fst s, snd s @ [WCreateBucket a]))"
| "service_step (BucketUpdate i q r) s s' =
     (s' = (fst s, snd s @ [WUpdateBucket i (quotasToS3 (quotasFromS3 q))]))"
| "service_step (KeyCreate n r) s s' = (s' = (fst s, snd s @ [WCreateKey n]))"
| "service_step (KeyDelete i r) s s' = (s' = (fst s, snd s @ [WDeleteKey i]))"
| "service_step (PermissionsSet k b p r) s s' =
     (set_effect k b p r (fst s) (fst s') \<and> (\<exists>x \<in> set_writes k b p. snd s' = snd s @ x))"
| "service_step e s s' = (s' = s)"

definition service_of :: "('s \<Rightarrow> perm_table) \<Rightarrow> ('s \<Rightarrow> garage_write list) \<Rightarrow> 's \<Rightarrow> service" where
  "service_of granted writes s = (granted s, writes s)"

text \<open>Each controller makes only calls of its own kind.\<close>

fun bucket_duty :: "ctrl_event \<Rightarrow> bool" where
  "bucket_duty (KeyCreate n r) = False"
| "bucket_duty (KeyDelete i r) = False"
| "bucket_duty (PermissionsSet k b p r) = False"
| "bucket_duty e = True"

fun key_duty :: "ctrl_event \<Rightarrow> bool" where
  "key_duty (BucketCreate a r) = False"
| "key_duty (BucketUpdate i q r) = False"
| "key_duty (PermissionsSet k b p r) = False"
| "key_duty e = True"

fun policy_duty :: "ctrl_event \<Rightarrow> bool" where
  "policy_duty (BucketCreate a r) = False"
| "policy_duty (BucketUpdate i q r) = False"
| "policy_duty (KeyCreate n r) = False"
| "policy_duty (KeyDelete i r) = False"
| "policy_duty e = True"

definition service_duty :: "(ctrl_event \<Rightarrow> bool) \<Rightarrow> ctrl_event \<Rightarrow> service \<Rightarrow> service \<Rightarrow> bool" where
  "service_duty d e s s' \<longleftrightarrow> d e \<and> service_step e s s'"

lemma path_duty: "path (service_duty d) es s s' \<longleftrightarrow> list_all d es \<and> path service_step es s s'"
  by (induction es arbitrary: s) (auto simp: service_duty_def)

text \<open>The cluster's calls leave a view of the outside state alone.\<close>

definition kube_apart :: "('s \<Rightarrow> 't) \<Rightarrow> 's kube \<Rightarrow> bool" where
  "kube_apart view K \<longleftrightarrow>
     (\<forall>n s. view (snd (kGetBucket K n s)) = view s) \<and>
     (\<forall>n s. view (snd (kGetAccessKey K n s)) = view s) \<and>
     (\<forall>n s. view (snd (kGetAccessPolicy K n s)) = view s) \<and>
     (\<forall>n s. view (snd (kGetSecret K n s)) = view s) \<and>
     (\<forall>x s. view (snd (kPatchBucketStatus K x s)) = view s) \<and>
     (\<forall>x y s. view (snd (kPatchAccessKey K x y s)) = view s) \<and>
     (\<forall>x s. view (snd (kUpdateAccessKey K x s)) = view s) \<and>
     (\<forall>x s. view (snd (kUpdateAccessKeyStatus K x s)) = view s) \<and>
     (\<forall>x s. view (snd (kUpdateAccessPolicy K x s)) = view s) \<and>
     (\<forall>x s. view (snd (kPatchAccessPolicyStatus K x s)) = view s) \<and>
     (\<forall>x f s. view (snd (kCreateOrUpdateConfigMap K x f s)) = view s) \<and>
     (\<forall>x f s. view (snd (kCreateOrUpdateSecret K x f s)) = view s) \<and>
     (\<forall>n l s. view (snd (kListConfigMaps K n l s)) = view s) \<and>
     (\<forall>x s. view (snd (kDeleteConfigMap K x s)) = view s) \<and>
     (\<forall>x s. view (snd (kDeleteSecret K x s)) = view s) \<and>
     (\<forall>t s. view (snd (clockSince K t s)) = view s)"

lemma kube_apartD:
  assumes "kube_apart view K"
  shows "kGetBucket K n s = (rb, s') \<Longrightarrow> view s' = view s"
    and "kGetAccessKey K n s = (rk, s') \<Longrightarrow> view s' = view s"
    and "kGetAccessPolicy K n s = (ra, s') \<Longrightarrow> view s' = view s"
    and "kGetSecret K n s = (rs, s') \<Longrightarrow> view s' = view s"
    and "kPatchBucketStatus K b s = (e, s') \<Longrightarrow> view s' = view s"
    and "kPatchAccessKey K k k' s = (rk', s') \<Longrightarrow> view s' = view s"
    and "kUpdateAccessKey K k s = (e, s') \<Longrightarrow> view s' = view s"
    and "kUpdateAccessKeyStatus K k s = (e, s') \<Longrightarrow> view s' = view s"
    and "kUpdateAccessPolicy K a s = (e, s') \<Longrightarrow> view s' = view s"
    and "kPatchAccessPolicyStatus K a s = (e, s') \<Longrightarrow> view s' = view s"
    and "kCreateOrUpdateConfigMap K x f s = (rc, s') \<Longrightarrow> view s' = view s"
    and "kCreateOrUpdateSecret K y g s = (rc, s') \<Longrightarrow> view s' = view s"
    and "kListConfigMaps K ns l s = (rl, s') \<Longrightarrow> view s' = view s"
    and "kDeleteConfigMap K x s = (e, s') \<Longrightarrow> view s' = view s"
    and "kDeleteSecret K y s = (e, s') \<Longrightarrow> view s' = view s"
    and "clockSince K t s = (d, s') \<Longrightarrow> view s' = view s"
  using assms unfolding kube_apart_def by (metis snd_conv)+

lemma tracks_case_outcome [tracks_intros]:
  "tracks view R f \<Longrightarrow> (\<And>r e. tracks view R (g r e)) \<Longrightarrow>
     tracks view R (case x of Panicked \<Rightarrow> f | Returned r e \<Rightarrow> g r e)"
  by (cases x) auto

section \<open>Controllers on any service that keeps the contracts\<close>

locale garage_service =
  buckets: bucket_service bcreate bget bupdate writes +
  keys: key_service kcreate kget klookup kdelete writes +
  perms: permission_service set_perms get_perms granted
  for bcreate :: "string \<Rightarrow> 's \<Rightarrow> (error + s3_bucket) \<times> 's"
    and bget bupdate kcreate kget klookup kdelete set_perms get_perms
    and writes :: "'s \<Rightarrow> garage_write list" and granted :: "'s \<Rightarrow> perm_table" +
  assumes bucket_frame: "bcreate a s = (rb, s') \<Longrightarrow> granted s' = granted s"
      "bget a s = (rb, s') \<Longrightarrow> granted s' = granted s"
      "bupdate i q s = (e, s') \<Longrightarrow> granted s' = granted s"
    and key_frame: "kcreate n s = (rk, s') \<Longrightarrow> granted s' = granted s"
      "kget n s = (rk, s') \<Longrightarrow> granted s' = granted s"
      "klookup n s = (rk, s') \<Longrightarrow> granted s' = granted s"
      "kdelete n s = (e, s') \<Longrightarrow> granted s' = granted s"
    and set_perms_writes: "set_perms k b p s = (e, s') \<Longrightarrow>
      \<exists>x \<in> set_writes k b p. writes s' = writes s @ x"
    and get_perms_writes: "get_perms k b s = (rp, s') \<Longrightarrow> writes s' = writes s"
begin

lemma view_step:
  "bcreate a s = (rb, s') \<Longrightarrow>
     service_step (BucketCreate a rb) (service_of granted writes s) (service_of granted writes s')"
  "bget a s = (rb, s') \<Longrightarrow> service_of granted writes s' = service_of granted writes s"
  "bupdate i q s = (e, s') \<Longrightarrow>
     service_step (BucketUpdate i q e) (service_of granted writes s) (service_of granted writes s')"
  "kcreate n s = (rk, s') \<Longrightarrow>
     service_step (KeyCreate n rk) (service_of granted writes s) (service_of granted writes s')"
  "kget n s = (rk, s') \<Longrightarrow> service_of granted writes s' = service_of granted writes s"
  "klookup n s = (rk, s') \<Longrightarrow> service_of granted writes s' = service_of granted writes s"
  "kdelete n s = (e, s') \<Longrightarrow>
     service_step (KeyDelete n e) (service_of granted writes s) (service_of granted writes s')"
  "get_perms k b s = (rp, s') \<Longrightarrow> service_of granted writes s' = service_of granted writes s"
  by (simp_all add: service_of_def bucket_frame key_frame buckets.create_writes buckets.get_writes
      buckets.update_writes keys.create_writes keys.get_writes keys.lookup_writes keys.delete_writes
      perms.get_frame get_perms_writes)

lemma view_set:
  assumes "set_perms k b p s = (e, s')"
  shows "service_step (PermissionsSet k b p e) (service_of granted writes s) (service_of granted writes s')"
  using perms.set_ok [of k b p s s'] perms.set_err [of k b p s _ s'] set_perms_writes [OF assms] assms
  by (auto simp: service_of_def set_effect_def split: option.splits)

lemmas view_steps = view_step view_set

text \<open>The three reconcilers refine the abstract service.\<close>

lemma deleteStaleLoop_tracks:
  assumes "kube_apart (service_of granted writes) K"
  shows "tracks (service_of granted writes) (service_duty bucket_duty) (deleteStaleLoop L K b d cms)"
  by (induction cms) (auto intro!: tracks_intros simp: service_duty_def dest: kube_apartD [OF assms])

lemma bucket_tracks:
  assumes K: "kube_apart (service_of granted writes) K"
    and R: "R = NewBucketReconciler bcreate bget bupdate endpoint get_perms"
  shows "tracks (service_of granted writes) (service_duty bucket_duty) (BucketReconciler_Reconcile L K R req)"
  unfolding BucketReconciler_Reconcile_def reconcileBucket_def finishBucket_def configureBucket_def
    publishBucket_def resolveNewBucket_def resolveExistingBucket_def verifyOwnership_def
    ensureConfigMap_def deleteStaleConfigMap_def Let_def
  by (intro tracks_intros deleteStaleLoop_tracks [OF K])
    (auto simp: service_duty_def R NewBucketReconciler_def dest: kube_apartD [OF K] view_steps)

lemma key_tracks:
  assumes K: "kube_apart (service_of granted writes) K"
    and R: "R = NewAccessKeyReconciler kcreate kget klookup kdelete"
  shows "tracks (service_of granted writes) (service_duty key_duty) (AccessKeyReconciler_Reconcile L K R req)"
  unfolding AccessKeyReconciler_Reconcile_def reconcileLiveKey_def reconcileAccessKey_def
    establishKey_def ensureExternalKey_def ensureSecret_def writeSecret_def finishSecret_def
    cleanupOldSecret_def finishKey_def updateStatus_def finalizeKey_def releaseKey_def
    resolveExtKeyID_def Let_def
  by (intro tracks_intros)
    (auto simp: service_duty_def R NewAccessKeyReconciler_def dest: kube_apartD [OF K] view_steps)

lemma policy_tracks:
  assumes K: "kube_apart (service_of granted writes) K" and R: "R = NewAccessPolicyReconciler set_perms"
  shows "tracks (service_of granted writes) (service_duty policy_duty) (AccessPolicyReconciler_Reconcile L K R req)"
  unfolding AccessPolicyReconciler_Reconcile_def reconcileLivePolicy_def reconcilePolicy_def
    resolveBucket_def checkBucket_def resolveAccessKey_def checkAccessKey_def assignPermissions_def
    finishPolicy_def saveMeta_def finalizePolicy_def releasePolicy_def setPermissions_def Let_def
  by (intro tracks_intros)
    (simp_all del: service_step.simps(5) add: service_duty_def R NewAccessPolicyReconciler_def view_steps
      kube_apartD [OF K])

end

section \<open>The client provides it\<close>

lemma on_garage_wp:
  assumes "on_garage m s = (r, s')" and "wp m Q (snd s)"
  shows "Q r (snd s')"
  by (rule run_wp [OF on_garage_run [OF assms(1)] assms(2)])

interpretation garage: garage_service
  "\<lambda>a. on_garage (BucketClient_Create T c a)" "\<lambda>a. on_garage (BucketClient_Get T c a)"
  "\<lambda>i q. on_garage (BucketClient_Update T c i q)" "\<lambda>n. on_garage (AccessKeyClient_Create T c n)"
  "\<lambda>i. on_garage (AccessKeyClient_Get T c i)" "\<lambda>n. on_garage (AccessKeyClient_Lookup T c n)"
  "\<lambda>i. on_garage (AccessKeyClient_Delete T c i)" "\<lambda>k b p. on_garage (SetPermissions T c k b p)"
  "\<lambda>k b. on_garage (GetPermissions T c k b)"
  "\<lambda>s :: 'k \<times> 's gworld. garage_writes (snd s)" "\<lambda>s. granted_from srv (snd s)"
  for T :: "'s transport" and c srv
proof (unfold_locales, goal_cases)
  case (8 k b p s s')
  from on_garage_run [OF this] show ?case by (rule garage_permissions.set_ok)
next
  case (9 k b p s e s')
  from on_garage_run [OF this] show ?case by (rule garage_permissions.set_err)
qed (auto dest: on_garage_wp [OF _ BucketClient_Get_view] on_garage_wp [OF _ BucketClient_Create_view]
    on_garage_wp [OF _ BucketClient_Update_view] on_garage_wp [OF _ AccessKeyClient_Create_view]
    on_garage_wp [OF _ AccessKeyClient_Get_view] on_garage_wp [OF _ AccessKeyClient_Lookup_view]
    on_garage_wp [OF _ AccessKeyClient_Delete_view] on_garage_wp [OF _ GetPermissions_view]
    on_garage_wp [OF _ SetPermissions_view] simp: set_outcome_def set_writes_def)

end
