(* ===== verification/AccessPolicyTrace.thy ===== *)
theory AccessPolicyTrace
  imports AccessPolicyController ReadySummary
begin

text \<open>
  What each function of the AccessPolicy reconciler does: the events it appends and the
  object it leaves.  The bucket and the access key a policy names are resolved alike; the
  locale \<open>policy_dependency\<close> states that contract once and is interpreted for both.
\<close>

section \<open>The policy between the steps\<close>

definition set_bucket_id :: "string \<Rightarrow> AccessPolicy \<Rightarrow> AccessPolicy" where
  "set_bucket_id i a = a\<lparr>a_Status := (a_Status a)\<lparr>pst_BucketID := i\<rparr>\<rparr>"

definition set_key_id :: "string \<Rightarrow> AccessPolicy \<Rightarrow> AccessPolicy" where
  "set_key_id i a = a\<lparr>a_Status := (a_Status a)\<lparr>pst_AccessKeyID := i\<rparr>\<rparr>"

text \<open>What no step of a reconcile changes.\<close>

definition policy_frame :: "AccessPolicy \<Rightarrow> AccessPolicy \<Rightarrow> bool" where
  "policy_frame a a' \<longleftrightarrow> a_Meta a' = a_Meta a \<and> a_Spec a' = a_Spec a \<and>
     pst_ObservedGeneration (a_Status a') = pst_ObservedGeneration (a_Status a)"

lemma policy_frame_refl [simp]: "policy_frame a a"
  by (simp add: policy_frame_def)

lemma policy_frame_trans: "policy_frame a b \<Longrightarrow> policy_frame b c \<Longrightarrow> policy_frame a c"
  by (simp add: policy_frame_def)

lemma set_id_simps [simp]:
  "a_Meta (set_bucket_id i a) = a_Meta a" "a_Spec (set_bucket_id i a) = a_Spec a"
  "a_Conditions (set_bucket_id i a) = a_Conditions a"
  "pst_ObservedGeneration (a_Status (set_bucket_id i a)) = pst_ObservedGeneration (a_Status a)"
  "pst_BucketID (a_Status (set_bucket_id i a)) = i"
  "pst_AccessKeyID (a_Status (set_bucket_id i a)) = pst_AccessKeyID (a_Status a)"
  "a_Meta (set_key_id i a) = a_Meta a" "a_Spec (set_key_id i a) = a_Spec a"
  "a_Conditions (set_key_id i a) = a_Conditions a"
  "pst_ObservedGeneration (a_Status (set_key_id i a)) = pst_ObservedGeneration (a_Status a)"
  "pst_BucketID (a_Status (set_key_id i a)) = pst_BucketID (a_Status a)"
  "pst_AccessKeyID (a_Status (set_key_id i a)) = i"
  by (simp_all add: set_bucket_id_def set_key_id_def)

lemmas policy_mark_defs =
  markPolicyConditionNotReady_def markPolicyKeyReady_def markPolicyBucketReady_def
  markPolicyAssignmentReady_def initializePolicyConditions_def

lemma policy_mark_simps [simp]:
  "a_Meta (markPolicyConditionNotReady L a t r m) = a_Meta a"
  "a_Spec (markPolicyConditionNotReady L a t r m) = a_Spec a"
  "a_Meta (markPolicyKeyReady L a) = a_Meta a" "a_Spec (markPolicyKeyReady L a) = a_Spec a"
  "a_Meta (markPolicyBucketReady L a) = a_Meta a" "a_Spec (markPolicyBucketReady L a) = a_Spec a"
  "a_Meta (markPolicyAssignmentReady L a) = a_Meta a"
  "a_Spec (markPolicyAssignmentReady L a) = a_Spec a"
  "a_Meta (initializePolicyConditions L a) = a_Meta a"
  "a_Spec (initializePolicyConditions L a) = a_Spec a"
  by (simp_all add: policy_mark_defs)

lemma policy_mark_status [simp]:
  "pst_BucketID (a_Status (markPolicyConditionNotReady L a t r m)) = pst_BucketID (a_Status a)"
  "pst_AccessKeyID (a_Status (markPolicyConditionNotReady L a t r m)) = pst_AccessKeyID (a_Status a)"
  "pst_ObservedGeneration (a_Status (markPolicyConditionNotReady L a t r m)) =
     pst_ObservedGeneration (a_Status a)"
  "pst_BucketID (a_Status (markPolicyKeyReady L a)) = pst_BucketID (a_Status a)"
  "pst_AccessKeyID (a_Status (markPolicyKeyReady L a)) = pst_AccessKeyID (a_Status a)"
  "pst_ObservedGeneration (a_Status (markPolicyKeyReady L a)) = pst_ObservedGeneration (a_Status a)"
  "pst_BucketID (a_Status (markPolicyBucketReady L a)) = pst_BucketID (a_Status a)"
  "pst_AccessKeyID (a_Status (markPolicyBucketReady L a)) = pst_AccessKeyID (a_Status a)"
  "pst_ObservedGeneration (a_Status (markPolicyBucketReady L a)) = pst_ObservedGeneration (a_Status a)"
  "pst_BucketID (a_Status (markPolicyAssignmentReady L a)) = pst_BucketID (a_Status a)"
  "pst_AccessKeyID (a_Status (markPolicyAssignmentReady L a)) = pst_AccessKeyID (a_Status a)"
  "pst_ObservedGeneration (a_Status (markPolicyAssignmentReady L a)) = pst_ObservedGeneration (a_Status a)"
  "pst_BucketID (a_Status (initializePolicyConditions L a)) = pst_BucketID (a_Status a)"
  "pst_AccessKeyID (a_Status (initializePolicyConditions L a)) = pst_AccessKeyID (a_Status a)"
  "pst_ObservedGeneration (a_Status (initializePolicyConditions L a)) = pst_ObservedGeneration (a_Status a)"
  by (simp_all add: policy_mark_defs)

lemma policy_mark_view:
  assumes "cond_laws L"
  shows "cond_view L (a_Conditions (markPolicyConditionNotReady L a u r m)) t =
      (if t = u then Some (ConditionFalse, r, m, a_Generation a) else cond_view L (a_Conditions a) t)"
    and "cond_view L (a_Conditions (markPolicyKeyReady L a)) t =
      (if t = PolicyAccessKeyReady then Some (ConditionTrue, ''AccessKeyReady'',
         ''AccessKey is ready for assignment'', a_Generation a) else cond_view L (a_Conditions a) t)"
    and "cond_view L (a_Conditions (markPolicyBucketReady L a)) t =
      (if t = PolicyBucketReady then Some (ConditionTrue, ''BucketReady'',
         ''Bucket is ready for assignment'', a_Generation a) else cond_view L (a_Conditions a) t)"
    and "cond_view L (a_Conditions (markPolicyAssignmentReady L a)) t =
      (if t = PolicyAssignmentReady then Some (ConditionTrue, ''AccessPolicyAssigned'',
         ''Access policy configured in external system.'', a_Generation a)
       else cond_view L (a_Conditions a) t)"
  by (simp_all add: policy_mark_defs markNotReady_def cond_view_set [OF assms])

section \<open>A dependency\<close>

text \<open>The revocation the reconciler sends for the recorded key and bucket.\<close>

definition revocation :: "AccessPolicy \<Rightarrow> error option \<Rightarrow> ctrl_event" where
  "revocation a x = PermissionsSet (pst_AccessKeyID (a_Status a)) (pst_BucketID (a_Status a))
     no_permissions x"

locale policy_dependency =
  fixes ask :: "AccessPolicy \<Rightarrow> error + 'o \<Rightarrow> ctrl_event"
    and conds :: "'o \<Rightarrow> condition list"
    and ext_id :: "'o \<Rightarrow> string"
    and own_id :: "AccessPolicy \<Rightarrow> string"
    and set_id :: "string \<Rightarrow> AccessPolicy \<Rightarrow> AccessPolicy"
    and part :: string
    and gone_reason :: string
    and mark :: "lib \<Rightarrow> AccessPolicy \<Rightarrow> AccessPolicy"
  assumes set_frame: "policy_frame a (set_id i a)" "a_Conditions (set_id i a) = a_Conditions a"
    and set_same: "set_id (own_id a) a = a"
    and mark_frame: "policy_frame a (mark L a)" "own_id (mark L a) = own_id a"
    and own_not_ready: "own_id (markPolicyConditionNotReady L a t r m) = own_id a"
    and own_set: "own_id (set_id i a) = i"
    and mark_view: "cond_laws L \<Longrightarrow> \<exists>r m. \<forall>t. cond_view L (a_Conditions (mark L a)) t =
      (if t = part then Some (ConditionTrue, r, m, a_Generation a) else cond_view L (a_Conditions a) t)"
    and ask_only: "ask a ans \<noteq> PermissionsSet k b p x"
begin

text \<open>
  The four ways to resolve it: ready; there, but not ready; missing, with a revocation when
  an ID was recorded; and not known, because the read failed.
\<close>

definition dep_trace :: "lib \<Rightarrow> AccessPolicy \<Rightarrow> AccessPolicy \<Rightarrow> error + 'o \<Rightarrow> ctrl_event list \<Rightarrow> bool" where
  "dep_trace L a a' r es \<longleftrightarrow>
     (\<exists>x. es = [ask a (Inr x)] \<and> ready_cond (FindStatusCondition L (conds x) Ready) \<and>
        r = Inr x \<and> a' = mark L (set_id (ext_id x) a)) \<or>
     (\<exists>x e m. es = [ask a (Inr x)] \<and> \<not> ready_cond (FindStatusCondition L (conds x) Ready) \<and>
        r = Inl e \<and> errors_Is e errDependencyNotReady \<and> \<not> IsNotFound L e \<and>
        a' = markPolicyConditionNotReady L (set_id (ext_id x) a) part ReasonDependenciesNotReady m) \<or>
     (\<exists>e e' m rest. es = ask a (Inl e) # rest \<and> IsNotFound L e \<and> r = Inl e' \<and> IsNotFound L e' \<and>
        (if own_id a = [] then rest = [] else \<exists>x. rest = [revocation a x]) \<and>
        a' = set_id [] (markPolicyConditionNotReady L a part gone_reason m)) \<or>
     (\<exists>e e'. es = [ask a (Inl e)] \<and> \<not> IsNotFound L e \<and> r = Inl e' \<and> \<not> IsNotFound L e' \<and>
        (errors_Is e' errDependencyNotReady \<longleftrightarrow> errors_Is e errDependencyNotReady) \<and> a' = a)"

lemma dep_traceE:
  assumes "dep_trace L a a' r es"
  obtains (ready) x where "es = [ask a (Inr x)]"
      "ready_cond (FindStatusCondition L (conds x) Ready)" "r = Inr x"
      "a' = mark L (set_id (ext_id x) a)"
  | (waiting) x e m where "es = [ask a (Inr x)]"
      "\<not> ready_cond (FindStatusCondition L (conds x) Ready)" "r = Inl e"
      "errors_Is e errDependencyNotReady" "\<not> IsNotFound L e"
      "a' = markPolicyConditionNotReady L (set_id (ext_id x) a) part ReasonDependenciesNotReady m"
  | (missing) e e' m rest where "es = ask a (Inl e) # rest" "IsNotFound L e" "r = Inl e'"
      "IsNotFound L e'" "if own_id a = [] then rest = [] else \<exists>x. rest = [revocation a x]"
      "a' = set_id [] (markPolicyConditionNotReady L a part gone_reason m)"
  | (unclear) e e' where "es = [ask a (Inl e)]" "\<not> IsNotFound L e" "r = Inl e'"
      "\<not> IsNotFound L e'" "errors_Is e' errDependencyNotReady \<longleftrightarrow> errors_Is e errDependencyNotReady"
      "a' = a"
  using assms unfolding dep_trace_def by blast

lemma dep_frame:
  assumes "dep_trace L a a' r es"
  shows "policy_frame a a'"
proof -
  have not_ready: "policy_frame b (markPolicyConditionNotReady L b t s m)" for b t s m
    by (simp add: policy_frame_def)
  from assms show ?thesis
    by (cases rule: dep_traceE)
      (auto intro: policy_frame_trans [OF set_frame(1) mark_frame(1)]
        policy_frame_trans [OF set_frame(1) not_ready] policy_frame_trans [OF not_ready set_frame(1)])
qed

text \<open>Every permission it sets is the revocation of the recorded ones.\<close>

lemma dep_permissions:
  assumes "dep_trace L a a' r es" and "PermissionsSet k b p x \<in> set es"
  shows "PermissionsSet k b p x = revocation a x \<and> own_id a \<noteq> []"
proof -
  have ne: "PermissionsSet k b p x \<noteq> ask a ans" for ans
    using ask_only [of a ans k b p x] by metis
  from assms(1) show ?thesis
    by (cases rule: dep_traceE) (use assms(2) ne in \<open>auto simp: revocation_def split: if_splits\<close>)
qed

text \<open>Its condition is true exactly when it is resolved; the others are kept.\<close>

lemma dep_stat:
  assumes L: "cond_laws L" and tr: "dep_trace L a a' r es"
    and present: "cond_stat L (a_Conditions a) part \<noteq> None"
  shows "cond_stat L (a_Conditions a') part \<noteq> None"
    and "r = Inr x \<Longrightarrow> cond_stat L (a_Conditions a') part = Some ConditionTrue"
    and "t \<noteq> part \<Longrightarrow> cond_view L (a_Conditions a') t = cond_view L (a_Conditions a) t"
proof -
  note marks = mark_view [OF L]
  have view: "\<exists>v. cond_view L (a_Conditions (mark L b)) part = Some (ConditionTrue, v)"
    "t \<noteq> part \<Longrightarrow> cond_view L (a_Conditions (mark L b)) t = cond_view L (a_Conditions b) t" for b
    using marks [of b] by auto
  from tr show "cond_stat L (a_Conditions a') part \<noteq> None"
  proof (cases rule: dep_traceE)
    case (ready x)
    with view(1) [of "set_id (ext_id x) a"] show ?thesis by (auto simp: cond_stat_view)
  qed (use present in \<open>simp_all add: cond_stat_view policy_mark_view [OF L] set_frame(2)\<close>)
  from tr show "r = Inr x \<Longrightarrow> cond_stat L (a_Conditions a') part = Some ConditionTrue"
  proof (cases rule: dep_traceE)
    case (ready x)
    with view(1) [of "set_id (ext_id x) a"] show ?thesis by (auto simp: cond_stat_view)
  qed simp_all
  from tr show "t \<noteq> part \<Longrightarrow> cond_view L (a_Conditions a') t = cond_view L (a_Conditions a) t"
    by (cases rule: dep_traceE) (simp_all add: view(2) policy_mark_view [OF L] set_frame(2))
qed

end

section \<open>The bucket and the key\<close>

definition policy_bucket :: "AccessPolicy \<Rightarrow> nsname" where
  "policy_bucket a = (m_Namespace (a_Meta a), ps_Bucket (a_Spec a))"

definition policy_key :: "AccessPolicy \<Rightarrow> nsname" where
  "policy_key a = (m_Namespace (a_Meta a), ps_AccessKey (a_Spec a))"

interpretation bucket_dep: policy_dependency
  "\<lambda>a. GetBucket (policy_bucket a)" b_Conditions "\<lambda>b. bst_BucketID (b_Status b)"
  "\<lambda>a. pst_BucketID (a_Status a)" set_bucket_id PolicyBucketReady ReasonBucketMissing
  markPolicyBucketReady
  by unfold_locales (auto simp: policy_frame_def policy_mark_view set_bucket_id_def)

interpretation key_dep: policy_dependency
  "\<lambda>a. GetAccessKey (policy_key a)" k_Conditions "\<lambda>k. kst_AccessKeyID (k_Status k)"
  "\<lambda>a. pst_AccessKeyID (a_Status a)" set_key_id PolicyAccessKeyReady ReasonAccessKeyMissing
  markPolicyKeyReady
  by unfold_locales (auto simp: policy_frame_def policy_mark_view set_key_id_def)

lemma set_id_idle:
  "pst_BucketID (a_Status a) = [] \<Longrightarrow> \<exists>m'. markPolicyConditionNotReady L a t r m =
     set_bucket_id [] (markPolicyConditionNotReady L a t r m')"
  "pst_AccessKeyID (a_Status a) = [] \<Longrightarrow> \<exists>m'. markPolicyConditionNotReady L a t r m =
     set_key_id [] (markPolicyConditionNotReady L a t r m')"
  by (intro exI [of _ m], simp add: set_bucket_id_def policy_mark_defs a_set_conditions_def)
    (intro exI [of _ m], simp add: set_key_id_def policy_mark_defs a_set_conditions_def)

lemma resolveBucket_trace:
  assumes "error_laws L"
  shows "produces (resolveBucket L K R a) (\<lambda>(a', r) es. bucket_dep.dep_trace L a a' r es)"
  unfolding resolveBucket_def checkBucket_def setPermissions_def Let_def
    policy_bucket_def [symmetric] set_bucket_id_def [symmetric]
  by (intro produces_intros)
    (auto simp: bucket_dep.dep_trace_def revocation_def assms intro: set_id_idle
      split: sum.splits if_splits)

lemma resolveAccessKey_trace:
  assumes "error_laws L"
  shows "produces (resolveAccessKey L K R a) (\<lambda>(a', r) es. key_dep.dep_trace L a a' r es)"
  unfolding resolveAccessKey_def checkAccessKey_def setPermissions_def Let_def
    policy_key_def [symmetric] set_key_id_def [symmetric]
  by (intro produces_intros)
    (auto simp: key_dep.dep_trace_def revocation_def assms intro: set_id_idle
      split: sum.splits if_splits)

section \<open>Reconciling\<close>

definition assign_trace ::
  "lib \<Rightarrow> AccessPolicy \<Rightarrow> AccessKey \<Rightarrow> Bucket \<Rightarrow> AccessPolicy \<Rightarrow> error option \<Rightarrow> ctrl_event list \<Rightarrow> bool" where
  "assign_trace L a k b a' err es \<longleftrightarrow>
    (let grant = PermissionsSet (kst_AccessKeyID (k_Status k)) (bst_BucketID (b_Status b))
           (spec_permissions (a_Spec a))
     in (es = [grant None] \<and> err = None \<and> a' = markPolicyAssignmentReady L a) \<or>
        (\<exists>e m m' m''. es = [grant (Some e), Eventf EventTypeWarning ReasonPolicyAssignmentFailed m] \<and>
           err = Some (wrap m'' e) \<and>
           a' = markPolicyConditionNotReady L a PolicyAssignmentReady ReasonPolicyAssignmentFailed m'))"

lemma assignPermissions_trace:
  "produces (assignPermissions L R a k b) (\<lambda>(a', err) es. assign_trace L a k b a' err es)"
  unfolding assignPermissions_def setPermissions_def
  by (intro produces_intros) (auto simp: assign_trace_def)

text \<open>Whether both dependencies were resolved, and the error otherwise.\<close>

definition policy_trace ::
  "lib \<Rightarrow> AccessPolicy \<Rightarrow> AccessPolicy \<Rightarrow> error option \<Rightarrow> ctrl_event list \<Rightarrow> bool" where
  "policy_trace L a a' err es \<longleftrightarrow>
     (\<exists>a1 a2 rb rk es1 es2 es3. es = es1 @ es2 @ es3 \<and>
        bucket_dep.dep_trace L a a1 rb es1 \<and> key_dep.dep_trace L a1 a2 rk es2 \<and>
        (case (rb, rk) of
           (Inr b, Inr k) \<Rightarrow> assign_trace L a2 k b a' err es3
         | (Inl e, Inr k) \<Rightarrow> es3 = [] \<and> a' = a2 \<and> err = Some (Joined [e])
         | (Inr b, Inl e') \<Rightarrow> es3 = [] \<and> a' = a2 \<and> err = Some (Joined [e'])
         | (Inl e, Inl e') \<Rightarrow> es3 = [] \<and> a' = a2 \<and> err = Some (Joined [e, e'])))"

lemma policy_traceI:
  assumes "bucket_dep.dep_trace L a a1 rb es1" and "key_dep.dep_trace L a1 a2 rk es2"
  shows "rb = Inl e \<Longrightarrow> rk = Inl e' \<Longrightarrow> policy_trace L a a2 (Some (Joined [e, e'])) (es1 @ es2)"
    and "rb = Inl e \<Longrightarrow> rk = Inr k \<Longrightarrow> policy_trace L a a2 (Some (Joined [e])) (es1 @ es2)"
    and "rb = Inr b \<Longrightarrow> rk = Inl e' \<Longrightarrow> policy_trace L a a2 (Some (Joined [e'])) (es1 @ es2)"
    and "rb = Inr b \<Longrightarrow> rk = Inr k \<Longrightarrow> assign_trace L a2 k b a' err es3 \<Longrightarrow>
      policy_trace L a a' err (es1 @ es2 @ es3)"
proof -
  have *: "policy_trace L a x er (es1 @ es2 @ fs)" if "case (rb, rk) of
           (Inr b, Inr k) \<Rightarrow> assign_trace L a2 k b x er fs
         | (Inl e, Inr k) \<Rightarrow> fs = [] \<and> x = a2 \<and> er = Some (Joined [e])
         | (Inr b, Inl e') \<Rightarrow> fs = [] \<and> x = a2 \<and> er = Some (Joined [e'])
         | (Inl e, Inl e') \<Rightarrow> fs = [] \<and> x = a2 \<and> er = Some (Joined [e, e'])" for x er fs
    unfolding policy_trace_def using assms that by blast
  show "rb = Inl e \<Longrightarrow> rk = Inl e' \<Longrightarrow> policy_trace L a a2 (Some (Joined [e, e'])) (es1 @ es2)"
    and "rb = Inl e \<Longrightarrow> rk = Inr k \<Longrightarrow> policy_trace L a a2 (Some (Joined [e])) (es1 @ es2)"
    and "rb = Inr b \<Longrightarrow> rk = Inl e' \<Longrightarrow> policy_trace L a a2 (Some (Joined [e'])) (es1 @ es2)"
    and "rb = Inr b \<Longrightarrow> rk = Inr k \<Longrightarrow> assign_trace L a2 k b a' err es3 \<Longrightarrow>
      policy_trace L a a' err (es1 @ es2 @ es3)"
    using * [where x = a2 and fs = "[]"] * [where x = a'] by auto
qed

lemma reconcilePolicy_trace:
  assumes "error_laws L"
  shows "produces (reconcilePolicy L K R a) (\<lambda>(a', err) es. policy_trace L a a' err es)"
  unfolding reconcilePolicy_def
  by (intro produces_intros produces_mono [OF resolveBucket_trace [OF assms]]
      produces_mono [OF resolveAccessKey_trace [OF assms]])
    (auto intro!: produces_return produces_mono [OF assignPermissions_trace]
      intro: policy_traceI split: sum.splits)

section \<open>A run\<close>

definition policy_finish ::
  "lib \<Rightarrow> 's kube \<Rightarrow> AccessPolicyStatus \<Rightarrow> AccessPolicy \<Rightarrow> error option \<Rightarrow> outcome \<Rightarrow>
     ctrl_event list \<Rightarrow> bool" where
  "policy_finish L K orig a err out es \<longleftrightarrow>
    (case policyResult L err of (result, resultErr) \<Rightarrow>
      (AccessPolicyStatusEqual K orig (a_Status a) \<and> es = [] \<and> out = Returned result resultErr) \<or>
      (\<not> AccessPolicyStatusEqual K orig (a_Status a) \<and>
         (\<exists>p. es = [PatchAccessPolicyStatus a p] \<and> out = patched_outcome L result resultErr p)))"

lemma finishPolicy_trace:
  "produces (finishPolicy L K orig a err) (policy_finish L K orig a err)"
  unfolding finishPolicy_def
  by (intro produces_intros) (auto simp: policy_finish_def patched_outcome_def split: option.splits)

definition live_policy_run ::
  "lib \<Rightarrow> 's kube \<Rightarrow> AccessPolicy \<Rightarrow> outcome \<Rightarrow> ctrl_event list \<Rightarrow> bool" where
  "live_policy_run L K a out es \<longleftrightarrow>
     (\<exists>a1 err es1 es2. es = es1 @ es2 \<and> policy_trace L (initializePolicyConditions L a) a1 err es1 \<and>
        (case updateAccessPolicyCondition L a1 of
           None \<Rightarrow> out = Panicked \<and> es2 = []
         | Some a2 \<Rightarrow> policy_finish L K (a_Status a) a2 err out es2))"

lemma live_policy_runI:
  assumes "policy_trace L (initializePolicyConditions L a) a1 err es"
  shows "updateAccessPolicyCondition L a1 = None \<Longrightarrow> live_policy_run L K a Panicked es"
    and "updateAccessPolicyCondition L a1 = Some a2 \<Longrightarrow>
      policy_finish L K (a_Status a) a2 err out fs \<Longrightarrow> live_policy_run L K a out (es @ fs)"
  unfolding live_policy_run_def
  by (intro exI [of _ a1] exI [of _ err] exI [of _ es] exI [of _ "[]"], simp add: assms)
    (intro exI [of _ a1] exI [of _ err] exI [of _ es] exI [of _ fs], simp add: assms)

lemma reconcileLivePolicy_trace:
  assumes "error_laws L"
  shows "produces (reconcileLivePolicy L K R a) (live_policy_run L K a)"
  unfolding reconcileLivePolicy_def
  by (intro produces_intros produces_mono [OF reconcilePolicy_trace [OF assms]]
      produces_mono [OF finishPolicy_trace]) (auto intro: live_policy_runI)

text \<open>Deletion: what must have happened before the finalizer goes.\<close>

definition bound :: "AccessPolicy \<Rightarrow> bool" where
  "bound a \<longleftrightarrow> pst_AccessKeyID (a_Status a) \<noteq> [] \<and> pst_BucketID (a_Status a) \<noteq> []"

definition policy_unfinalized :: "lib \<Rightarrow> AccessPolicy \<Rightarrow> AccessPolicy" where
  "policy_unfinalized L a = a\<lparr>a_Meta := RemoveFinalizer L (a_Meta a) finalizerName\<rparr>"

definition revoked :: "error option \<Rightarrow> bool" where
  "revoked x = (case x of None \<Rightarrow> True | Some e \<Rightarrow> errors_Is e ErrResourceNotFound)"

definition finalize_policy_run :: "lib \<Rightarrow> AccessPolicy \<Rightarrow> outcome \<Rightarrow> ctrl_event list \<Rightarrow> bool" where
  "finalize_policy_run L a out es \<longleftrightarrow>
     (\<exists>es1 r. (if bound a then \<exists>x. es1 = [revocation a x] \<and> revoked x else es1 = []) \<and>
        es = es1 @ [UpdateAccessPolicy (policy_unfinalized L a) r] \<and> out = Returned no_requeue r) \<or>
     (\<exists>e. bound a \<and> es = [revocation a (Some e)] \<and> \<not> errors_Is e ErrResourceNotFound \<and>
        out = Returned no_requeue (Some e))"

lemma releasePolicy_trace:
  "produces (releasePolicy L K a)
     (\<lambda>out es. \<exists>r. es = [UpdateAccessPolicy (policy_unfinalized L a) r] \<and> out = Returned no_requeue r)"
  unfolding releasePolicy_def Let_def policy_unfinalized_def [symmetric]
  by (intro produces_intros) auto

lemma finalizePolicy_trace: "produces (finalizePolicy L K R a) (finalize_policy_run L a)"
  unfolding finalizePolicy_def setPermissions_def bound_def [symmetric]
  by (intro produces_intros produces_mono [OF releasePolicy_trace])
    (auto simp: finalize_policy_run_def revoked_def revocation_def)

definition save_trace :: "lib \<Rightarrow> AccessPolicy \<Rightarrow> outcome \<Rightarrow> ctrl_event list \<Rightarrow> bool" where
  "save_trace L a out es \<longleftrightarrow> (\<exists>r. es = [UpdateAccessPolicy a r] \<and> (\<exists>e. out = Returned no_requeue e))"

lemma saveMeta_trace: "produces (saveMeta L K a) (save_trace L a)"
  unfolding saveMeta_def
  by (intro produces_intros) (auto simp: save_trace_def split: option.splits)

definition policy_run ::
  "lib \<Rightarrow> 's kube \<Rightarrow> AccessPolicy \<Rightarrow> outcome \<Rightarrow> ctrl_event list \<Rightarrow> bool" where
  "policy_run L K a out es \<longleftrightarrow>
    (let a' = fst (ensureLabels a) in
     if m_DeletionTimestamp (a_Meta a) = None then
       if \<not> ContainsFinalizer L (a_Meta a') finalizerName
       then save_trace L (a'\<lparr>a_Meta := AddFinalizer L (a_Meta a') finalizerName\<rparr>) out es
       else if snd (ensureLabels a) then save_trace L a' out es
       else live_policy_run L K a' out es
     else if \<not> ContainsFinalizer L (a_Meta a') finalizerName
     then es = [] \<and> out = Returned no_requeue None
     else finalize_policy_run L a' out es)"

lemma ensureLabels_keeps [simp]:
  "m_DeletionTimestamp (a_Meta (fst (ensureLabels a))) = m_DeletionTimestamp (a_Meta a)"
  "a_Spec (fst (ensureLabels a)) = a_Spec a" "a_Status (fst (ensureLabels a)) = a_Status a"
  "m_Namespace (a_Meta (fst (ensureLabels a))) = m_Namespace (a_Meta a)"
  "m_Generation (a_Meta (fst (ensureLabels a))) = m_Generation (a_Meta a)"
  "m_Finalizers (a_Meta (fst (ensureLabels a))) = m_Finalizers (a_Meta a)"
  by (simp_all add: ensureLabels_def Let_def split: prod.splits)

lemma AccessPolicy_Reconcile_trace:
  assumes "error_laws L"
  shows "produces (AccessPolicyReconciler_Reconcile L K R req) (\<lambda>out es.
     (\<exists>e. es = [GetAccessPolicy req (Inl e)] \<and>
        out = Returned no_requeue (if IsNotFound L e then None else Some e)) \<or>
     (\<exists>a fs. es = GetAccessPolicy req (Inr a) # fs \<and> policy_run L K a out fs))"
proof -
  have start: "\<exists>b fs. GetAccessPolicy req (Inr a) # es = GetAccessPolicy req (Inr b) # fs \<and>
      policy_run L K b out fs" if "policy_run L K a out es" for a out es
    using that by blast
  have labels: "m_DeletionTimestamp (a_Meta a') = m_DeletionTimestamp (a_Meta a)"
    if "ensureLabels a = (a', c)" for a a' c
    using ensureLabels_keeps(1) [of a] that by simp
  show ?thesis
    unfolding AccessPolicyReconciler_Reconcile_def Let_def
    by (intro produces_intros produces_mono [OF reconcileLivePolicy_trace [OF assms]]
        produces_mono [OF finalizePolicy_trace] produces_mono [OF saveMeta_trace])
      (auto simp: policy_run_def Let_def labels)
qed

section \<open>Grants, and what is reported\<close>

definition grant :: "AccessPolicy \<Rightarrow> Bucket \<Rightarrow> AccessKey \<Rightarrow> error option \<Rightarrow> ctrl_event" where
  "grant a b k x = PermissionsSet (kst_AccessKeyID (k_Status k)) (bst_BucketID (b_Status b))
     (spec_permissions (a_Spec a)) x"

definition dependency_reads :: "AccessPolicy \<Rightarrow> Bucket \<Rightarrow> AccessKey \<Rightarrow> ctrl_event list" where
  "dependency_reads a b k = [GetBucket (policy_bucket a) (Inr b), GetAccessKey (policy_key a) (Inr k)]"

text \<open>The object once both are resolved.\<close>

definition policy_bound :: "lib \<Rightarrow> Bucket \<Rightarrow> AccessKey \<Rightarrow> AccessPolicy \<Rightarrow> AccessPolicy" where
  "policy_bound L b k a = markPolicyKeyReady L (set_key_id (kst_AccessKeyID (k_Status k))
     (markPolicyBucketReady L (set_bucket_id (bst_BucketID (b_Status b)) a)))"

lemma policy_bound_simps [simp]:
  "a_Meta (policy_bound L b k a) = a_Meta a" "a_Spec (policy_bound L b k a) = a_Spec a"
  "pst_BucketID (a_Status (policy_bound L b k a)) = bst_BucketID (b_Status b)"
  "pst_AccessKeyID (a_Status (policy_bound L b k a)) = kst_AccessKeyID (k_Status k)"
  "pst_ObservedGeneration (a_Status (policy_bound L b k a)) = pst_ObservedGeneration (a_Status a)"
  by (simp_all add: policy_bound_def)

definition policy_reported :: "lib \<Rightarrow> AccessPolicy \<Rightarrow> AccessPolicy" where
  "policy_reported L a = set_ready_policy L
     (summary (part_views L (a_Conditions a) policy_parts) policy_waiting) a"

definition has_policy_parts :: "lib \<Rightarrow> AccessPolicy \<Rightarrow> bool" where
  "has_policy_parts L a \<longleftrightarrow>
     (\<forall>t \<in> fst ` set policy_parts. FindStatusCondition L (a_Conditions a) t \<noteq> None)"

lemma has_policy_parts_stat:
  "has_policy_parts L a \<longleftrightarrow> cond_stat L (a_Conditions a) PolicyBucketReady \<noteq> None \<and>
     cond_stat L (a_Conditions a) PolicyAccessKeyReady \<noteq> None \<and>
     cond_stat L (a_Conditions a) PolicyAssignmentReady \<noteq> None"
  by (simp add: has_policy_parts_def policy_parts_def find_None_stat)

lemma has_policy_parts_init: "cond_laws L \<Longrightarrow> has_policy_parts L (initializePolicyConditions L a)"
  unfolding has_policy_parts_def using policy_cond.initialized_parts by blast

definition policy_parts_true :: "lib \<Rightarrow> AccessPolicy \<Rightarrow> bool" where
  "policy_parts_true L a \<longleftrightarrow> cond_stat L (a_Conditions a) PolicyBucketReady = Some ConditionTrue \<and>
     cond_stat L (a_Conditions a) PolicyAccessKeyReady = Some ConditionTrue \<and>
     cond_stat L (a_Conditions a) PolicyAssignmentReady = Some ConditionTrue"

lemma policy_reported_simps:
  assumes L: "cond_laws L" and parts: "has_policy_parts L a"
  shows "updateAccessPolicyCondition L a = Some (policy_reported L a)"
    and "cond_stat L (a_Conditions (policy_reported L a)) Ready = Some ConditionTrue \<longleftrightarrow>
      policy_parts_true L a"
    and "policy_parts_true L a \<Longrightarrow>
      pst_ObservedGeneration (a_Status (policy_reported L a)) = a_Generation a"
    and "a_Meta (policy_reported L a) = a_Meta a" "a_Spec (policy_reported L a) = a_Spec a"
    and "pst_BucketID (a_Status (policy_reported L a)) = pst_BucketID (a_Status a)"
    and "pst_AccessKeyID (a_Status (policy_reported L a)) = pst_AccessKeyID (a_Status a)"
proof -
  let ?s = "summary (part_views L (a_Conditions a) policy_parts) policy_waiting"
  from parts have p: "\<forall>t \<in> fst ` set policy_parts. FindStatusCondition L (a_Conditions a) t \<noteq> None"
    by (simp add: has_policy_parts_def)
  show upd: "updateAccessPolicyCondition L a = Some (policy_reported L a)"
    unfolding policy_reported_def by (rule updateAccessPolicy_summary [OF p])
  have all: "(\<forall>t \<in> fst ` set policy_parts. cond_stat L (a_Conditions a) t = Some ConditionTrue) \<longleftrightarrow>
      policy_parts_true L a"
    by (auto simp: policy_parts_def policy_parts_true_def)
  show "cond_stat L (a_Conditions (policy_reported L a)) Ready = Some ConditionTrue \<longleftrightarrow>
      policy_parts_true L a"
    using policy_cond.ready_iff [OF L p upd] all by simp
  have true: "fst ?s = ConditionTrue \<longleftrightarrow> policy_parts_true L a"
    using part_views_all_true [OF p] all by (simp add: summary_true)
  show "policy_parts_true L a \<Longrightarrow>
      pst_ObservedGeneration (a_Status (policy_reported L a)) = a_Generation a"
    by (simp add: policy_reported_def set_ready_policy_simps [OF L] true)
  show "a_Meta (policy_reported L a) = a_Meta a" "a_Spec (policy_reported L a) = a_Spec a"
    "pst_BucketID (a_Status (policy_reported L a)) = pst_BucketID (a_Status a)"
    "pst_AccessKeyID (a_Status (policy_reported L a)) = pst_AccessKeyID (a_Status a)"
    by (simp_all add: policy_reported_def set_ready_policy_simps [OF L])
qed

lemma policy_bound_stat:
  assumes L: "cond_laws L"
  shows "cond_stat L (a_Conditions (policy_bound L b k a)) PolicyBucketReady = Some ConditionTrue"
    and "cond_stat L (a_Conditions (policy_bound L b k a)) PolicyAccessKeyReady = Some ConditionTrue"
    and "cond_stat L (a_Conditions (policy_bound L b k a)) PolicyAssignmentReady =
      cond_stat L (a_Conditions a) PolicyAssignmentReady"
  by (simp_all add: policy_bound_def cond_stat_view policy_mark_view [OF L])

end
