(* ===== verification/AccessPolicyExample.thy ===== *)
theory AccessPolicyExample
  imports AccessPolicyTrace BucketExample
begin

text \<open>
  Concrete runs of the AccessPolicy reconciler, on which the witnesses of its properties rest:
  a policy whose bucket and key are ready, one whose bucket is gone while Garage is
  unreachable, and one being deleted.
\<close>

section \<open>The objects\<close>

definition ex_ready :: "condition list" where
  "ex_ready = [mk_condition Ready ConditionTrue ''Available'' [] 1]"

definition ex_rbucket :: Bucket where
  "ex_rbucket = ex_new\<lparr>b_Status := (b_Status ex_new)
     \<lparr>bst_BucketID := ''id1'', bst_Conditions := ex_ready\<rparr>\<rparr>"

definition ex_ready_key :: AccessKey where
  "ex_ready_key = ex_key\<lparr>k_Status := (k_Status ex_key)
     \<lparr>kst_AccessKeyID := ''GK2'', kst_Conditions := ex_ready\<rparr>\<rparr>"

definition ex_labels :: "string \<rightharpoonup> string" where
  "ex_labels = [accesskeyLabel \<mapsto> ''key'', bucketLabel \<mapsto> ''photos'']"

definition ex_pmeta :: objmeta where
  "ex_pmeta = ex_meta\<lparr>m_Finalizers := [finalizerName], m_Labels := Some ex_labels\<rparr>"

definition ex_pol :: AccessPolicy where
  "ex_pol = ex_policy\<lparr>a_Meta := ex_pmeta\<rparr>"

text \<open>One that was in force before, and the same being deleted.\<close>

definition ex_old_pol :: AccessPolicy where
  "ex_old_pol = ex_pol\<lparr>a_Status := (a_Status ex_pol)
     \<lparr>pst_BucketID := ''id1'', pst_AccessKeyID := ''GK2''\<rparr>\<rparr>"

definition ex_del_pol :: AccessPolicy where
  "ex_del_pol = ex_old_pol\<lparr>a_Meta := ex_pmeta\<lparr>m_DeletionTimestamp := Some 5\<rparr>\<rparr>"

definition policy_kube :: "AccessPolicy \<Rightarrow> store kube" where
  "policy_kube a = store_kube ex_rbucket ex_ready_key a"

text \<open>The same cluster without the bucket.\<close>

definition no_bucket :: error where
  "no_bucket = APIError ''NotFound'' ''bucket''"

definition bare_kube :: "AccessPolicy \<Rightarrow> store kube" where
  "bare_kube a = (policy_kube a)\<lparr>kGetBucket := \<lambda>n s. (Inl no_bucket, s)\<rparr>"

definition ex_admin :: "store AccessPolicyReconciler" where
  "ex_admin = NewAccessPolicyReconciler (\<lambda>i j p s. (None, s))"

definition dead_admin :: "store AccessPolicyReconciler" where
  "dead_admin = NewAccessPolicyReconciler (\<lambda>i j p s. (Some (ErrorString ''unreachable''), s))"

lemma policy_kube_sel [simp]:
  "kGetAccessPolicy (policy_kube a) n s = (Inr a, s)"
  "kGetBucket (policy_kube a) n s = (Inr ex_rbucket, s)"
  "kGetAccessKey (policy_kube a) n s = (Inr ex_ready_key, s)"
  "kPatchAccessPolicyStatus (policy_kube a) x s = (None, s)"
  "kUpdateAccessPolicy (policy_kube a) x s = (None, s)"
  "AccessPolicyStatusEqual (policy_kube a) y z = (y = z)"
  "kGetAccessPolicy (bare_kube a) n s = (Inr a, s)"
  "kGetBucket (bare_kube a) n s = (Inl no_bucket, s)"
  "kGetAccessKey (bare_kube a) n s = (Inr ex_ready_key, s)"
  "kPatchAccessPolicyStatus (bare_kube a) x s = (None, s)"
  "AccessPolicyStatusEqual (bare_kube a) y z = (y = z)"
  by (simp_all add: policy_kube_def bare_kube_def store_kube_def)

lemma policy_kube_status_eq: "status_eq_laws (policy_kube a)" "status_eq_laws (bare_kube a)"
  by (simp_all add: policy_kube_def bare_kube_def store_kube_def status_eq_laws_def)

lemma ex_admin_sel [simp]:
  "admin_SetPermissions ex_admin i j p s = (None, s)"
  "admin_SetPermissions dead_admin i j p s = (Some (ErrorString ''unreachable''), s)"
  by (simp_all add: ex_admin_def dead_admin_def NewAccessPolicyReconciler_def)

lemma ex_pol_sel [simp]:
  "m_DeletionTimestamp ex_pmeta = None" "m_Finalizers ex_pmeta = [finalizerName]"
  "m_Labels ex_pmeta = Some ex_labels" "m_Namespace ex_pmeta = ''default''"
  "a_Meta ex_pol = ex_pmeta" "a_Spec ex_pol = a_Spec ex_policy"
  "pst_BucketID (a_Status ex_pol) = []" "pst_AccessKeyID (a_Status ex_pol) = []"
  "a_Meta ex_old_pol = ex_pmeta" "a_Spec ex_old_pol = a_Spec ex_policy"
  "pst_BucketID (a_Status ex_old_pol) = ''id1''" "pst_AccessKeyID (a_Status ex_old_pol) = ''GK2''"
  "a_Meta ex_del_pol = ex_pmeta\<lparr>m_DeletionTimestamp := Some 5\<rparr>"
  "a_Status ex_del_pol = a_Status ex_old_pol" "a_Spec ex_del_pol = a_Spec ex_policy"
  by (simp_all add: ex_pol_def ex_old_pol_def ex_del_pol_def ex_policy_def ex_pmeta_def ex_meta_def
      new_meta_def)

lemma ex_ready_sel [simp]:
  "bst_BucketID (b_Status ex_rbucket) = ''id1''" "b_Conditions ex_rbucket = ex_ready"
  "kst_AccessKeyID (k_Status ex_ready_key) = ''GK2''" "k_Conditions ex_ready_key = ex_ready"
  "ready_cond (find_cond ex_ready Ready)"
  by (simp_all add: ex_rbucket_def ex_ready_key_def ex_ready_def ready_cond_def)

lemma ex_labelled:
  assumes "m_Labels (a_Meta a) = Some ex_labels" and "a_Spec a = a_Spec ex_policy"
  shows "ensureLabels a = (a, False)"
proof -
  have "accesskeyLabel \<noteq> bucketLabel" by (simp add: accesskeyLabel_def bucketLabel_def)
  with assms show ?thesis
    by (cases a; cases "a_Meta a")
      (simp add: ensureLabels_def Let_def map_get_def ex_labels_def ex_policy_def)
qed

section \<open>The runs\<close>

definition run_policy :: "store kube \<Rightarrow> store AccessPolicyReconciler \<Rightarrow> ctrl_event list" where
  "run_policy K R = run_events (AccessPolicyReconciler_Reconcile plain_lib K R ex_req) empty_world"

definition ex_assigned :: AccessPolicy where
  "ex_assigned = policy_reported plain_lib (markPolicyAssignmentReady plain_lib
     (policy_bound plain_lib ex_rbucket ex_ready_key (initializePolicyConditions plain_lib ex_pol)))"

lemma ex_reconcile:
  "run_state (reconcilePolicy plain_lib (policy_kube a) ex_admin (initializePolicyConditions plain_lib ex_pol)) w =
   ((markPolicyAssignmentReady plain_lib
      (policy_bound plain_lib ex_rbucket ex_ready_key (initializePolicyConditions plain_lib ex_pol)), None),
    w\<lparr>log := log w @ dependency_reads ex_pol ex_rbucket ex_ready_key @ [grant ex_pol ex_rbucket ex_ready_key None]\<rparr>)"
  by (cases w) (simp add: reconcilePolicy_def resolveBucket_def resolveAccessKey_def checkBucket_def checkAccessKey_def
      run_eval Let_def assignPermissions_def setPermissions_def dependency_reads_def grant_def
      policy_bound_def set_bucket_id_def set_key_id_def policy_bucket_def policy_key_def)

lemma ex_assigned_parts:
  "has_policy_parts L (markPolicyAssignmentReady L (policy_bound L b k a))" if "cond_laws L"
  by (simp add: has_policy_parts_stat policy_bound_def cond_stat_view policy_mark_view [OF that])

lemma ex_assigned_update:
  "updateAccessPolicyCondition plain_lib (markPolicyAssignmentReady plain_lib
     (policy_bound plain_lib ex_rbucket ex_ready_key (initializePolicyConditions plain_lib ex_pol))) =
   Some ex_assigned"
  unfolding ex_assigned_def
  by (rule policy_reported_simps(1) [OF plain_lib_cond_laws ex_assigned_parts [OF plain_lib_cond_laws]])

lemma ex_assigned_changes: "a_Status ex_pol \<noteq> a_Status ex_assigned"
proof -
  have "pst_BucketID (a_Status ex_pol) \<noteq> pst_BucketID (a_Status ex_assigned)"
    unfolding ex_assigned_def
    by (subst policy_reported_simps(6) [OF plain_lib_cond_laws ex_assigned_parts [OF plain_lib_cond_laws]])
      simp
  then show ?thesis by metis
qed

text \<open>The permissions are assigned and reported.\<close>

lemma ex_assigned_run:
  "run_state (AccessPolicyReconciler_Reconcile plain_lib (policy_kube ex_pol) ex_admin ex_req) empty_world =
    (Returned no_requeue None, empty_world\<lparr>log := log empty_world @ GetAccessPolicy ex_req (Inr ex_pol) #
      dependency_reads ex_pol ex_rbucket ex_ready_key @
      [grant ex_pol ex_rbucket ex_ready_key None, PatchAccessPolicyStatus ex_assigned None]\<rparr>)"
  by (simp add: AccessPolicyReconciler_Reconcile_def run_eval Let_def ex_labelled reconcileLivePolicy_def
      ex_reconcile ex_assigned_update finishPolicy_def policyResult_def ex_assigned_changes)

lemma ex_assigned_events:
  "run_policy (policy_kube ex_pol) ex_admin = GetAccessPolicy ex_req (Inr ex_pol) #
    dependency_reads ex_pol ex_rbucket ex_ready_key @
      grant ex_pol ex_rbucket ex_ready_key None # [PatchAccessPolicyStatus ex_assigned None]"
  unfolding run_policy_def run_events_def new_events_def ex_assigned_run by (simp add: empty_world_def)

text \<open>The deletion revokes, and then drops the finalizer.\<close>

lemma ex_deleted_policy_events:
  "run_policy (policy_kube ex_del_pol) ex_admin = GetAccessPolicy ex_req (Inr ex_del_pol) #
    [revocation ex_del_pol None] @
    UpdateAccessPolicy (policy_unfinalized plain_lib (fst (ensureLabels ex_del_pol))) None # []"
  by (simp add: run_policy_def run_events_def new_events_def AccessPolicyReconciler_Reconcile_def run_eval
      Let_def ex_labelled finalizePolicy_def setPermissions_def releasePolicy_def policy_unfinalized_def
      revocation_def policy_kube_def store_kube_def empty_world_def)

text \<open>The bucket is gone, and Garage cannot be reached.\<close>

definition ex_lost :: "AccessPolicy \<Rightarrow> AccessPolicy" where
  "ex_lost a = markPolicyKeyReady plain_lib (set_key_id ''GK2'' (set_bucket_id []
     (markPolicyConditionNotReady plain_lib (initializePolicyConditions plain_lib a) PolicyBucketReady
        ReasonBucketMissing (''Bucket not found in namespace: '' @ errmsg no_bucket))))"

lemma ex_lost_reconcile:
  "run_state (reconcilePolicy plain_lib (bare_kube ex_old_pol) dead_admin
      (initializePolicyConditions plain_lib ex_old_pol)) w =
   ((ex_lost ex_old_pol,
      Some (Joined [wrap (''retrieve bucket '' @ ps_Bucket (a_Spec ex_policy) @ '': '') no_bucket])),
    w\<lparr>log := log w @ [GetBucket (policy_bucket ex_old_pol) (Inl no_bucket),
      revocation ex_old_pol (Some (ErrorString ''unreachable'')),
      GetAccessKey (policy_key ex_old_pol) (Inr ex_ready_key)]\<rparr>)"
  by (cases w) (simp add: reconcilePolicy_def resolveBucket_def resolveAccessKey_def checkBucket_def
      checkAccessKey_def run_eval Let_def setPermissions_def ex_lost_def set_bucket_id_def
      set_key_id_def policy_bucket_def policy_key_def revocation_def no_bucket_def)

definition ex_lost_status :: AccessPolicy where
  "ex_lost_status = policy_reported plain_lib (ex_lost ex_old_pol)"

lemma ex_lost_parts: "has_policy_parts plain_lib (ex_lost a)"
  using has_policy_parts_init [OF plain_lib_cond_laws, of a]
  by (simp add: has_policy_parts_stat ex_lost_def cond_stat_view policy_mark_view [OF plain_lib_cond_laws])

lemma ex_lost_update: "updateAccessPolicyCondition plain_lib (ex_lost ex_old_pol) = Some ex_lost_status"
  unfolding ex_lost_status_def by (rule policy_reported_simps(1) [OF plain_lib_cond_laws ex_lost_parts])

lemma ex_lost_changes: "a_Status ex_old_pol \<noteq> a_Status ex_lost_status"
proof -
  have "pst_BucketID (a_Status ex_old_pol) \<noteq> pst_BucketID (a_Status ex_lost_status)"
    unfolding ex_lost_status_def
    by (subst policy_reported_simps(6) [OF plain_lib_cond_laws ex_lost_parts]) (simp add: ex_lost_def)
  then show ?thesis by metis
qed

lemma ex_lost_run:
  "run_state (AccessPolicyReconciler_Reconcile plain_lib (bare_kube ex_old_pol) dead_admin ex_req) empty_world =
    (Returned \<lparr>RequeueAfter = 15 * 1000000000\<rparr> None,
     empty_world\<lparr>log := log empty_world @ GetAccessPolicy ex_req (Inr ex_old_pol) #
      [GetBucket (policy_bucket ex_old_pol) (Inl no_bucket),
      revocation ex_old_pol (Some (ErrorString ''unreachable'')),
      GetAccessKey (policy_key ex_old_pol) (Inr ex_ready_key),
      PatchAccessPolicyStatus ex_lost_status None]\<rparr>)"
  by (simp add: AccessPolicyReconciler_Reconcile_def run_eval Let_def ex_labelled reconcileLivePolicy_def
      ex_lost_reconcile ex_lost_update finishPolicy_def policyResult_def ex_lost_changes no_bucket_def)

lemma ex_lost_events:
  "run_policy (bare_kube ex_old_pol) dead_admin = GetAccessPolicy ex_req (Inr ex_old_pol) #
      [GetBucket (policy_bucket ex_old_pol) (Inl no_bucket),
      revocation ex_old_pol (Some (ErrorString ''unreachable'')),
      GetAccessKey (policy_key ex_old_pol) (Inr ex_ready_key),
      PatchAccessPolicyStatus ex_lost_status None]"
  unfolding run_policy_def run_events_def new_events_def ex_lost_run by (simp add: empty_world_def)

end
