(* ===== verification/AccessPolicyProps.thy ===== *)
theory AccessPolicyProps
  imports AccessPolicyExample
begin

text \<open>
  Properties of the AccessPolicy reconciler: who is granted what and when, how a grant is
  taken back, what \<open>Ready\<close> stands for, and when the reconciler runs again.
\<close>

section \<open>Labels\<close>

lemma ensureLabels_labels:
  "label_get (m_Labels (a_Meta (fst (ensureLabels a)))) accesskeyLabel = ps_AccessKey (a_Spec a)"
  "label_get (m_Labels (a_Meta (fst (ensureLabels a)))) bucketLabel = ps_Bucket (a_Spec a)"
  "l \<noteq> accesskeyLabel \<Longrightarrow> l \<noteq> bucketLabel \<Longrightarrow>
     label_get (m_Labels (a_Meta (fst (ensureLabels a)))) l = label_get (m_Labels (a_Meta a)) l"
  "snd (ensureLabels a) \<longleftrightarrow>
     label_get (m_Labels (a_Meta a)) accesskeyLabel \<noteq> ps_AccessKey (a_Spec a) \<or>
     label_get (m_Labels (a_Meta a)) bucketLabel \<noteq> ps_Bucket (a_Spec a)"
proof -
  have "accesskeyLabel \<noteq> bucketLabel" by (simp add: accesskeyLabel_def bucketLabel_def)
  then show "label_get (m_Labels (a_Meta (fst (ensureLabels a)))) accesskeyLabel = ps_AccessKey (a_Spec a)"
    "label_get (m_Labels (a_Meta (fst (ensureLabels a)))) bucketLabel = ps_Bucket (a_Spec a)"
    "l \<noteq> accesskeyLabel \<Longrightarrow> l \<noteq> bucketLabel \<Longrightarrow>
       label_get (m_Labels (a_Meta (fst (ensureLabels a)))) l = label_get (m_Labels (a_Meta a)) l"
    "snd (ensureLabels a) \<longleftrightarrow>
       label_get (m_Labels (a_Meta a)) accesskeyLabel \<noteq> ps_AccessKey (a_Spec a) \<or>
       label_get (m_Labels (a_Meta a)) bucketLabel \<noteq> ps_Bucket (a_Spec a)"
    by (auto simp: ensureLabels_def Let_def label_get_def map_get_def split: option.splits)
qed

text \<open>What the watch on a bucket or key asks for: the policies of its namespace with its name
  under the label.\<close>

definition selected :: "string \<Rightarrow> string \<times> string \<Rightarrow> AccessPolicy \<Rightarrow> bool" where
  "selected ns sel a \<longleftrightarrow> m_Namespace (a_Meta a) = ns \<and> (\<exists>ls. m_Labels (a_Meta a) = Some ls \<and>
     ls (fst sel) = Some (snd sel))"

text \<open>A list call answers with the selected objects of a cluster.\<close>

definition list_laws :: "('s \<Rightarrow> AccessPolicy list) \<Rightarrow> 's kube \<Rightarrow> bool" where
  "list_laws view K \<longleftrightarrow> (\<forall>ns sel s items s'. kListAccessPolicies K ns sel s = (Inr items, s') \<longrightarrow>
     set items = {a \<in> set (view s). selected ns sel a})"

lemma selected_label:
  "v \<noteq> [] \<Longrightarrow> selected ns (l, v) a \<longleftrightarrow> m_Namespace (a_Meta a) = ns \<and> label_get (m_Labels (a_Meta a)) l = v"
  by (auto simp: selected_def label_get_def map_get_def split: option.splits)

text \<open>
  C40: a change of a bucket or a key reaches the policies that name it: \<open>ensureLabels\<close> gives a
  policy exactly the two labels of its spec, whatever it had before, and finds nothing left to
  change afterwards; and when the cluster holds the labelled policy and the list succeeds,
  a change of its bucket, of its key and of the policy itself all ask for its reconciliation.
\<close>

theorem policy_watched:
  assumes K: "list_laws view K" and c: "a = fst (ensureLabels c)" "a \<in> set (view (ext w))"
    and b: "m_Namespace (b_Meta b) = m_Namespace (a_Meta c)" "m_Name (b_Meta b) = ps_Bucket (a_Spec c)"
      "ps_Bucket (a_Spec c) \<noteq> []"
    and k: "m_Namespace (k_Meta k) = m_Namespace (a_Meta c)" "m_Name (k_Meta k) = ps_AccessKey (a_Spec c)"
      "ps_AccessKey (a_Spec c) \<noteq> []"
    and ok: "kListAccessPolicies K (m_Namespace (a_Meta c)) (bucketLabel, ps_Bucket (a_Spec c)) (ext w)
        = (Inr bs, s1)"
      "kListAccessPolicies K (m_Namespace (a_Meta c)) (accesskeyLabel, ps_AccessKey (a_Spec c)) (ext w)
        = (Inr ks, s2)"
  shows "(\<forall>ch \<in> {AccessPolicyChanged a, BucketChanged b, AccessKeyChanged k}.
      (m_Namespace (a_Meta a), m_Name (a_Meta a)) \<in>
        set (fst (run_state (AccessPolicyReconciler_SetupWithManager K ch) w))) \<and>
    \<not> snd (ensureLabels a)"
proof -
  have labels: "label_get (m_Labels (a_Meta a)) accesskeyLabel = ps_AccessKey (a_Spec c)"
    "label_get (m_Labels (a_Meta a)) bucketLabel = ps_Bucket (a_Spec c)"
    "m_Namespace (a_Meta a) = m_Namespace (a_Meta c)" "a_Spec a = a_Spec c"
    by (simp_all add: c(1) ensureLabels_labels)
  have "a \<in> set bs" using K ok(1) c(2) labels b(3)
    unfolding list_laws_def by (fastforce simp: selected_label)
  moreover have "a \<in> set ks" using K ok(2) c(2) labels k(3)
    unfolding list_laws_def by (fastforce simp: selected_label)
  ultimately show ?thesis
    using b k ok labels
    by (auto simp: AccessPolicyReconciler_SetupWithManager_def own_request_def findPoliciesForBucket_def findPoliciesForAccessKey_def run_eval Let_def
        policyRequests_def ensureLabels_labels(4) intro: rev_image_eqI)
qed

section \<open>Shared steps of the proofs\<close>

lemma Policy_run:
  assumes "error_laws L" and "run_state (AccessPolicyReconciler_Reconcile L K R req) w = (out, w')"
    and "new_events w w' = GetAccessPolicy req (Inr a) # es"
  shows "policy_run L K a out es"
  using produces_run [OF AccessPolicy_Reconcile_trace [OF assms(1)] assms(2)] assms(3) by auto

text \<open>A policy the reconciler works on: not being deleted, with its finalizer and labels.\<close>

definition settled_meta :: "lib \<Rightarrow> AccessPolicy \<Rightarrow> bool" where
  "settled_meta L a \<longleftrightarrow> m_DeletionTimestamp (a_Meta a) = None \<and>
     ContainsFinalizer L (a_Meta (fst (ensureLabels a))) finalizerName \<and> \<not> snd (ensureLabels a)"

lemma policy_runE:
  assumes "policy_run L K a out es"
  obtains (live) "settled_meta L a" "live_policy_run L K (fst (ensureLabels a)) out es"
  | (meta) a' where "m_DeletionTimestamp (a_Meta a) = None" "\<not> settled_meta L a" "save_trace L a' out es"
      "a' = fst (ensureLabels a) \<and>
         ContainsFinalizer L (a_Meta (fst (ensureLabels a))) finalizerName \<or>
       a' = (fst (ensureLabels a))
         \<lparr>a_Meta := AddFinalizer L (a_Meta (fst (ensureLabels a))) finalizerName\<rparr>"
  | (finalize) "m_DeletionTimestamp (a_Meta a) \<noteq> None"
      "finalize_policy_run L (fst (ensureLabels a)) out es"
  | (idle) "es = []" "out = Returned no_requeue None"
  using assms unfolding policy_run_def Let_def settled_meta_def
  by (auto split: if_splits)

lemma bucket_dep_init [simp]:
  "policy_bucket (initializePolicyConditions L a) = policy_bucket a"
  "policy_key (initializePolicyConditions L a) = policy_key a"
  "policy_bucket (fst (ensureLabels a)) = policy_bucket a"
  "policy_key (fst (ensureLabels a)) = policy_key a"
  "policy_key (markPolicyBucketReady L a) = policy_key a" "policy_key (set_bucket_id i a) = policy_key a"
  by (simp_all add: policy_bucket_def policy_key_def)

lemma frame_names:
  "policy_frame a b \<Longrightarrow> policy_key b = policy_key a \<and> policy_bucket b = policy_bucket a \<and> a_Spec b = a_Spec a"
  by (simp add: policy_frame_def policy_key_def policy_bucket_def)

text \<open>The evidence for a grant: both dependencies were read and are ready.\<close>

definition dependencies_ready ::
  "lib \<Rightarrow> AccessPolicy \<Rightarrow> Bucket \<Rightarrow> AccessKey \<Rightarrow> ctrl_event list \<Rightarrow> bool" where
  "dependencies_ready L a b k es \<longleftrightarrow>
     GetBucket (policy_bucket a) (Inr b) \<in> set es \<and>
     ready_cond (FindStatusCondition L (b_Conditions b) Ready) \<and>
     GetAccessKey (policy_key a) (Inr k) \<in> set es \<and>
     ready_cond (FindStatusCondition L (k_Conditions k) Ready)"

text \<open>The three shapes of the work: assigned, refused by Garage, or not got to.\<close>

lemma policy_traceE:
  assumes "policy_trace L a a' err es"
  obtains (assigned) b k where "es = dependency_reads a b k @ [grant a b k None]" "err = None"
      "dependencies_ready L a b k (dependency_reads a b k)"
      "a' = markPolicyAssignmentReady L (policy_bound L b k a)"
  | (refused) b k e m m' m'' where
      "es = dependency_reads a b k @
         [grant a b k (Some e), Eventf EventTypeWarning ReasonPolicyAssignmentFailed m]"
      "err = Some (wrap m' e)" "dependencies_ready L a b k (dependency_reads a b k)"
      "a' = markPolicyConditionNotReady L (policy_bound L b k a)
         PolicyAssignmentReady ReasonPolicyAssignmentFailed m''"
  | (unresolved) a1 rb rk es1 es2 where "es = es1 @ es2" "bucket_dep.dep_trace L a a1 rb es1"
      "key_dep.dep_trace L a1 a' rk es2" "(\<exists>e. rb = Inl e) \<or> (\<exists>e. rk = Inl e)"
      "err = Some (Joined ((case rb of Inl e \<Rightarrow> [e] | Inr b \<Rightarrow> []) @ (case rk of Inl e \<Rightarrow> [e] | Inr k \<Rightarrow> [])))"
proof -
  from assms obtain a1 a2 rb rk es1 es2 es3 where es: "es = es1 @ es2 @ es3"
    and b: "bucket_dep.dep_trace L a a1 rb es1" and k: "key_dep.dep_trace L a1 a2 rk es2"
    and rest: "case (rb, rk) of
           (Inr b, Inr k) \<Rightarrow> assign_trace L a2 k b a' err es3
         | (Inl e, Inr k) \<Rightarrow> es3 = [] \<and> a' = a2 \<and> err = Some (Joined [e])
         | (Inr b, Inl e') \<Rightarrow> es3 = [] \<and> a' = a2 \<and> err = Some (Joined [e'])
         | (Inl e, Inl e') \<Rightarrow> es3 = [] \<and> a' = a2 \<and> err = Some (Joined [e, e'])"
    unfolding policy_trace_def by blast
  show thesis
  proof (cases "(\<exists>e. rb = Inl e) \<or> (\<exists>e. rk = Inl e)")
    case True
    with rest have "es3 = []" "a' = a2" and "err = Some (Joined ((case rb of Inl e \<Rightarrow> [e] | Inr b \<Rightarrow> []) @
        (case rk of Inl e \<Rightarrow> [e] | Inr k \<Rightarrow> [])))"
      by (auto split: sum.splits)
    with True es b k unresolved show thesis by simp
  next
    case False
    then obtain bk ak where r: "rb = Inr bk" "rk = Inr ak" by (cases rb; cases rk) auto
    with rest have asg: "assign_trace L a2 ak bk a' err es3" by simp
    from b r have b': "es1 = [GetBucket (policy_bucket a) (Inr bk)]"
      "ready_cond (FindStatusCondition L (b_Conditions bk) Ready)"
      "a1 = markPolicyBucketReady L (set_bucket_id (bst_BucketID (b_Status bk)) a)"
      by (cases rule: bucket_dep.dep_traceE; simp)+
    from k r have k': "es2 = [GetAccessKey (policy_key a1) (Inr ak)]"
      "ready_cond (FindStatusCondition L (k_Conditions ak) Ready)"
      "a2 = markPolicyKeyReady L (set_key_id (kst_AccessKeyID (k_Status ak)) a1)"
      by (cases rule: key_dep.dep_traceE; simp)+
    have a2: "a2 = policy_bound L bk ak a" by (simp add: b'(3) k'(3) policy_bound_def)
    have reads: "es1 @ es2 = dependency_reads a bk ak"
      by (simp add: b' k'(1) dependency_reads_def)
    then have dr: "dependencies_ready L a bk ak (dependency_reads a bk ak)"
      using b'(2) k'(2) by (simp add: dependencies_ready_def dependency_reads_def)
    have es': "es = dependency_reads a bk ak @ es3" using es reads by (metis append.assoc)
    from asg show thesis
      unfolding assign_trace_def Let_def a2 using es' dr assigned [of bk ak] refused [of bk ak]
      by (auto simp: grant_def)
  qed
qed

section \<open>Grants are earned\<close>

lemma no_grant:
  "bucket_dep.dep_trace L a a' rb es \<Longrightarrow> PermissionsSet i j p x \<in> set es \<Longrightarrow> p = no_permissions"
  "key_dep.dep_trace L a a' rk es \<Longrightarrow> PermissionsSet i j p x \<in> set es \<Longrightarrow> p = no_permissions"
  using bucket_dep.dep_permissions [of L a a' rb es i j p x]
    key_dep.dep_permissions [of L a a' rk es i j p x]
  by (simp_all add: revocation_def)

lemma policy_finish_events:
  "policy_finish L K orig a err out es \<Longrightarrow> e \<in> set es \<Longrightarrow> \<exists>p. e = PatchAccessPolicyStatus a p \<and> es = [e]"
  by (auto simp: policy_finish_def split: prod.splits)

text \<open>Between reading the policy and patching its status.\<close>

fun policy_step :: "ctrl_event \<Rightarrow> bool" where
  "policy_step (GetBucket n r) = True"
| "policy_step (GetAccessKey n r) = True"
| "policy_step (PermissionsSet i j p r) = True"
| "policy_step (Eventf t r m) = True"
| "policy_step e = False"

lemma work_steps:
  assumes "policy_trace L a a' err es"
  shows "list_all policy_step es"
proof -
  have b: "list_all policy_step es" if "bucket_dep.dep_trace L a a1 rb es" for a a1 rb es
    using that by (cases rule: bucket_dep.dep_traceE) (auto simp: revocation_def split: if_splits)
  have k: "list_all policy_step es" if "key_dep.dep_trace L a a1 rk es" for a a1 rk es
    using that by (cases rule: key_dep.dep_traceE) (auto simp: revocation_def split: if_splits)
  from assms show ?thesis
  proof (cases rule: policy_traceE)
    case (unresolved a1 rb rk es1 es2)
    with b k show ?thesis by simp
  qed (auto simp: grant_def dependency_reads_def)
qed

lemma live_policy_events:
  assumes "live_policy_run L K a out es"
  obtains a1 err es1 es2 where "es = es1 @ es2"
    and "policy_trace L (initializePolicyConditions L a) a1 err es1"
    and "\<forall>e \<in> set es2. \<exists>b p. e = PatchAccessPolicyStatus b p"
proof -
  from assms obtain a1 err es1 es2 where "es = es1 @ es2"
    and "policy_trace L (initializePolicyConditions L a) a1 err es1"
    and fin: "case updateAccessPolicyCondition L a1 of
           None \<Rightarrow> out = Panicked \<and> es2 = []
         | Some a2 \<Rightarrow> policy_finish L K (a_Status a) a2 err out es2"
    unfolding live_policy_run_def by blast
  moreover from fin have "\<forall>e \<in> set es2. \<exists>b p. e = PatchAccessPolicyStatus b p"
    by (auto split: option.splits dest: policy_finish_events)
  ultimately show thesis by (intro that)
qed

lemma work_grant:
  assumes "policy_trace L a a' err es" and "es = pre @ PermissionsSet i j p x # post"
    and "p \<noteq> no_permissions"
  shows "\<exists>b k. dependencies_ready L a b k pre \<and> PermissionsSet i j p x = grant a b k x"
  using assms(1)
proof (cases rule: policy_traceE)
  case (assigned b k)
  have "PermissionsSet i j p x \<notin> set (dependency_reads a b k)" by (simp add: dependency_reads_def)
  with split_after [OF assigned(1) [unfolded assms(2), symmetric]]
  have "pre = dependency_reads a b k" "PermissionsSet i j p x = grant a b k None" by auto
  with assigned(3) show ?thesis by (auto simp: grant_def)
next
  case (refused b k e m)
  have "PermissionsSet i j p x \<notin> set (dependency_reads a b k)" by (simp add: dependency_reads_def)
  with split_after [OF refused(1) [unfolded assms(2), symmetric]]
  have "pre = dependency_reads a b k" "PermissionsSet i j p x = grant a b k (Some e)" by auto
  with refused(3) show ?thesis by (auto simp: grant_def)
next
  case (unresolved a1 rb rk es1 es2)
  have "PermissionsSet i j p x \<in> set es1 \<union> set es2"
    using assms(2) unresolved(1) by (metis in_set_conv_decomp set_append)
  with no_grant(1) [OF unresolved(2)] no_grant(2) [OF unresolved(3)] assms(3) show ?thesis by blast
qed

lemma work_frame_policy:
  assumes "policy_trace L a a' err es"
  shows "policy_frame a a'"
  using assms
proof (cases rule: policy_traceE)
  case (unresolved a1 rb rk es1 es2)
  from policy_frame_trans [OF bucket_dep.dep_frame [OF unresolved(2)] key_dep.dep_frame [OF unresolved(3)]]
  show ?thesis .
qed (simp_all add: policy_frame_def)

lemma dependencies_ready_same [simp]:
  "dependencies_ready L (initializePolicyConditions L a) = dependencies_ready L a"
  "dependencies_ready L (fst (ensureLabels a)) = dependencies_ready L a"
  "grant (initializePolicyConditions L a) = grant a" "grant (fst (ensureLabels a)) = grant a"
  by (simp_all add: dependencies_ready_def grant_def fun_eq_iff)

lemma dependencies_ready_mono:
  "dependencies_ready L a b k es \<Longrightarrow> set es \<subseteq> set fs \<Longrightarrow> dependencies_ready L a b k fs"
  unfolding dependencies_ready_def by blast

text \<open>
  Access is only granted as the policy says, to resources that are there: whenever a run
  sets permissions that are not empty, it has just read the bucket and the access key the
  policy names, in the policy's own namespace, both with the condition \<open>Ready\<close> true; the
  call names the bucket ID and key ID of their statuses and exactly the permissions of the
  spec; and the policy is not being deleted, carries its finalizer (so the grant can be taken
  back) and the labels that make the watches find it.
\<close>

theorem policy_grants_earned:
  assumes E: "error_laws L"
    and run: "run_state (AccessPolicyReconciler_Reconcile L K R req) w = (out, w')"
    and ev: "new_events w w' = GetAccessPolicy req (Inr a) # pre @ PermissionsSet i j p x # post"
    and p: "p \<noteq> no_permissions"
  shows "settled_meta L a \<and>
    (\<exists>b k. dependencies_ready L a b k pre \<and> PermissionsSet i j p x = grant a b k x)"
  using Policy_run [OF E run ev]
proof (cases rule: policy_runE)
  case live
  let ?g = "PermissionsSet i j p x"
  from live(2) obtain a1 err es1 es2 where es: "pre @ ?g # post = es1 @ es2"
    and work: "policy_trace L (initializePolicyConditions L (fst (ensureLabels a))) a1 err es1"
    and es2: "\<forall>e \<in> set es2. \<exists>b p. e = PatchAccessPolicyStatus b p"
    by (rule live_policy_events)
  from es2 have "?g \<notin> set es2" by blast
  with es obtain post' where es1: "es1 = pre @ ?g # post'"
    by (auto simp: append_eq_append_conv2 append_eq_Cons_conv Cons_eq_append_conv)
  from work_grant [OF work es1 p] live(1) show ?thesis by simp
next
  case meta
  then show ?thesis by (auto simp: save_trace_def)
next
  case finalize
  then show ?thesis
    using p by (auto simp: finalize_policy_run_def revocation_def Cons_eq_append_conv append_eq_Cons_conv
        split: if_splits)
next
  case idle
  then show ?thesis by simp
qed

section \<open>Deletion takes them back\<close>

lemma added_finalizer: "finalizer_laws L \<Longrightarrow> ContainsFinalizer L (AddFinalizer L m f) f"
proof -
  assume F: "finalizer_laws L"
  then obtain fs where "AddFinalizer L m f = m\<lparr>m_Finalizers := fs\<rparr>" "set fs = insert f (set (m_Finalizers m))"
    unfolding finalizer_laws_def by blast
  with F show ?thesis by (simp add: finalizer_laws_def)
qed

lemma released_policy:
  assumes E: "error_laws L" and F: "finalizer_laws L"
    and run: "run_state (AccessPolicyReconciler_Reconcile L K R req) w = (out, w')"
    and ev: "new_events w w' = GetAccessPolicy req (Inr a) # pre @ UpdateAccessPolicy a' r # post"
    and dropped: "\<not> ContainsFinalizer L (a_Meta a') finalizerName"
  shows "m_DeletionTimestamp (a_Meta a) \<noteq> None \<and>
    a' = policy_unfinalized L (fst (ensureLabels a)) \<and> post = [] \<and>
    (if bound a then \<exists>x. pre = [revocation a x] \<and> revoked x else pre = [])"
  using Policy_run [OF E run ev]
proof (cases rule: policy_runE)
  case live
  let ?u = "UpdateAccessPolicy a' r"
  from live(2) obtain a1 err es1 es2 where es: "pre @ ?u # post = es1 @ es2"
    and work: "policy_trace L (initializePolicyConditions L (fst (ensureLabels a))) a1 err es1"
    and es2: "\<forall>e \<in> set es2. \<exists>b p. e = PatchAccessPolicyStatus b p"
    by (rule live_policy_events)
  have "?u \<notin> set es1" "?u \<notin> set es2"
    using work_steps [OF work] es2 by (auto simp: list_all_iff)
  moreover have "?u \<in> set es1 \<union> set es2" using es by (metis in_set_conv_decomp set_append)
  ultimately show ?thesis by blast
next
  case (meta b)
  with dropped added_finalizer [OF F] show ?thesis by (auto simp: save_trace_def)
next
  case finalize
  then show ?thesis
    by (auto simp: finalize_policy_run_def revocation_def bound_def Cons_eq_append_conv
        append_eq_Cons_conv split: if_splits)
next
  case idle
  then show ?thesis by simp
qed

text \<open>
  the finalizer keeps the policy until its grant is gone: an update that drops the
  finalizer is sent only for a policy being deleted, changes nothing but the finalizer and
  the labels, is the last call of the run, and, when the status records both a key and a
  bucket, comes right after all permissions of that key on that bucket were set to none
  without error, or Garage reported one of the two missing.
\<close>

theorem policy_finalizer_revokes:
  assumes E: "error_laws L" and F: "finalizer_laws L"
    and run: "run_state (AccessPolicyReconciler_Reconcile L K R req) w = (out, w')"
    and ev: "new_events w w' = GetAccessPolicy req (Inr a) # pre @ UpdateAccessPolicy a' r # post"
    and dropped: "\<not> ContainsFinalizer L (a_Meta a') finalizerName"
  shows "m_DeletionTimestamp (a_Meta a) \<noteq> None \<and>
    a' = policy_unfinalized L (fst (ensureLabels a)) \<and> post = [] \<and>
    (if bound a then \<exists>x. pre = [revocation a x] \<and> revoked x else pre = [])"
  by (rule released_policy [OF E F run ev dropped])

section \<open>What \<open>Ready\<close> stands for\<close>

text \<open>A read that failed without saying that the object is gone.\<close>

definition unclear_read :: "lib \<Rightarrow> ctrl_event list \<Rightarrow> bool" where
  "unclear_read L es \<longleftrightarrow> (\<exists>n e. \<not> IsNotFound L e \<and>
     (GetBucket n (Inl e) \<in> set es \<or> GetAccessKey n (Inl e) \<in> set es))"

definition assigned :: "lib \<Rightarrow> AccessPolicy \<Rightarrow> Bucket \<Rightarrow> AccessKey \<Rightarrow> ctrl_event list \<Rightarrow> bool" where
  "assigned L a b k es \<longleftrightarrow> dependencies_ready L a b k es \<and> grant a b k None \<in> set es"

lemma dep_false:
  assumes L: "cond_laws L" and b: "bucket_dep.dep_trace L a a1 rb es1"
    and k: "key_dep.dep_trace L a1 a2 rk es2" and un: "(\<exists>e. rb = Inl e) \<or> (\<exists>e. rk = Inl e)"
    and clear: "\<not> unclear_read L (es1 @ es2)" and a: "has_policy_parts L a"
  shows "\<not> policy_parts_true L a2"
proof -
  note marks = policy_mark_view [OF L]
  have pb: "cond_stat L (a_Conditions a) PolicyBucketReady \<noteq> None"
    and pk: "cond_stat L (a_Conditions a) PolicyAccessKeyReady \<noteq> None"
    using a by (simp_all add: has_policy_parts_stat)
  have "cond_view L (a_Conditions a1) PolicyAccessKeyReady = cond_view L (a_Conditions a) PolicyAccessKeyReady"
    by (rule bucket_dep.dep_stat(3) [OF L b pb]) simp
  with pk have pk1: "cond_stat L (a_Conditions a1) PolicyAccessKeyReady \<noteq> None"
    by (simp add: cond_stat_view)
  have keep: "cond_view L (a_Conditions a2) PolicyBucketReady = cond_view L (a_Conditions a1) PolicyBucketReady"
    by (rule key_dep.dep_stat(3) [OF L k pk1]) simp
  have fb: "cond_stat L (a_Conditions a1) PolicyBucketReady = Some ConditionFalse" if "rb = Inl e" for e
    using b
  proof (cases rule: bucket_dep.dep_traceE)
    case (unclear e1 e2)
    then have "unclear_read L (es1 @ es2)"
      unfolding unclear_read_def by (intro exI [of _ "policy_bucket a"] exI [of _ e1]) simp
    with clear show ?thesis by blast
  qed (use that in \<open>simp_all add: cond_stat_view marks\<close>)
  have fk: "cond_stat L (a_Conditions a2) PolicyAccessKeyReady = Some ConditionFalse" if "rk = Inl e" for e
    using k
  proof (cases rule: key_dep.dep_traceE)
    case (unclear e1 e2)
    then have "unclear_read L (es1 @ es2)"
      unfolding unclear_read_def by (intro exI [of _ "policy_key a1"] exI [of _ e1]) simp
    with clear show ?thesis by blast
  qed (use that in \<open>simp_all add: cond_stat_view marks\<close>)
  from un show ?thesis
  proof (elim disjE exE)
    fix e assume "rb = Inl e"
    from fb [OF this] keep show ?thesis by (auto simp: policy_parts_true_def cond_stat_view)
  next
    fix e assume "rk = Inl e"
    from fk [OF this] show ?thesis by (simp add: policy_parts_true_def)
  qed
qed

lemma dep_parts:
  assumes L: "cond_laws L" and b: "bucket_dep.dep_trace L a a1 rb es1"
    and k: "key_dep.dep_trace L a1 a2 rk es2" and a: "has_policy_parts L a"
  shows "has_policy_parts L a2"
proof -
  have p: "cond_stat L (a_Conditions a) PolicyBucketReady \<noteq> None"
    "cond_stat L (a_Conditions a) PolicyAccessKeyReady \<noteq> None"
    "cond_stat L (a_Conditions a) PolicyAssignmentReady \<noteq> None"
    using a by (simp_all add: has_policy_parts_stat)
  note bs = bucket_dep.dep_stat [OF L b p(1)]
  have pk1: "cond_stat L (a_Conditions a1) PolicyAccessKeyReady \<noteq> None"
    using bs(3) [of PolicyAccessKeyReady] p(2) by (simp add: cond_stat_view)
  note ks = key_dep.dep_stat [OF L k pk1]
  show ?thesis
    using bs(1) ks(1) p ks(3) [of PolicyBucketReady] ks(3) [of PolicyAssignmentReady]
      bs(3) [of PolicyAssignmentReady]
    by (simp add: has_policy_parts_stat cond_stat_view)
qed

lemma work_parts:
  assumes L: "cond_laws L" and work: "policy_trace L a a' err es" and a: "has_policy_parts L a"
  shows "has_policy_parts L a'"
  using work
proof (cases rule: policy_traceE)
  case (unresolved a1 rb rk es1 es2)
  from dep_parts [OF L unresolved(2,3) a] show ?thesis .
qed (use a in \<open>simp_all add: has_policy_parts_stat cond_stat_view policy_mark_view [OF L] policy_bound_def\<close>)

text \<open>A live run under the laws of the condition functions, to its end.\<close>

lemma live_policy_runE:
  assumes L: "cond_laws L" and "live_policy_run L K a out es"
  obtains a1 err es1 es2 where "es = es1 @ es2"
    and "policy_trace L (initializePolicyConditions L a) a1 err es1" and "has_policy_parts L a1"
    and "policy_finish L K (a_Status a) (policy_reported L a1) err out es2"
proof -
  from assms(2) obtain a1 err es1 es2 where es: "es = es1 @ es2"
    and work: "policy_trace L (initializePolicyConditions L a) a1 err es1"
    and fin: "case updateAccessPolicyCondition L a1 of
           None \<Rightarrow> out = Panicked \<and> es2 = []
         | Some a2 \<Rightarrow> policy_finish L K (a_Status a) a2 err out es2"
    unfolding live_policy_run_def by blast
  have parts: "has_policy_parts L a1" by (rule work_parts [OF L work has_policy_parts_init [OF L]])
  from that [OF es work parts] fin policy_reported_simps(1) [OF L parts] show thesis by simp
qed

text \<open>The status a run leaves the policy with: the patched one, or the stored one.\<close>

fun policy_status :: "AccessPolicyStatus \<Rightarrow> ctrl_event list \<Rightarrow> AccessPolicyStatus" where
  "policy_status st [] = st"
| "policy_status st (PatchAccessPolicyStatus a p # es) = a_Status a"
| "policy_status st (e # es) = policy_status st es"

lemma policy_status_steps:
  "list_all policy_step es \<Longrightarrow> policy_status st (es @ fs) = policy_status st fs"
proof (induction es)
  case (Cons e es)
  then show ?case by (cases e) auto
qed simp

lemma policy_status_finish:
  assumes "status_eq_laws K" and "policy_finish L K orig a err out es"
  shows "policy_status orig es = a_Status a"
  using assms by (auto simp: policy_finish_def status_eq_laws_def split: prod.splits)

lemma assigned_append:
  assumes "list_all (\<lambda>e. \<exists>a p. e = PatchAccessPolicyStatus a p) fs"
  shows "assigned L a b k (es @ fs) \<longleftrightarrow> assigned L a b k es"
    and "unclear_read L (es @ fs) \<longleftrightarrow> unclear_read L es"
  using assms by (auto simp: assigned_def dependencies_ready_def grant_def unclear_read_def list_all_iff)

lemma unresolved_not_assigned:
  assumes b: "bucket_dep.dep_trace L a a' rb es1" and k: "key_dep.dep_trace L a' a1 rk es2"
    and un: "(\<exists>e. rb = Inl e) \<or> (\<exists>e. rk = Inl e)"
  shows "\<not> assigned L a bk ak (es1 @ es2)"
proof
  assume as: "assigned L a bk ak (es1 @ es2)"
  from frame_names [OF bucket_dep.dep_frame [OF b]] have key: "policy_key a' = policy_key a" by simp
  have "GetAccessKey n r \<notin> set es1" and "GetBucket n' r' \<notin> set es2" for n r n' r'
    using b k by (auto simp: bucket_dep.dep_trace_def key_dep.dep_trace_def revocation_def
        split: if_splits)
  with as have "GetBucket (policy_bucket a) (Inr bk) \<in> set es1"
    "GetAccessKey (policy_key a') (Inr ak) \<in> set es2"
    "ready_cond (FindStatusCondition L (b_Conditions bk) Ready)"
    "ready_cond (FindStatusCondition L (k_Conditions ak) Ready)"
    by (auto simp: assigned_def dependencies_ready_def key)
  then have "\<exists>x. rb = Inr x" "\<exists>x. rk = Inr x"
    using b k by (auto simp: bucket_dep.dep_trace_def key_dep.dep_trace_def revocation_def
        split: if_splits)
  with un show False by auto
qed

lemma work_ready:
  assumes L: "cond_laws L" and work: "policy_trace L a a1 err es" and a: "has_policy_parts L a"
    and clear: "\<not> unclear_read L es"
  shows "policy_parts_true L a1 \<longleftrightarrow> (\<exists>b k. assigned L a b k es)"
    and "assigned L a b k es \<Longrightarrow> pst_BucketID (a_Status a1) = bst_BucketID (b_Status b) \<and>
      pst_AccessKeyID (a_Status a1) = kst_AccessKeyID (k_Status k)"
proof -
  show "policy_parts_true L a1 \<longleftrightarrow> (\<exists>b k. assigned L a b k es)"
    using work
  proof (cases rule: policy_traceE)
    case (assigned b k)
    have "dependencies_ready L a b k es"
      by (rule dependencies_ready_mono [OF assigned(3)]) (auto simp: assigned(1))
    then have "assigned L a b k es" by (simp add: assigned_def assigned(1))
    moreover have "policy_parts_true L a1"
      using policy_bound_stat [OF L, of b k a]
      by (simp add: assigned(4) policy_parts_true_def cond_stat_view policy_mark_view [OF L])
    ultimately show ?thesis by blast
  next
    case (refused b k e m m' m'')
    then have "\<not> policy_parts_true L a1"
      by (auto simp: policy_parts_true_def cond_stat_view policy_mark_view [OF L])
    moreover have "\<not> assigned L a b' k' es" for b' k'
      by (auto simp: assigned_def grant_def refused(1) dependency_reads_def)
    ultimately show ?thesis by blast
  next
    case (unresolved a' rb rk es1 es2)
    from dep_false [OF L unresolved(2,3,4) clear [unfolded unresolved(1)] a]
      unresolved_not_assigned [OF unresolved(2,3,4)]
    show ?thesis by (simp add: unresolved(1))
  qed
  show "assigned L a b k es \<Longrightarrow> pst_BucketID (a_Status a1) = bst_BucketID (b_Status b) \<and>
      pst_AccessKeyID (a_Status a1) = kst_AccessKeyID (k_Status k)"
    using work
  proof (cases rule: policy_traceE)
    case (assigned b' k')
    assume "assigned L a b k es"
    then have "b = b' \<and> k = k'"
      by (auto simp: assigned_def dependencies_ready_def assigned(1) dependency_reads_def grant_def)
    then show ?thesis by (simp add: assigned(4))
  next
    case (refused b' k' e m m' m'')
    assume "assigned L a b k es"
    then show ?thesis
      by (auto simp: assigned_def grant_def refused(1) dependency_reads_def)
  next
    case (unresolved a' rb rk es1 es2)
    assume "assigned L a b k es"
    with unresolved_not_assigned [OF unresolved(2,3,4)] show ?thesis by (simp add: unresolved(1))
  qed
qed

lemma live_policy_ready:
  assumes L: "cond_laws L" and E: "error_laws L" and K: "status_eq_laws K"
    and run: "run_state (AccessPolicyReconciler_Reconcile L K R req) w = (out, w')"
    and ev: "new_events w w' = GetAccessPolicy req (Inr a) # es"
    and live: "settled_meta L a" and clear: "\<not> unclear_read L es"
    and st: "st = policy_status (a_Status a) es"
  shows "(cond_stat L (pst_Conditions st) Ready = Some ConditionTrue \<longleftrightarrow> (\<exists>b k. assigned L a b k es)) \<and>
    (\<forall>b k. assigned L a b k es \<longrightarrow> pst_BucketID st = bst_BucketID (b_Status b) \<and>
       pst_AccessKeyID st = kst_AccessKeyID (k_Status k) \<and> pst_ObservedGeneration st = a_Generation a)"
proof -
  let ?a = "fst (ensureLabels a)"
  from Policy_run [OF E run ev] live have "live_policy_run L K ?a out es"
    by (simp add: policy_run_def settled_meta_def)
  then obtain a1 err es1 es2 where es: "es = es1 @ es2"
    and work: "policy_trace L (initializePolicyConditions L ?a) a1 err es1"
    and parts: "has_policy_parts L a1"
    and fin: "policy_finish L K (a_Status ?a) (policy_reported L a1) err out es2"
    by (rule live_policy_runE [OF L])
  have es2: "list_all (\<lambda>e. \<exists>a p. e = PatchAccessPolicyStatus a p) es2"
    unfolding list_all_iff using policy_finish_events [OF fin] by blast
  have rep: "st = a_Status (policy_reported L a1)"
    using policy_status_finish [OF K fin]
    by (simp add: st es policy_status_steps [OF work_steps [OF work]])
  have asg: "assigned L a b k es \<longleftrightarrow> assigned L (initializePolicyConditions L ?a) b k es1" for b k
    by (simp add: es assigned_append [OF es2]) (simp add: assigned_def)
  have clear1: "\<not> unclear_read L es1" using clear by (simp add: es assigned_append [OF es2])
  note ready = work_ready [OF L work has_policy_parts_init [OF L] clear1, folded asg]
  note reported = policy_reported_simps [OF L parts]
  have gen: "a_Generation a1 = a_Generation a"
    using work_frame_policy [OF work] by (simp add: policy_frame_def)
  from ready reported gen show ?thesis unfolding rep by auto
qed

text \<open>
  C13: \<open>Ready\<close> is earned in every run that could see its dependencies: when the policy is not
  being deleted and has its labels and finalizer already, and no read of the run
  failed for another reason than the object being gone, the run leaves the policy with the
  condition \<open>Ready\<close> true, whether it patched the status or left the stored one, exactly when
  in this very run both dependencies were read as ready and Garage acknowledged exactly the
  permissions of the spec for their IDs; the status then records these two IDs and the
  generation of the spec.
\<close>

theorem policy_ready_evidence:
  assumes L: "cond_laws L" and E: "error_laws L" and K: "status_eq_laws K"
    and run: "run_state (AccessPolicyReconciler_Reconcile L K R req) w = (out, w')"
    and ev: "new_events w w' = GetAccessPolicy req (Inr a) # es"
    and live: "settled_meta L a" and clear: "\<not> unclear_read L es"
    and st: "st = policy_status (a_Status a) es"
  shows "(cond_stat L (pst_Conditions st) Ready = Some ConditionTrue \<longleftrightarrow> (\<exists>b k. assigned L a b k es)) \<and>
    (\<forall>b k. assigned L a b k es \<longrightarrow> pst_BucketID st = bst_BucketID (b_Status b) \<and>
       pst_AccessKeyID st = kst_AccessKeyID (k_Status k) \<and> pst_ObservedGeneration st = a_Generation a)"
  by (rule live_policy_ready [OF L E K run ev live clear st])

section \<open>Requeueing\<close>

definition policy_delay :: "ctrl_result \<Rightarrow> bool" where
  "policy_delay res \<longleftrightarrow> RequeueAfter res = 15 * 1000000000 \<or> RequeueAfter res = 10 * 1000000000"

lemma policyResult_cases:
  assumes "policyResult L err = (res, e)"
  shows "res = no_requeue \<and> e = err \<or> policy_delay res \<and> e = None \<and> err \<noteq> None"
  using assms by (cases err) (auto simp: policyResult_def policy_delay_def split: if_splits)

lemma policy_delay_not_none: "policy_delay res \<Longrightarrow> res \<noteq> no_requeue"
  by (auto simp: policy_delay_def no_requeue_def)

text \<open>
  the reconciler never panics on a condition it dereferences; when it asks to be run again
  after a delay, the delay is 10 or 15 seconds and no error is returned beside it; in every
  other case it asks for no delay.
\<close>

theorem AccessPolicyReconciler_outcome:
  assumes L: "cond_laws L" and E: "error_laws L"
    and run: "run_state (AccessPolicyReconciler_Reconcile L K R req) w = (out, w')"
  shows "\<exists>res err. out = Returned res err \<and> (res = no_requeue \<or> err = None \<and> policy_delay res)"
  using produces_run [OF AccessPolicy_Reconcile_trace [OF E] run]
proof (elim disjE exE conjE)
  fix a fs
  assume "policy_run L K a out fs"
  then show ?thesis
  proof (cases rule: policy_runE)
    case live
    obtain a1 err es2 where fin: "policy_finish L K (a_Status (fst (ensureLabels a))) (policy_reported L a1) err out es2"
      by (rule live_policy_runE [OF L live(2)])
    obtain res e where r: "policyResult L err = (res, e)" by (cases "policyResult L err")
    with fin obtain p where "out = Returned res e \<or> out = patched_outcome L res e p"
      by (auto simp: policy_finish_def)
    with patched_outcome_cases [of L res e p]
    have "out = Returned res e \<or> (\<exists>err'. out = Returned no_requeue err')" by auto
    with policyResult_cases [OF r] show ?thesis by auto
  qed (auto simp: save_trace_def finalize_policy_run_def)
qed simp

text \<open>The work of a run ends without an error exactly when it assigned the permissions.\<close>

lemma assigned_err:
  assumes "policy_trace L a a1 err es"
  shows "err = None \<longleftrightarrow> (\<exists>b k. assigned L a b k es)"
  using assms
proof (cases rule: policy_traceE)
  case (assigned b k)
  have "dependencies_ready L a b k es"
    by (rule dependencies_ready_mono [OF assigned(3)]) (auto simp: assigned(1))
  then have "assigned L a b k es" by (simp add: assigned_def assigned(1))
  with assigned(2) show ?thesis by blast
next
  case (refused b k e m m' m'')
  then show ?thesis by (auto simp: assigned_def grant_def dependency_reads_def)
next
  case (unresolved a' rb rk es1 es2)
  with unresolved_not_assigned [OF unresolved(2,3,4)] show ?thesis by simp
qed

text \<open>
  C24: a policy that is not in force is never forgotten.  Let a run work on a policy that is not
  being deleted and has its labels and finalizer already (\<open>settled_meta\<close>; the run that saves
  them ends there).  When every call that writes the status succeeds, the run asks for neither a
  delay nor a retry exactly when it assigned the permissions; when one fails, exactly when the
  failure is a conflict, after which the code leaves the policy to the event of the other
  write.  In every other case (a dependency is missing, not ready or could not be read, Garage
  refused, the status could not be written) the run returns an error, or asks without one to be
  repeated after 15 seconds (dependency missing) or 10 seconds (dependency not ready).
\<close>

theorem policy_retried:
  assumes L: "cond_laws L" and E: "error_laws L"
    and run: "run_state (AccessPolicyReconciler_Reconcile L K R req) w = (out, w')"
    and ev: "new_events w w' = GetAccessPolicy req (Inr a) # es" and live: "settled_meta L a"
  shows "(out = Returned no_requeue None \<longleftrightarrow>
      (if \<exists>b e. PatchAccessPolicyStatus b (Some e) \<in> set es
       then \<exists>b e. PatchAccessPolicyStatus b (Some e) \<in> set es \<and> IsConflict L e
       else \<exists>b k. assigned L a b k es)) \<and>
    (out = Returned no_requeue None \<or> (\<exists>e. out = Returned no_requeue (Some e)) \<or>
     (\<exists>res. policy_delay res \<and> out = Returned res None))"
proof -
  let ?a = "fst (ensureLabels a)" and ?ini = "initializePolicyConditions L (fst (ensureLabels a))"
  from Policy_run [OF E run ev] live have "live_policy_run L K ?a out es"
    by (simp add: policy_run_def settled_meta_def)
  then obtain a1 err es1 es2 where es: "es = es1 @ es2" and work: "policy_trace L ?ini a1 err es1"
    and fin: "policy_finish L K (a_Status ?a) (policy_reported L a1) err out es2"
    by (rule live_policy_runE [OF L])
  have es2: "list_all (\<lambda>e. \<exists>a p. e = PatchAccessPolicyStatus a p) es2"
    unfolding list_all_iff using policy_finish_events [OF fin] by blast
  have asg: "assigned L a b k es \<longleftrightarrow> assigned L ?ini b k es1" for b k
    by (simp add: es assigned_append [OF es2]) (simp add: assigned_def)
  have patch: "PatchAccessPolicyStatus b r \<in> set es \<longleftrightarrow> PatchAccessPolicyStatus b r \<in> set es2" for b r
    using work_steps [OF work] by (auto simp: es list_all_iff)
  obtain res e where r: "policyResult L err = (res, e)" by (cases "policyResult L err")
  have delay: "res \<noteq> no_requeue" if "policy_delay res" using policy_delay_not_none that .
  have none: "res = no_requeue \<and> e = None \<longleftrightarrow> err = None"
    and cases: "e = None \<and> (res = no_requeue \<or> policy_delay res) \<or> res = no_requeue"
    using policyResult_cases [OF r] delay r by (auto simp: policyResult_def)
  let ?p = "\<lambda>x. PatchAccessPolicyStatus (policy_reported L a1) x"
  from fin r consider "es2 = []" "out = Returned res e"
    | x where "es2 = [?p x]" "out = patched_outcome L res e x"
    by (auto simp: policy_finish_def)
  then consider (written) "\<forall>b x. PatchAccessPolicyStatus b (Some x) \<notin> set es2" "out = Returned res e"
    | (failed) x where "es2 = [?p (Some x)]" "out = patched_outcome L res e (Some x)"
  proof cases
    case (2 x)
    with written failed show thesis by (cases x) (auto simp: patched_outcome_def)
  qed (use written in simp)
  then show ?thesis
  proof cases
    case (failed x)
    with cases show ?thesis by (auto simp: patch patched_outcome_def)
  next
    case written
    with none cases show ?thesis by (auto simp: patch asg assigned_err [OF work, symmetric])
  qed
qed

section \<open>A revocation that fails\<close>

text \<open>
  C23: a revocation that fails is not repeated: when the bucket of a policy is gone, the run
  clears the recorded bucket ID, whatever the call that takes the grant back answered; and a
  later run that deletes a policy with this status makes no call to take it back, so that
  after a failed one the grant stays in Garage.
\<close>

theorem failed_revocation_forgotten:
  assumes L: "cond_laws L" and E: "error_laws L" and K: "status_eq_laws K"
    and run: "run_state (AccessPolicyReconciler_Reconcile L K R req) w = (out, w')"
    and ev: "new_events w w' = GetAccessPolicy req (Inr a) # es" and live: "settled_meta L a"
    and gone: "GetBucket (policy_bucket a) (Inl e) \<in> set es" "IsNotFound L e"
    and later: "run_state (AccessPolicyReconciler_Reconcile L K' R' req') v = (out', v')"
      "new_events v v' = GetAccessPolicy req' (Inr a') # es'"
      "a_Status a' = policy_status (a_Status a) es" "m_DeletionTimestamp (a_Meta a') \<noteq> None"
  shows "pst_BucketID (policy_status (a_Status a) es) = [] \<and>
    (\<forall>i j p x. PermissionsSet i j p x \<notin> set es')"
proof -
  let ?a = "fst (ensureLabels a)"
  from Policy_run [OF E run ev] live have "live_policy_run L K ?a out es"
    by (simp add: policy_run_def settled_meta_def)
  then obtain a1 err es1 es2 where es: "es = es1 @ es2"
    and work: "policy_trace L (initializePolicyConditions L ?a) a1 err es1"
    and parts: "has_policy_parts L a1"
    and fin: "policy_finish L K (a_Status ?a) (policy_reported L a1) err out es2"
    by (rule live_policy_runE [OF L])
  have rep: "policy_status (a_Status a) es = a_Status (policy_reported L a1)"
    using policy_status_finish [OF K fin]
    by (simp add: es policy_status_steps [OF work_steps [OF work]])
  have in1: "GetBucket (policy_bucket a) (Inl e) \<in> set es1"
    using gone(1) es policy_finish_events [OF fin] by fastforce
  have "pst_BucketID (a_Status a1) = []"
    using work
  proof (cases rule: policy_traceE)
    case (unresolved a2 rb rk ds ks)
    from unresolved(3) have "GetBucket n r \<notin> set ks" for n r
      by (auto simp: key_dep.dep_trace_def revocation_def split: if_splits)
    with in1 unresolved(1) have ds: "GetBucket (policy_bucket a) (Inl e) \<in> set ds" by auto
    from unresolved(2) have "pst_BucketID (a_Status a2) = []"
      by (cases rule: bucket_dep.dep_traceE)
        (use ds gone(2) in \<open>auto simp: revocation_def split: if_splits\<close>)
    with unresolved(3) show ?thesis
      by (cases rule: key_dep.dep_traceE) simp_all
  qed (use in1 in \<open>auto simp: dependency_reads_def grant_def\<close>)
  then have none: "pst_BucketID (policy_status (a_Status a) es) = []"
    by (simp add: rep policy_reported_simps [OF L parts])
  from Policy_run [OF E later(1,2)] have "\<forall>i j p x. PermissionsSet i j p x \<notin> set es'"
  proof (cases rule: policy_runE)
    case finalize
    with none later(3) show ?thesis by (auto simp: finalize_policy_run_def bound_def)
  qed (use later(4) in \<open>auto simp: settled_meta_def\<close>)
  with none show ?thesis by blast
qed

section \<open>The runs of the example\<close>

text \<open>A policy that gets its labels, in a cluster that lists by label.\<close>

definition ex_labelled_policy :: AccessPolicy where
  "ex_labelled_policy = fst (ensureLabels ex_policy)"

definition scan_kube :: "store kube" where
  "scan_kube = (policy_kube ex_labelled_policy)
     \<lparr>kListAccessPolicies := \<lambda>ns sel s. (Inr (filter (selected ns sel) [ex_labelled_policy]), s)\<rparr>"

definition ex_named_key :: AccessKey where
  "ex_named_key = ex_ready_key\<lparr>k_Meta := new_meta ''key'' ''default''\<rparr>"

lemma ex_scan: "selected ''default'' (bucketLabel, ''photos'') ex_labelled_policy"
  "selected ''default'' (accesskeyLabel, ''key'') ex_labelled_policy"
  using ensureLabels_labels(1,2) [of ex_policy]
  by (simp_all add: selected_label ex_labelled_policy_def ex_policy_def)

theorem policy_watched_witness:
  "(''default'', ''photos'') \<in> set (fst (run_state
     (AccessPolicyReconciler_SetupWithManager scan_kube (BucketChanged ex_rbucket)) empty_world)) \<and>
   (''default'', ''photos'') \<in> set (fst (run_state
     (AccessPolicyReconciler_SetupWithManager scan_kube (AccessKeyChanged ex_named_key)) empty_world))"
proof -
  have K: "list_laws (\<lambda>s. [ex_labelled_policy]) scan_kube"
    by (auto simp: list_laws_def scan_kube_def)
  have spec: "ps_Bucket (a_Spec ex_policy) = ''photos''" "ps_AccessKey (a_Spec ex_policy) = ''key''"
    "a_Meta ex_policy = ex_meta"
    by (simp_all add: ex_policy_def)
  have names: "m_Name (k_Meta ex_named_key) = ''key''" "m_Namespace (k_Meta ex_named_key) = ''default''"
    "b_Meta ex_rbucket = ex_meta"
    by (simp_all add: ex_named_key_def new_meta_def ex_rbucket_def)
  have list: "kListAccessPolicies scan_kube ''default'' (bucketLabel, ''photos'') (ext empty_world) =
      (Inr [ex_labelled_policy], ext empty_world)"
    "kListAccessPolicies scan_kube ''default'' (accesskeyLabel, ''key'') (ext empty_world) =
      (Inr [ex_labelled_policy], ext empty_world)"
    by (simp_all add: scan_kube_def ex_scan)
  have "m_Name (a_Meta ex_labelled_policy) = ''photos''"
    "m_Namespace (a_Meta ex_labelled_policy) = ''default''"
    by (simp_all add: ex_labelled_policy_def ensureLabels_def Let_def ex_policy_def)
  with policy_watched [OF K ex_labelled_policy_def, where w = empty_world and b = ex_rbucket and k = ex_named_key] list
  show ?thesis by (simp add: spec names)
qed

lemma ex_settled: "settled_meta plain_lib ex_pol" "settled_meta plain_lib ex_old_pol"
  by (simp_all add: settled_meta_def ex_labelled)

theorem policy_grants_earned_witness:
  "settled_meta plain_lib ex_pol \<and> (\<exists>b k. dependencies_ready plain_lib ex_pol b k
     (dependency_reads ex_pol ex_rbucket ex_ready_key) \<and>
     grant ex_pol ex_rbucket ex_ready_key None = grant ex_pol b k None)"
proof -
  have "spec_permissions (a_Spec ex_policy) \<noteq> no_permissions"
    by (simp add: spec_permissions_def no_permissions_def ex_policy_def)
  with policy_grants_earned [OF plain_lib_error_laws surjective_pairing
      ex_assigned_events [unfolded run_policy_def run_events_def grant_def]]
  show ?thesis by (simp add: grant_def)
qed

theorem policy_finalizer_revokes_witness:
  "m_DeletionTimestamp (a_Meta ex_del_pol) \<noteq> None \<and> (\<exists>x. [revocation ex_del_pol None] = [revocation ex_del_pol x] \<and> revoked x)"
proof -
  have "\<not> ContainsFinalizer plain_lib
      (a_Meta (policy_unfinalized plain_lib (fst (ensureLabels ex_del_pol)))) finalizerName"
    by (simp add: policy_unfinalized_def list_ex_iff)
  from policy_finalizer_revokes [OF plain_lib_error_laws plain_lib_finalizer_laws surjective_pairing
      ex_deleted_policy_events [unfolded run_policy_def run_events_def] this]
  show ?thesis by (simp add: bound_def)
qed

lemma ex_assigned_facts:
  "\<not> unclear_read plain_lib (dependency_reads ex_pol ex_rbucket ex_ready_key @
      grant ex_pol ex_rbucket ex_ready_key None # [PatchAccessPolicyStatus ex_assigned None])"
  "assigned plain_lib ex_pol ex_rbucket ex_ready_key (dependency_reads ex_pol ex_rbucket ex_ready_key @
      grant ex_pol ex_rbucket ex_ready_key None # [PatchAccessPolicyStatus ex_assigned None])"
  by (simp_all add: unclear_read_def assigned_def dependencies_ready_def dependency_reads_def grant_def)

theorem policy_ready_evidence_witness:
  "cond_stat plain_lib (pst_Conditions (a_Status ex_assigned)) Ready = Some ConditionTrue"
proof -
  have st: "a_Status ex_assigned = policy_status (a_Status ex_pol) (dependency_reads ex_pol ex_rbucket ex_ready_key @
      grant ex_pol ex_rbucket ex_ready_key None # [PatchAccessPolicyStatus ex_assigned None])"
    by (simp add: dependency_reads_def grant_def)
  from policy_ready_evidence [OF plain_lib_cond_laws plain_lib_error_laws policy_kube_status_eq(1) surjective_pairing
      ex_assigned_events [unfolded run_policy_def run_events_def] ex_settled(1) ex_assigned_facts(1) st]
    ex_assigned_facts(2)
  show ?thesis by blast
qed

theorem AccessPolicyReconciler_outcome_witness:
  "\<exists>res err. Returned \<lparr>RequeueAfter = 15 * 1000000000\<rparr> None = Returned res err \<and>
     (res = no_requeue \<or> err = None \<and> policy_delay res)"
  by (rule AccessPolicyReconciler_outcome [OF plain_lib_cond_laws plain_lib_error_laws ex_lost_run])

theorem policy_retried_witness:
  "\<exists>b k. assigned plain_lib ex_pol b k (dependency_reads ex_pol ex_rbucket ex_ready_key @
      grant ex_pol ex_rbucket ex_ready_key None # [PatchAccessPolicyStatus ex_assigned None])"
proof -
  have ev: "new_events empty_world (empty_world\<lparr>log := log empty_world @ GetAccessPolicy ex_req (Inr ex_pol) #
      dependency_reads ex_pol ex_rbucket ex_ready_key @
      [grant ex_pol ex_rbucket ex_ready_key None, PatchAccessPolicyStatus ex_assigned None]\<rparr>) =
    GetAccessPolicy ex_req (Inr ex_pol) # dependency_reads ex_pol ex_rbucket ex_ready_key @
      grant ex_pol ex_rbucket ex_ready_key None # [PatchAccessPolicyStatus ex_assigned None]"
    by (simp add: new_events_def)
  from policy_retried [OF plain_lib_cond_laws plain_lib_error_laws ex_assigned_run ev ex_settled(1)]
  show ?thesis by (simp add: dependency_reads_def grant_def)
qed

text \<open>The same policy, deleted after that run.\<close>

definition ex_lost_pol :: AccessPolicy where
  "ex_lost_pol = ex_del_pol\<lparr>a_Status := a_Status ex_lost_status\<rparr>"

lemma ex_lost_pol_events:
  "run_policy (policy_kube ex_lost_pol) ex_admin = GetAccessPolicy ex_req (Inr ex_lost_pol) #
    [UpdateAccessPolicy (policy_unfinalized plain_lib (fst (ensureLabels ex_lost_pol))) None]"
proof -
  have "pst_BucketID (a_Status ex_lost_status) = []"
    unfolding ex_lost_status_def
    by (subst policy_reported_simps(6) [OF plain_lib_cond_laws ex_lost_parts]) (simp add: ex_lost_def)
  then show ?thesis
    by (simp add: run_policy_def run_events_def new_events_def AccessPolicyReconciler_Reconcile_def
        run_eval Let_def ex_labelled finalizePolicy_def releasePolicy_def policy_unfinalized_def
        policy_kube_def store_kube_def empty_world_def ex_lost_pol_def)
qed

theorem failed_revocation_forgotten_witness:
  "pst_BucketID (a_Status ex_lost_status) = [] \<and> (\<forall>i j p x. PermissionsSet i j p x \<notin> set
    [UpdateAccessPolicy (policy_unfinalized plain_lib (fst (ensureLabels ex_lost_pol))) None])"
proof -
  have st: "policy_status (a_Status ex_old_pol) [GetBucket (policy_bucket ex_old_pol) (Inl no_bucket),
      revocation ex_old_pol (Some (ErrorString ''unreachable'')),
      GetAccessKey (policy_key ex_old_pol) (Inr ex_ready_key),
      PatchAccessPolicyStatus ex_lost_status None] = a_Status ex_lost_status"
    by (simp add: revocation_def)
  from failed_revocation_forgotten [where e = no_bucket, OF plain_lib_cond_laws plain_lib_error_laws policy_kube_status_eq(2)
      surjective_pairing ex_lost_events [unfolded run_policy_def run_events_def] ex_settled(2) _ _
      surjective_pairing ex_lost_pol_events [unfolded run_policy_def run_events_def], unfolded st]
  show ?thesis by (simp add: ex_lost_pol_def no_bucket_def)
qed

end
