(* ===== verification/System.thy ===== *)
theory System
  imports Wiring BucketProps AccessKeyProps AccessPolicyProps GarageProps
begin

text \<open>
  The controllers together, on one cluster and one Garage: what their runs do to Garage's
  permission table and to the buckets and keys it holds.
\<close>

section \<open>Who does what\<close>

definition cluster_view :: "permission_server \<Rightarrow> 'k \<times> 's gworld \<Rightarrow> service" where
  "cluster_view srv = service_of (\<lambda>s. granted_from srv (snd s)) (\<lambda>s. garage_writes (snd s))"

lemma shared_kube_apart: "kube_apart (cluster_view srv) (shared_kube K)"
  by (simp add: kube_apart_def shared_kube_def cluster_view_def service_of_def on_cluster_def
      case_prod_beta)

lemmas garage_tracks =
  garage.bucket_tracks [folded cluster_view_def, OF shared_kube_apart garage_bucket_reconciler_def]
  garage.key_tracks [folded cluster_view_def, OF shared_kube_apart garage_key_reconciler_def]
  garage.policy_tracks [folded cluster_view_def, OF shared_kube_apart garage_policy_reconciler_def]

text \<open>
  C10: wired as in \<open>main\<close>, the three reconcilers refine the abstract service: whatever the
  cluster and the Garage server answer, a run of a reconciler is a path of the permission
  table and of the sequence of writes in which every call of the run changes them as
  specified: creations, updates and deletions append their write; a permission call that
  succeeds sets its entry, one that fails narrows it at most or, when Garage carried out what
  it did not acknowledge, sets it; every other call, above all every call to the cluster,
  changes nothing.  And their duties are separate: the Bucket
  controller creates and updates buckets only, the AccessKey controller creates and deletes
  keys only, the AccessPolicy controller sets permissions only.
\<close>

theorem controllers_refine_service:
  "tracks (cluster_view srv) (service_duty bucket_duty)
     (BucketReconciler_Reconcile L (shared_kube K) (garage_bucket_reconciler T c endpoint) req) \<and>
   tracks (cluster_view srv) (service_duty key_duty)
     (AccessKeyReconciler_Reconcile L (shared_kube K) (garage_key_reconciler T c) req) \<and>
   tracks (cluster_view srv) (service_duty policy_duty)
     (AccessPolicyReconciler_Reconcile L (shared_kube K) (garage_policy_reconciler T c) req)"
  by (intro conjI garage_tracks)

section \<open>The permission table\<close>

fun table_step :: "ctrl_event \<Rightarrow> perm_table \<Rightarrow> perm_table \<Rightarrow> bool" where
  "table_step (PermissionsSet k b p r) t t' = set_effect k b p r t t'"
| "table_step e t t' = (t' = t)"

definition garage_table :: "permission_server \<Rightarrow> ('k \<times> 's gworld) cworld \<Rightarrow> perm_table" where
  "garage_table srv w = granted_from srv (snd (ext w))"

lemma service_table: "service_step e s s' \<Longrightarrow> table_step e (fst s) (fst s')"
  by (cases e) auto

lemma service_path_table: "path service_step es s s' \<Longrightarrow> path table_step es (fst s) (fst s')"
  by (induction es arbitrary: s) (auto dest: service_table)

lemma run_table:
  assumes "tracks (cluster_view srv) (service_duty d) m" and "run_state m w = (a, w')"
  shows "path table_step (new_events w w') (garage_table srv w) (garage_table srv w')"
    and "list_all d (new_events w w')"
  using tracks_run [OF assms] service_path_table
  by (auto simp: path_duty cluster_view_def service_of_def garage_table_def)

lemma set_effect_at: "set_effect k b p r t t' \<Longrightarrow> (i, j) \<noteq> (k, b) \<Longrightarrow> t' i j = t i j"
  by (auto simp: set_effect_def split: option.splits)

lemma set_effect_bound:
  assumes "set_effect k b p r t t'"
  shows "t' i j \<le> t i j \<or> (i, j) = (k, b) \<and> t' i j = p"
proof (cases "(i, j) = (k, b)")
  case True
  with assms show ?thesis by (auto simp: set_effect_def split: option.splits)
next
  case False
  with set_effect_at [OF assms] show ?thesis by simp
qed

text \<open>What the table's path says about its ends.\<close>

lemma table_frame:
  assumes "path table_step es t t'" and "\<And>p r. PermissionsSet i j p r \<notin> set es"
  shows "t' i j = t i j"
proof (rule path_invariant [OF assms(1), where I = "\<lambda>u. u i j = t i j"])
  fix e u u'
  assume e: "e \<in> set es" and step: "table_step e u u'" and u: "u i j = t i j"
  show "u' i j = t i j"
  proof (cases "\<exists>k b p r. e = PermissionsSet k b p r")
    case True
    then obtain k b p r where "e = PermissionsSet k b p r" by blast
    with assms(2) e step u show ?thesis using set_effect_at [of k b p r u u' i j] by auto
  next
    case False
    with step u show ?thesis by (cases e) auto
  qed
qed simp

text \<open>An entry only grows up to permissions that a call of the path asked for.\<close>

lemma table_bound:
  assumes "path table_step es t t'"
  shows "t' i j \<le> t i j \<or> (\<exists>p r. PermissionsSet i j p r \<in> set es \<and> t' i j \<le> p)"
proof (rule path_invariant [OF assms, where
      I = "\<lambda>u. u i j \<le> t i j \<or> (\<exists>p r. PermissionsSet i j p r \<in> set es \<and> u i j \<le> p)"])
  fix e u u'
  assume e: "e \<in> set es" and step: "table_step e u u'"
    and u: "u i j \<le> t i j \<or> (\<exists>p r. PermissionsSet i j p r \<in> set es \<and> u i j \<le> p)"
  have "u' i j \<le> u i j \<or> (\<exists>p r. e = PermissionsSet i j p r \<and> u' i j = p)"
  proof (cases "\<exists>k b p r. e = PermissionsSet k b p r")
    case True
    with step show ?thesis by (auto dest: set_effect_bound [where i = i and j = j])
  next
    case False
    with step show ?thesis by (cases e) auto
  qed
  with e u show "u' i j \<le> t i j \<or> (\<exists>p r. PermissionsSet i j p r \<in> set es \<and> u' i j \<le> p)"
    by (auto intro: order_trans)
qed simp

lemma table_narrows:
  assumes "path table_step es t t'"
    and "\<And>k b p r. PermissionsSet k b p r \<in> set es \<Longrightarrow> p = no_permissions"
  shows "t' \<le> t"
  unfolding le_fun_def
proof (intro allI)
  fix i j
  from table_bound [OF assms(1), of i j] assms(2) have "t' i j \<le> t i j \<or> t' i j \<le> no_permissions"
    by blast
  then show "t' i j \<le> t i j" by (auto intro: order_trans)
qed

lemma table_set:
  assumes "path table_step (pre @ PermissionsSet k b p None # post) t t'"
    and "\<And>i j q r. PermissionsSet i j q r \<notin> set pre" and "\<And>i j q r. PermissionsSet i j q r \<notin> set post"
  shows "t' = set_entry t k b p"
proof -
  from assms(1) obtain u v where "path table_step pre t u"
    "set_effect k b p None u v" "path table_step post v t'" by (auto simp: path_append)
  moreover from calculation have "u = t" "t' = v"
    using table_frame assms(2,3) by blast+
  ultimately show ?thesis by (simp add: set_effect_def)
qed

section \<open>A run of the AccessPolicy controller\<close>

text \<open>A run that assigned permissions made one permission call, the grant; any other run
  grants nothing.\<close>

lemma work_sets:
  assumes "policy_trace L a a' err es" and "assigned L a b k es"
  shows "es = dependency_reads a b k @ [grant a b k None]"
  using assms(1)
proof (cases rule: policy_traceE)
  case (assigned b' k')
  with assms(2) have "b = b' \<and> k = k'"
    by (auto simp: assigned_def dependencies_ready_def dependency_reads_def grant_def)
  with assigned(1) show ?thesis by simp
next
  case (refused b' k' e m m' m'')
  with assms(2) show ?thesis by (auto simp: assigned_def dependency_reads_def grant_def)
next
  case (unresolved a1 rb rk es1 es2)
  with unresolved_not_assigned [OF unresolved(2-4)] assms(2) show ?thesis by simp
qed

lemma assigned_run:
  assumes run: "policy_run L K a out es" and asg: "assigned L a b k es"
  obtains post where "settled_meta L a" and "es = dependency_reads a b k @ grant a b k None # post"
    and "\<And>i j p r. PermissionsSet i j p r \<notin> set post"
    and "\<forall>e \<in> set post. \<exists>x p. e = PatchAccessPolicyStatus x p"
  using run
proof (cases rule: policy_runE)
  case live
  let ?a = "initializePolicyConditions L (fst (ensureLabels a))"
  from live(2) obtain a1 err es1 es2 where es: "es = es1 @ es2"
    and work: "policy_trace L ?a a1 err es1"
    and es2: "\<forall>e \<in> set es2. \<exists>b p. e = PatchAccessPolicyStatus b p"
    by (rule live_policy_events)
  have "list_all (\<lambda>e. \<exists>a p. e = PatchAccessPolicyStatus a p) es2"
    using es2 by (simp add: list_all_iff)
  with asg have "assigned L ?a b k es1"
    by (simp add: es assigned_append) (simp add: assigned_def)
  from work_sets [OF work this] have es': "es = dependency_reads a b k @ grant a b k None # es2"
    by (simp add: es dependency_reads_def)
  show thesis using es2 by (intro that [OF live(1) es']) blast+
next
  case finalize
  with asg show thesis
    by (auto simp: assigned_def dependencies_ready_def finalize_policy_run_def revocation_def
        split: if_splits)
qed (use asg in \<open>auto simp: assigned_def dependencies_ready_def save_trace_def\<close>)

text \<open>Any other call that asks for permissions is the same grant, unacknowledged.\<close>

definition attempted :: "lib \<Rightarrow> AccessPolicy \<Rightarrow> Bucket \<Rightarrow> AccessKey \<Rightarrow> ctrl_event list \<Rightarrow> bool" where
  "attempted L a b k es \<longleftrightarrow> dependencies_ready L a b k es \<and> (\<exists>r. grant a b k r \<in> set es)"

lemma granting_run:
  assumes run: "policy_run L K a out es" and set: "PermissionsSet i j p r \<in> set es"
    and p: "p \<noteq> no_permissions"
  shows "settled_meta L a \<and>
    (\<exists>b k. attempted L a b k es \<and> PermissionsSet i j p r = grant a b k r)"
  using run
proof (cases rule: policy_runE)
  case live
  let ?a = "initializePolicyConditions L (fst (ensureLabels a))"
  from live(2) obtain a1 err es1 es2 where es: "es = es1 @ es2"
    and work: "policy_trace L ?a a1 err es1"
    and es2: "\<forall>e \<in> set es2. \<exists>b p. e = PatchAccessPolicyStatus b p"
    by (rule live_policy_events)
  from set es es2 have "PermissionsSet i j p r \<in> set es1" by auto
  then obtain pre post where es1: "es1 = pre @ PermissionsSet i j p r # post"
    by (auto simp: in_set_conv_decomp)
  from work_grant [OF work es1 p] obtain b k where "dependencies_ready L a b k pre"
    and g: "PermissionsSet i j p r = grant a b k r" by auto
  from this(1) have "dependencies_ready L a b k es"
    by (rule dependencies_ready_mono) (auto simp: es es1)
  moreover have "grant a b k r \<in> set es" using set g by simp
  ultimately show ?thesis using g live(1) unfolding attempted_def by blast
next
  case finalize
  with set p show ?thesis by (auto simp: finalize_policy_run_def revocation_def split: if_splits)
qed (use set in \<open>auto simp: save_trace_def\<close>)

lemma policy_run_table:
  fixes T :: "'s transport"
  assumes E: "error_laws L"
    and run: "run_state (AccessPolicyReconciler_Reconcile L (shared_kube K)
      (garage_policy_reconciler T c) req) w = (out, w')"
    and ev: "new_events w w' = GetAccessPolicy req (Inr a) # es"
  shows "path table_step es (garage_table srv w) (garage_table srv w')"
    and "policy_run L (shared_kube K :: ('k \<times> 's gworld) kube) a out es"
  using run_table(1) [OF garage_tracks(3) run, of srv] Policy_run [OF E run ev] by (simp_all add: ev)

text \<open>
  C4: with the Garage client behind it, a run of the AccessPolicy controller changes Garage's
  permissions as the policy says: a run that assigned the permissions to a bucket and a key
  leaves the entry of that key and bucket exactly the permissions of the spec, whatever it was
  before, and every other entry as it was; and a run that did not get that far, whatever it
  tried and whichever calls failed, gives no key a flag on any bucket that it did not have,
  except what an unacknowledged grant that Garage carried out gives the policy's own key on
  its own bucket: at most the permissions of the spec.
\<close>

theorem policy_run_effect:
  assumes E: "error_laws L"
    and run: "run_state (AccessPolicyReconciler_Reconcile L (shared_kube K)
      (garage_policy_reconciler T c) req) w = (out, w')"
    and ev: "new_events w w' = GetAccessPolicy req (Inr a) # es"
    and t: "t = garage_table srv w" "t' = garage_table srv w'"
  shows "(\<forall>b k. assigned L a b k es \<longrightarrow>
      t' = set_entry t (kst_AccessKeyID (k_Status k)) (bst_BucketID (b_Status b))
        (spec_permissions (a_Spec a))) \<and>
    (\<forall>i j. (\<forall>b k. \<not> assigned L a b k es) \<longrightarrow> t' i j \<le> t i j \<or>
      (\<exists>b k. attempted L a b k es \<and> i = kst_AccessKeyID (k_Status k) \<and>
        j = bst_BucketID (b_Status b) \<and> t' i j \<le> spec_permissions (a_Spec a)))"
proof (intro conjI allI impI)
  note path = policy_run_table(1) [OF E run ev, of srv, folded t]
  note shape = policy_run_table(2) [OF E run ev]
  fix b k
  assume "assigned L a b k es"
  from assigned_run [OF shape this] obtain post
    where "es = dependency_reads a b k @ grant a b k None # post"
      and "\<And>i j p r. PermissionsSet i j p r \<notin> set post" by metis
  with table_set [OF path [unfolded this(1) grant_def]]
  show "t' = set_entry t (kst_AccessKeyID (k_Status k)) (bst_BucketID (b_Status b))
      (spec_permissions (a_Spec a))" by (simp add: dependency_reads_def)
next
  fix i j
  from table_bound [OF policy_run_table(1) [OF E run ev, of srv, folded t], of i j]
  consider "t' i j \<le> t i j" | p r where "PermissionsSet i j p r \<in> set es" "t' i j \<le> p" by blast
  then show "t' i j \<le> t i j \<or> (\<exists>b k. attempted L a b k es \<and> i = kst_AccessKeyID (k_Status k) \<and>
      j = bst_BucketID (b_Status b) \<and> t' i j \<le> spec_permissions (a_Spec a))"
  proof cases
    case 2
    show ?thesis
    proof (cases "p = no_permissions")
      case True
      with 2 show ?thesis by (auto intro: order_trans)
    next
      case False
      with granting_run [OF policy_run_table(2) [OF E run ev] 2(1)] obtain b k
        where "attempted L a b k es" "PermissionsSet i j p r = grant a b k r" by blast
      with 2(2) show ?thesis by (auto simp: grant_def)
    qed
  qed simp
qed

lemma assigned_table:
  assumes "error_laws L"
    and "run_state (AccessPolicyReconciler_Reconcile L (shared_kube K)
      (garage_policy_reconciler T c) req) w = (out, w')"
    and "new_events w w' = GetAccessPolicy req (Inr a) # es" and "assigned L a b k es"
  shows "garage_table srv w' = set_entry (garage_table srv w) (kst_AccessKeyID (k_Status k))
    (bst_BucketID (b_Status b)) (spec_permissions (a_Spec a))"
proof -
  note path = policy_run_table(1) [OF assms(1-3), of srv]
  from assigned_run [OF policy_run_table(2) [OF assms(1-3)] assms(4)] obtain post
    where "es = dependency_reads a b k @ grant a b k None # post"
      and "\<And>i j p r. PermissionsSet i j p r \<notin> set post" by metis
  with table_set [OF path [unfolded this(1) grant_def]] show ?thesis by (simp add: dependency_reads_def)
qed

text \<open>
  C3: \<open>Ready\<close> means that the permissions are in force at the end of the run.  Let a run
  reconcile a policy that is not being deleted and has its labels and finalizer already
  (\<open>settled_meta\<close>), and let no read of its bucket or key fail for another reason than
  not-found (after such a failure the code keeps the condition it found, without assigning
  anything).  When the run leaves the condition \<open>Ready\<close> true, then in Garage the key recorded in
  the status holds exactly the permissions of the spec on the bucket recorded there, and the run
  touched no other entry.  A later run for another policy on the same pair may take them away:
  theory \<open>Rivals\<close>.
\<close>

theorem ready_policy_in_force:
  assumes L: "cond_laws L" and E: "error_laws L" and K: "status_eq_laws K"
    and run: "run_state (AccessPolicyReconciler_Reconcile L (shared_kube K)
      (garage_policy_reconciler T c) req) w = (out, w')"
    and ev: "new_events w w' = GetAccessPolicy req (Inr a) # es"
    and live: "settled_meta L a" and clear: "\<not> unclear_read L es"
    and st: "st = policy_status (a_Status a) es"
    and ready: "cond_stat L (pst_Conditions st) Ready = Some ConditionTrue"
  shows "garage_table srv w' = set_entry (garage_table srv w) (pst_AccessKeyID st) (pst_BucketID st)
    (spec_permissions (a_Spec a))"
proof -
  have "status_eq_laws (shared_kube K)" using K by (simp add: status_eq_laws_def shared_kube_def)
  from live_policy_ready [OF L E this run ev live clear st] ready
  obtain b k where "assigned L a b k es" "pst_BucketID st = bst_BucketID (b_Status b)"
    "pst_AccessKeyID st = kst_AccessKeyID (k_Status k)" by blast
  with assigned_table [OF E run ev this(1)] show ?thesis by simp
qed

lemma release_effect:
  assumes E: "error_laws L" and F: "finalizer_laws L"
    and run: "run_state (AccessPolicyReconciler_Reconcile L (shared_kube K)
      (garage_policy_reconciler T c) req) w = (out, w')"
    and ev: "new_events w w' = GetAccessPolicy req (Inr a) # pre @ UpdateAccessPolicy a' r # post"
    and dropped: "\<not> ContainsFinalizer L (a_Meta a') finalizerName"
  shows "garage_table srv w' \<le> garage_table srv w"
    and "if bound a then (\<exists>e. errors_Is e ErrResourceNotFound \<and> pre = [revocation a (Some e)]) \<or>
        garage_table srv w' = set_entry (garage_table srv w) (pst_AccessKeyID (a_Status a))
          (pst_BucketID (a_Status a)) no_permissions
      else garage_table srv w' = garage_table srv w"
proof -
  from released_policy [OF E F run ev dropped]
  have post: "post = []" and pre: "if bound a then \<exists>x. pre = [revocation a x] \<and> revoked x else pre = []"
    by auto
  note path = policy_run_table(1) [OF E run ev, of srv, unfolded post]
  show "garage_table srv w' \<le> garage_table srv w"
    by (rule table_narrows [OF path]) (use pre in \<open>auto simp: revocation_def split: if_splits\<close>)
  have "garage_table srv w' = set_entry (garage_table srv w) (pst_AccessKeyID (a_Status a))
      (pst_BucketID (a_Status a)) no_permissions" if "pre = [revocation a None]"
    using path that by (auto simp: set_effect_def revocation_def)
  moreover have "garage_table srv w' = garage_table srv w" if "pre = []"
    using path that by auto
  moreover from pre have "\<exists>e. errors_Is e ErrResourceNotFound \<and> pre = [revocation a (Some e)]"
    if "bound a" "pre \<noteq> [revocation a None]"
    using that by (auto simp: revoked_def split: option.splits) (metis not_None_eq)
  ultimately show "if bound a then (\<exists>e. errors_Is e ErrResourceNotFound \<and> pre = [revocation a (Some e)]) \<or>
        garage_table srv w' = set_entry (garage_table srv w) (pst_AccessKeyID (a_Status a))
          (pst_BucketID (a_Status a)) no_permissions
      else garage_table srv w' = garage_table srv w" using pre by (auto split: if_splits)
qed

text \<open>
  C5: what a policy leaves behind when a run drops its finalizer.  No entry of Garage's
  permissions is wider than before.  When the status the run read recorded both a key and a
  bucket, that key holds no permission on that bucket, unless Garage reported the key or the
  bucket missing.  When one of the two IDs was not recorded, nothing is revoked: every entry
  stays as it was, a grant of this policy included: an earlier run clears the ID when the bucket
  or key is gone, whatever the revocation answered.
\<close>

theorem released_policy_revoked:
  assumes E: "error_laws L" and F: "finalizer_laws L"
    and run: "run_state (AccessPolicyReconciler_Reconcile L (shared_kube K)
      (garage_policy_reconciler T c) req) w = (out, w')"
    and ev: "new_events w w' = GetAccessPolicy req (Inr a) # pre @ UpdateAccessPolicy a' r # post"
    and dropped: "\<not> ContainsFinalizer L (a_Meta a') finalizerName"
  shows "garage_table srv w' \<le> garage_table srv w \<and>
    (if bound a then (\<exists>e. errors_Is e ErrResourceNotFound \<and> pre = [revocation a (Some e)]) \<or>
        garage_table srv w' = set_entry (garage_table srv w) (pst_AccessKeyID (a_Status a))
          (pst_BucketID (a_Status a)) no_permissions
      else garage_table srv w' = garage_table srv w)"
  by (intro conjI release_effect [OF assms])

section \<open>Histories\<close>

text \<open>
  A history of the system: runs of the three reconcilers, in any order and for any objects,
  between which the cluster and the state of the server behind the transport may change in any
  way (edits, other controllers, the API server; new buckets and keys in Garage).
  \<open>hs\<close> keeps the calls of the runs of the AccessPolicy controller.
\<close>

inductive system_history ::
  "lib \<Rightarrow> 'k kube \<Rightarrow> 's transport \<Rightarrow> adminAPIHttpClient \<Rightarrow> string \<Rightarrow> ('k \<times> 's gworld) cworld \<Rightarrow>
     ctrl_event list list \<Rightarrow> ('k \<times> 's gworld) cworld \<Rightarrow> bool"
  for L :: lib and K :: "'k kube" and T :: "'s transport" and c endpoint w0
where
  start: "system_history L K T c endpoint w0 [] w0"
| bucket_ran: "system_history L K T c endpoint w0 hs w'"
    if "system_history L K T c endpoint w0 hs w"
      "run_state (BucketReconciler_Reconcile L (shared_kube K) (garage_bucket_reconciler T c endpoint) req) w
        = (out, w')"
| key_ran: "system_history L K T c endpoint w0 hs w'"
    if "system_history L K T c endpoint w0 hs w"
      "run_state (AccessKeyReconciler_Reconcile L (shared_kube K) (garage_key_reconciler T c) req) w
        = (out, w')"
| policy_ran: "system_history L K T c endpoint w0 (new_events w w' # hs) w'"
    if "system_history L K T c endpoint w0 hs w"
      "run_state (AccessPolicyReconciler_Reconcile L (shared_kube K) (garage_policy_reconciler T c) req) w
        = (out, w')"
| outside_changed: "system_history L K T c endpoint w0 hs (w\<lparr>ext := (k, (snd (ext w))\<lparr>ext := s\<rparr>)\<rparr>)"
    if "system_history L K T c endpoint w0 hs w"

text \<open>A run that asked for a flag on an entry: it read a policy of the cluster that asks for it,
  and both of the policy's dependencies as ready with the IDs of the entry.\<close>

definition granted_by ::
  "lib \<Rightarrow> (s3_permissions \<Rightarrow> bool) \<Rightarrow> string \<Rightarrow> string \<Rightarrow> ctrl_event list \<Rightarrow> bool" where
  "granted_by L flag i j es \<longleftrightarrow> (\<exists>req a b k rest. es = GetAccessPolicy req (Inr a) # rest \<and>
     settled_meta L a \<and> attempted L a b k rest \<and> kst_AccessKeyID (k_Status k) = i \<and>
     bst_BucketID (b_Status b) = j \<and> flag (spec_permissions (a_Spec a)))"

lemma quiet_duty:
  assumes "list_all bucket_duty es \<or> list_all key_duty es"
  shows "PermissionsSet k b p r \<notin> set es"
  using assms by (auto simp: list_all_iff)

lemma quiet_run:
  assumes "tracks (cluster_view srv) (service_duty d) m" and "d = bucket_duty \<or> d = key_duty"
    and "run_state m w = (a, w')"
  shows "garage_table srv w' = garage_table srv w"
proof -
  have "list_all bucket_duty (new_events w w') \<or> list_all key_duty (new_events w w')"
    using run_table(2) [OF assms(1,3)] assms(2) by auto
  with table_frame [OF run_table(1) [OF assms(1,3)]] quiet_duty show ?thesis
    by (intro ext) blast
qed

lemma policy_ran_flag:
  fixes T :: "'s transport" and K :: "'k kube"
  assumes E: "error_laws L"
    and run: "run_state (AccessPolicyReconciler_Reconcile L (shared_kube K)
      (garage_policy_reconciler T c) req) w = (out, w')"
    and flag: "flag \<in> {p_Owner, p_Read, p_Write}" "flag (garage_table srv w' i j)"
  shows "flag (garage_table srv w i j) \<or> granted_by L flag i j (new_events w w')"
  using produces_run [OF AccessPolicy_Reconcile_trace [OF E] run]
proof (elim disjE exE conjE)
  fix e
  assume "new_events w w' = [GetAccessPolicy req (Inl e)]"
  with run_table(1) [OF garage_tracks(3) run, of srv] have "garage_table srv w' = garage_table srv w"
    by simp
  with flag show ?thesis by simp
next
  fix a es
  assume ev: "new_events w w' = GetAccessPolicy req (Inr a) # es"
    and shape: "policy_run L (shared_kube K :: ('k \<times> 's gworld) kube) a out es"
  from table_bound [OF policy_run_table(1) [OF E run ev, of srv], of i j]
  consider "garage_table srv w' i j \<le> garage_table srv w i j"
    | p r where "PermissionsSet i j p r \<in> set es" "garage_table srv w' i j \<le> p" by blast
  then show ?thesis
  proof cases
    case 1
    with flag show ?thesis by (auto simp: perm_le_def)
  next
    case 2
    with flag have "flag p" by (auto simp: perm_le_def)
    then have "p \<noteq> no_permissions" using flag(1) by (auto simp: no_permissions_def)
    with granting_run [OF shape 2(1)] obtain b k where "settled_meta L a" "attempted L a b k es"
      "PermissionsSet i j p r = grant a b k r" by blast
    with \<open>flag p\<close> have "granted_by L flag i j (new_events w w')"
      unfolding granted_by_def ev by (auto simp: grant_def)
    then show ?thesis ..
  qed
qed

text \<open>
  C1: in every history of the system, no access without a policy: a flag that a key has on a
  bucket in Garage was there before the controllers started, or a run of the AccessPolicy
  controller asked for it, having read a policy that asks for this flag, is not being deleted
  and carries its finalizer, and whose bucket and access key it read as ready with exactly
  these IDs.  No run of the other controllers and no change of the cluster gives access, and
  neither does a request that Garage carried out without acknowledging it.
\<close>

theorem no_access_without_policy:
  assumes E: "error_laws L" and hist: "system_history L K T c endpoint w0 hs w"
    and flag: "flag \<in> {p_Owner, p_Read, p_Write}" "flag (garage_table srv w i j)"
  shows "flag (garage_table srv w0 i j) \<or> (\<exists>es \<in> set hs. granted_by L flag i j es)"
  using hist flag(2)
proof induction
  case (bucket_ran hs w req out w')
  with quiet_run [OF garage_tracks(1) _ bucket_ran(2)] show ?case by simp
next
  case (key_ran hs w req out w')
  with quiet_run [OF garage_tracks(2) _ key_ran(2)] show ?case by simp
next
  case (policy_ran hs w req out w')
  from policy_ran_flag [OF E policy_ran(2) flag(1) policy_ran(4)] policy_ran.IH show ?case by auto
next
  case (outside_changed hs w k s)
  then show ?case by (simp add: garage_table_def granted_from_def)
qed simp

section \<open>An example\<close>

text \<open>The policy of the example, on a Garage that acknowledges everything.\<close>

definition sys_world :: "(store \<times> unit gworld) cworld" where
  "sys_world = \<lparr>ext = (empty_store, empty_gworld), log = []\<rparr>"

lemma shared_kube_sel [simp]:
  "kGetAccessPolicy (shared_kube K) n = on_cluster (kGetAccessPolicy K n)"
  "kGetBucket (shared_kube K) n = on_cluster (kGetBucket K n)"
  "kGetAccessKey (shared_kube K) n = on_cluster (kGetAccessKey K n)"
  "kPatchAccessPolicyStatus (shared_kube K) a = on_cluster (kPatchAccessPolicyStatus K a)"
  "kUpdateAccessPolicy (shared_kube K) a = on_cluster (kUpdateAccessPolicy K a)"
  "AccessPolicyStatusEqual (shared_kube K) = AccessPolicyStatusEqual K"
  by (simp_all add: shared_kube_def)

definition sys_run_from ::
  "(store \<times> unit gworld) cworld \<Rightarrow> AccessPolicy \<Rightarrow> outcome \<times> (store \<times> unit gworld) cworld" where
  "sys_run_from w a = run_state (AccessPolicyReconciler_Reconcile plain_lib (shared_kube (policy_kube a))
     (garage_policy_reconciler ack_all admin_client) ex_req) w"

definition sys_run :: "AccessPolicy \<Rightarrow> outcome \<times> (store \<times> unit gworld) cworld" where
  "sys_run a = run_state (AccessPolicyReconciler_Reconcile plain_lib (shared_kube (policy_kube a))
     (garage_policy_reconciler ack_all admin_client) ex_req) sys_world"

lemma on_cluster_reads [simp]: "f (fst s) = (r, fst s) \<Longrightarrow> on_cluster f s = (r, s)"
  by (simp add: on_cluster_def)

lemma ack_sets [simp]:
  "fst (on_garage (SetPermissions ack_all admin_client k b p) s) = None"
  "fst (snd (on_garage (SetPermissions ack_all admin_client k b p) s)) = fst s"
  by (simp_all add: on_garage_def SetPermissions_def denyBucketKey_def allowBucketKey_def
      doRequest_def send_def ack_all_def Let_def split: prod.splits)

lemma garage_policy_sel [simp]:
  "admin_SetPermissions (garage_policy_reconciler T c) k b p = on_garage (SetPermissions T c k b p)"
  by (simp add: garage_policy_reconciler_def NewAccessPolicyReconciler_def)

lemma sys_policy_run:
  "log (snd (sys_run ex_pol)) = GetAccessPolicy ex_req (Inr ex_pol) #
    dependency_reads ex_pol ex_rbucket ex_ready_key @
      grant ex_pol ex_rbucket ex_ready_key None # [PatchAccessPolicyStatus ex_assigned None]"
proof -
  have "fst (run_state (reconcilePolicy plain_lib (shared_kube (policy_kube ex_pol))
      (garage_policy_reconciler ack_all admin_client) (initializePolicyConditions plain_lib ex_pol)) w) =
    (markPolicyAssignmentReady plain_lib
      (policy_bound plain_lib ex_rbucket ex_ready_key (initializePolicyConditions plain_lib ex_pol)), None)"
    and "log (snd (run_state (reconcilePolicy plain_lib (shared_kube (policy_kube ex_pol))
      (garage_policy_reconciler ack_all admin_client) (initializePolicyConditions plain_lib ex_pol)) w)) =
     log w @ dependency_reads ex_pol ex_rbucket ex_ready_key @ [grant ex_pol ex_rbucket ex_ready_key None]"
    for w :: "(store \<times> unit gworld) cworld"
    by (simp_all add: reconcilePolicy_def resolveBucket_def resolveAccessKey_def checkBucket_def
        checkAccessKey_def run_eval Let_def assignPermissions_def setPermissions_def dependency_reads_def
        grant_def policy_bound_def set_bucket_id_def set_key_id_def policy_bucket_def policy_key_def)
  then show ?thesis
    by (simp add: sys_run_def AccessPolicyReconciler_Reconcile_def run_eval Let_def ex_labelled
        reconcileLivePolicy_def case_prod_beta ex_assigned_update finishPolicy_def policyResult_def
        ex_assigned_changes sys_world_def)
qed

lemma sys_events:
  "new_events sys_world (snd (sys_run ex_pol)) = GetAccessPolicy ex_req (Inr ex_pol) #
    dependency_reads ex_pol ex_rbucket ex_ready_key @
      grant ex_pol ex_rbucket ex_ready_key None # [PatchAccessPolicyStatus ex_assigned None]"
  by (simp add: new_events_def sys_policy_run sys_world_def)

lemma deleted_events:
  "new_events w (snd (sys_run_from w ex_del_pol)) = GetAccessPolicy ex_req (Inr ex_del_pol) #
    [revocation ex_del_pol None] @
    UpdateAccessPolicy (policy_unfinalized plain_lib (fst (ensureLabels ex_del_pol))) None # []"
  by (simp add: sys_run_from_def new_events_def AccessPolicyReconciler_Reconcile_def run_eval
      Let_def ex_labelled finalizePolicy_def setPermissions_def releasePolicy_def
      policy_unfinalized_def revocation_def policy_kube_def store_kube_def)

abbreviation no_access :: perm_table where
  "no_access \<equiv> \<lambda>_ _. no_permissions"

theorem policy_run_effect_witness:
  "garage_table (server_with no_access) (snd (sys_run ex_pol)) ''GK2'' ''id1'' = spec_permissions (a_Spec ex_policy)"
proof -
  from policy_run_effect [OF plain_lib_error_laws surjective_pairing sys_events [unfolded sys_run_def]
      refl refl] ex_assigned_facts(2)
  show ?thesis by (simp add: sys_run_def)
qed

theorem ready_policy_in_force_witness:
  "garage_table (server_with no_access) (snd (sys_run ex_pol)) = set_entry no_access
     (pst_AccessKeyID (a_Status ex_assigned)) (pst_BucketID (a_Status ex_assigned))
     (spec_permissions (a_Spec ex_policy))"
proof -
  have st: "a_Status ex_assigned = policy_status (a_Status ex_pol) (dependency_reads ex_pol ex_rbucket ex_ready_key @
      grant ex_pol ex_rbucket ex_ready_key None # [PatchAccessPolicyStatus ex_assigned None])"
    by (simp add: dependency_reads_def grant_def)
  have ready: "cond_stat plain_lib (pst_Conditions (a_Status ex_assigned)) Ready = Some ConditionTrue"
    unfolding ex_assigned_def
    by (subst policy_reported_simps(2) [OF plain_lib_cond_laws ex_assigned_parts [OF plain_lib_cond_laws]])
      (simp add: policy_parts_true_def policy_bound_def cond_stat_view
        policy_mark_view [OF plain_lib_cond_laws])
  have start: "garage_table (server_with no_access) sys_world = no_access"
    by (simp add: garage_table_def sys_world_def granted_from_def empty_gworld_def)
  from ready_policy_in_force [OF plain_lib_cond_laws plain_lib_error_laws policy_kube_status_eq(1)
      surjective_pairing sys_events [unfolded sys_run_def] ex_settled(1) ex_assigned_facts(1) st ready,
      of "server_with no_access"] start
  show ?thesis by (simp add: sys_run_def)
qed

lemma ex_released: "\<not> ContainsFinalizer plain_lib
    (a_Meta (policy_unfinalized plain_lib (fst (ensureLabels ex_del_pol)))) finalizerName"
  and ex_del_bound: "bound ex_del_pol"
  by (simp_all add: policy_unfinalized_def list_ex_iff bound_def)

theorem released_policy_revoked_witness:
  "garage_table (server_with (\<lambda>_ _. rw_perms)) (snd (sys_run ex_del_pol)) ''GK2'' ''id1'' = no_permissions"
  using released_policy_revoked [OF plain_lib_error_laws plain_lib_finalizer_laws surjective_pairing
      deleted_events [unfolded sys_run_from_def, of sys_world] ex_released, of "server_with (\<lambda>_ _. rw_perms)"]
    ex_del_bound
  by (auto simp: sys_run_def revocation_def)

theorem no_access_without_policy_witness:
  "\<exists>es \<in> {new_events sys_world (snd (sys_run ex_pol))}. granted_by plain_lib p_Read ''GK2'' ''id1'' es"
proof -
  have hist: "system_history plain_lib (policy_kube ex_pol) ack_all admin_client endpoint sys_world
      [new_events sys_world (snd (sys_run ex_pol))] (snd (sys_run ex_pol))"
    unfolding sys_run_def
    by (rule system_history.policy_ran [OF system_history.start surjective_pairing])
  have "garage_table (server_with no_access) (snd (sys_run ex_pol)) ''GK2'' ''id1'' = spec_permissions (a_Spec ex_policy)"
    using assigned_table [OF plain_lib_error_laws surjective_pairing sys_events [unfolded sys_run_def]
      ex_assigned_facts(2), of "server_with no_access"] by (simp add: sys_run_def)
  then have "p_Read (garage_table (server_with no_access) (snd (sys_run ex_pol)) ''GK2'' ''id1'')"
    by (simp add: spec_permissions_def ex_policy_def)
  with no_access_without_policy [OF plain_lib_error_laws hist, of p_Read "server_with no_access" "''GK2''" "''id1''"]
  show ?thesis
    by (simp add: garage_table_def sys_world_def granted_from_def empty_gworld_def no_permissions_def)
qed

section \<open>Returning\<close>

text \<open>
  C35: the reconcilers, wired as in \<open>main\<close>, always return: none panics on a condition it
  dereferences, whatever the objects it reads and whatever the services answer.  A delay before
  the next run lies between 5 seconds and 15 minutes, never comes together with an error (so
  that the runtime's two retry mechanisms are never both asked for), and the AccessKey
  controller asks for none.
\<close>

theorem controllers_return:
  fixes w :: "('k \<times> 's gworld) cworld"
  assumes L: "cond_laws L" and E: "error_laws L"
  shows "(\<exists>res err. fst (run_state (BucketReconciler_Reconcile L (shared_kube K)
        (garage_bucket_reconciler T c endpoint) req) w) = Returned res err \<and>
      (res = no_requeue \<or> err = None \<and> requeue_bounded res)) \<and>
    (\<exists>err. fst (run_state (AccessKeyReconciler_Reconcile L (shared_kube K)
        (garage_key_reconciler T c) req) w) = Returned no_requeue err) \<and>
    (\<exists>res err. fst (run_state (AccessPolicyReconciler_Reconcile L (shared_kube K)
        (garage_policy_reconciler T c) req) w) = Returned res err \<and>
      (res = no_requeue \<or> err = None \<and> policy_delay res))"
  using BucketReconciler_outcome [OF surjective_pairing]
    AccessKeyReconciler_outcome [OF L surjective_pairing]
    AccessPolicyReconciler_outcome [OF L E surjective_pairing]
  unfolding garage_bucket_reconciler_def by blast

theorem controllers_return_witness:
  "\<exists>err. fst (run_state (AccessKeyReconciler_Reconcile plain_lib (shared_kube (policy_kube ex_pol))
     (garage_key_reconciler ack_all admin_client) ex_req) sys_world) = Returned no_requeue err"
  using controllers_return [OF plain_lib_cond_laws plain_lib_error_laws] by blast

end
