(* ===== verification/Resting.thy ===== *)
theory Resting
  imports AccessKeyHistory AccessPolicyProps
begin

text \<open>
  Statuses at rest: what a run that meets no obstacle leaves in the status of a bucket and of a
  policy, and that the same run leaves such a status as it is, down to the list of conditions,
  so that the comparison in front of the status patch finds nothing to write.
\<close>

section \<open>Buckets\<close>

definition bucket_rest :: "lib \<Rightarrow> Bucket \<Rightarrow> bool" where
  "bucket_rest L b \<longleftrightarrow>
     cond_view L (b_Conditions b) BucketReady =
       Some (ConditionTrue, ''BucketReady'', ''Bucket resource is ready'', b_Generation b) \<and>
     cond_view L (b_Conditions b) BucketConfigMapReady = Some (ConditionTrue, ''ConfigMapReady'',
       ''ConfigMap with external bucket details is ready'', b_Generation b) \<and>
     cond_view L (b_Conditions b) Ready =
       Some (ConditionTrue, defaultReadyReason, defaultReadyMessage, b_Generation b) \<and>
     bst_ObservedGeneration (b_Status b) = b_Generation b \<and> bst_BucketID (b_Status b) \<noteq> [] \<and>
     (bst_BucketName (b_Status b) = [] \<longrightarrow> external_name b = [])"

text \<open>What a bucket that was found and published is reported as.\<close>

definition bucket_reported :: "lib \<Rightarrow> s3_bucket \<Rightarrow> Bucket \<Rightarrow> Bucket" where
  "bucket_reported L s b = updateBucketReadyCondition L
     (bucket_published L (fill_identity s (external_name b) (initializeBucketConditions L b)))"

lemma bucket_published_simps:
  "b_Meta (bucket_published L b) = b_Meta b" "b_Spec (bucket_published L b) = b_Spec b"
  "bst_ObservedGeneration (b_Status (bucket_published L b)) = bst_ObservedGeneration (b_Status b)"
  "bst_BucketID (b_Status (bucket_published L b)) = bst_BucketID (b_Status b)"
  "bst_BucketName (b_Status (bucket_published L b)) = bst_BucketName (b_Status b)"
  by (simp_all add: bucket_published_def updateBucketCMCondition_def markBucketReady_def)

lemma bucket_published_view:
  "cond_laws L \<Longrightarrow> cond_view L (b_Conditions (bucket_published L b)) t =
     (if t = BucketConfigMapReady then Some (ConditionTrue, ''ConfigMapReady'',
        ''ConfigMap with external bucket details is ready'', b_Generation b)
      else if t = BucketReady
      then Some (ConditionTrue, ''BucketReady'', ''Bucket resource is ready'', b_Generation b)
      else cond_view L (b_Conditions b) t)"
  by (simp add: bucket_published_def mark_view)

lemma all_parts_ready:
  assumes "cond_view L cs BucketReady = Some (ConditionTrue, r, m, g)"
    and "cond_view L cs BucketConfigMapReady = Some (ConditionTrue, r', m', g')"
  shows "summary (part_views L cs bucket_parts) bucket_waiting =
      (ConditionTrue, defaultReadyReason, defaultReadyMessage)"
    and "\<forall>t \<in> fst ` set bucket_parts. FindStatusCondition L cs t \<noteq> None"
  using assms by (auto simp: summary_def part_views_def part_view_def bucket_parts_def find_None_view)

lemma published_ready:
  assumes L: "cond_laws L"
  shows "updateBucketReadyCondition L (bucket_published L b) = set_ready_bucket L
    (ConditionTrue, defaultReadyReason, defaultReadyMessage) (bucket_published L b)"
proof -
  have v: "cond_view L (b_Conditions (bucket_published L b)) BucketReady =
      Some (ConditionTrue, ''BucketReady'', ''Bucket resource is ready'', b_Generation b)"
    "cond_view L (b_Conditions (bucket_published L b)) BucketConfigMapReady = Some (ConditionTrue,
      ''ConfigMapReady'', ''ConfigMap with external bucket details is ready'', b_Generation b)"
    by (simp_all add: bucket_published_view [OF L])
  show ?thesis
    by (simp only: updateBucketReady_summary [OF all_parts_ready(2) [OF v]] all_parts_ready(1) [OF v])
qed

lemma external_name_same:
  "b_Spec x = b_Spec y \<Longrightarrow> b_Meta x = b_Meta y \<Longrightarrow> external_name x = external_name y"
  by (simp add: external_name_def split: option.split)

lemma bucket_reported_rest:
  assumes L: "cond_laws L" and s: "sb_ID s \<noteq> []"
  shows "bucket_rest L (bucket_reported L s b)"
proof -
  let ?b = "fill_identity s (external_name b) (initializeBucketConditions L b)"
  let ?p = "bucket_published L ?b" and ?r = "bucket_reported L s b"
  have r: "?r = set_ready_bucket L (ConditionTrue, defaultReadyReason, defaultReadyMessage) ?p"
    by (simp add: bucket_reported_def published_ready [OF L])
  have p: "b_Meta ?p = b_Meta b" "b_Spec ?p = b_Spec b" "bst_BucketID (b_Status ?p) \<noteq> []"
    "bst_BucketName (b_Status ?p) = [] \<longrightarrow> external_name b = []"
    using s by (simp_all add: bucket_published_simps fill_identity_def initializeBucketConditions_def)
  have gen: "b_Generation (fill_identity s (external_name b) (initializeBucketConditions L b)) = b_Generation b"
    by (simp add: initializeBucketConditions_def)
  note r_simps = set_ready_bucket_simps [OF L, of "(ConditionTrue, defaultReadyReason, defaultReadyMessage)" ?p,
      folded r, unfolded p(1,2)]
  have "cond_view L (b_Conditions ?r) t =
      (if t = Ready then Some (ConditionTrue, defaultReadyReason, defaultReadyMessage, b_Generation b)
       else cond_view L (b_Conditions ?p) t)" for t
    by (simp only: r_simps(1) prod.case)
  then show ?thesis
    using p(3,4) external_name_same [OF r_simps(4,3)]
    by (simp add: bucket_rest_def r_simps bucket_published_view [OF L] gen)
qed

text \<open>A bucket at rest is left as it is.\<close>

lemma bucket_rest_fixed:
  assumes L: "cond_laws L" and rest: "bucket_rest L b"
  shows "bucket_reported L s b = b"
proof -
  from rest have v: "cond_view L (b_Conditions b) BucketReady =
      Some (ConditionTrue, ''BucketReady'', ''Bucket resource is ready'', b_Generation b)"
    "cond_view L (b_Conditions b) BucketConfigMapReady = Some (ConditionTrue,
      ''ConfigMapReady'', ''ConfigMap with external bucket details is ready'', b_Generation b)"
    "cond_view L (b_Conditions b) Ready =
       Some (ConditionTrue, defaultReadyReason, defaultReadyMessage, b_Generation b)"
    by (simp_all add: bucket_rest_def)
  have "initResourceConditions L [Ready, BucketReady, BucketConfigMapReady] (b_Conditions b) = b_Conditions b"
    by (rule init_idle) (use v in \<open>auto simp: find_None_view\<close>)
  then have init: "initializeBucketConditions L b = b"
    by (simp add: initializeBucketConditions_def b_set_conditions_def)
  have fill: "fill_identity s (external_name b) b = b"
    using rest by (simp add: fill_identity_def bucket_rest_def)
  have pub: "bucket_published L b = b"
    using v by (simp add: bucket_published_def updateBucketCMCondition_def markBucketReady_def
        set_view_idle [OF L] b_set_conditions_def)
  show ?thesis
    using rest v(3) published_ready [OF L, of b]
    by (simp add: bucket_reported_def init fill pub set_ready_bucket_def Let_def set_view_idle [OF L]
        b_set_conditions_def bucket_rest_def)
qed

section \<open>Policies\<close>

definition policy_rest :: "lib \<Rightarrow> Bucket \<Rightarrow> AccessKey \<Rightarrow> AccessPolicy \<Rightarrow> bool" where
  "policy_rest L b k a \<longleftrightarrow>
     cond_view L (a_Conditions a) PolicyBucketReady =
       Some (ConditionTrue, ''BucketReady'', ''Bucket is ready for assignment'', a_Generation a) \<and>
     cond_view L (a_Conditions a) PolicyAccessKeyReady =
       Some (ConditionTrue, ''AccessKeyReady'', ''AccessKey is ready for assignment'', a_Generation a) \<and>
     cond_view L (a_Conditions a) PolicyAssignmentReady = Some (ConditionTrue, ''AccessPolicyAssigned'',
       ''Access policy configured in external system.'', a_Generation a) \<and>
     cond_view L (a_Conditions a) Ready =
       Some (ConditionTrue, defaultReadyReason, defaultReadyMessage, a_Generation a) \<and>
     pst_ObservedGeneration (a_Status a) = a_Generation a \<and>
     pst_BucketID (a_Status a) = bst_BucketID (b_Status b) \<and>
     pst_AccessKeyID (a_Status a) = kst_AccessKeyID (k_Status k)"

text \<open>What a policy that was assigned is reported as.\<close>

definition policy_placed :: "lib \<Rightarrow> Bucket \<Rightarrow> AccessKey \<Rightarrow> AccessPolicy \<Rightarrow> AccessPolicy" where
  "policy_placed L b k a = markPolicyAssignmentReady L (policy_bound L b k (initializePolicyConditions L a))"

lemma policy_placed_simps:
  assumes L: "cond_laws L"
  shows "a_Meta (policy_placed L b k a) = a_Meta a" "a_Spec (policy_placed L b k a) = a_Spec a"
    and "pst_ObservedGeneration (a_Status (policy_placed L b k a)) = pst_ObservedGeneration (a_Status a)"
    and "pst_BucketID (a_Status (policy_placed L b k a)) = bst_BucketID (b_Status b)"
    and "pst_AccessKeyID (a_Status (policy_placed L b k a)) = kst_AccessKeyID (k_Status k)"
    and "cond_view L (a_Conditions (policy_placed L b k a)) PolicyBucketReady =
       Some (ConditionTrue, ''BucketReady'', ''Bucket is ready for assignment'', a_Generation a)"
    and "cond_view L (a_Conditions (policy_placed L b k a)) PolicyAccessKeyReady =
       Some (ConditionTrue, ''AccessKeyReady'', ''AccessKey is ready for assignment'', a_Generation a)"
    and "cond_view L (a_Conditions (policy_placed L b k a)) PolicyAssignmentReady =
       Some (ConditionTrue, ''AccessPolicyAssigned'', ''Access policy configured in external system.'', a_Generation a)"
  by (simp_all add: policy_placed_def policy_bound_def policy_mark_view [OF L] initializePolicyConditions_def)

lemma policy_placed_ready:
  assumes "cond_view L (a_Conditions a) PolicyBucketReady = Some (ConditionTrue, r, m, g)"
    and "cond_view L (a_Conditions a) PolicyAccessKeyReady = Some (ConditionTrue, r', m', g')"
    and "cond_view L (a_Conditions a) PolicyAssignmentReady = Some (ConditionTrue, r'', m'', g'')"
  shows "policy_reported L a = set_ready_policy L (ConditionTrue, defaultReadyReason, defaultReadyMessage) a"
proof -
  have "summary (part_views L (a_Conditions a) policy_parts) policy_waiting =
      (ConditionTrue, defaultReadyReason, defaultReadyMessage)"
    using assms by (simp add: summary_def part_views_def part_view_def policy_parts_def)
  then show ?thesis by (simp add: policy_reported_def)
qed

lemma policy_placed_rest:
  assumes L: "cond_laws L"
  shows "policy_rest L b k (policy_reported L (policy_placed L b k a))"
proof -
  note s = policy_placed_simps [OF L, of b k a]
  show ?thesis
    unfolding policy_placed_ready [OF s(6-8)]
    by (simp add: policy_rest_def set_ready_policy_simps [OF L] s)
qed

lemma policy_placed_generation:
  "cond_laws L \<Longrightarrow> a_Generation (policy_reported L (policy_placed L b k a)) = a_Generation a"
  by (simp add: policy_reported_def set_ready_policy_simps policy_placed_simps)

lemma policy_rest_fixed:
  assumes L: "cond_laws L" and rest: "policy_rest L b k a"
  shows "policy_reported L (policy_placed L b k a) = a"
proof -
  from rest have v: "cond_view L (a_Conditions a) PolicyBucketReady =
       Some (ConditionTrue, ''BucketReady'', ''Bucket is ready for assignment'', a_Generation a)"
    "cond_view L (a_Conditions a) PolicyAccessKeyReady =
       Some (ConditionTrue, ''AccessKeyReady'', ''AccessKey is ready for assignment'', a_Generation a)"
    "cond_view L (a_Conditions a) PolicyAssignmentReady =
       Some (ConditionTrue, ''AccessPolicyAssigned'', ''Access policy configured in external system.'', a_Generation a)"
    "cond_view L (a_Conditions a) Ready =
       Some (ConditionTrue, defaultReadyReason, defaultReadyMessage, a_Generation a)"
    by (simp_all add: policy_rest_def)
  have "initResourceConditions L [Ready, PolicyAccessKeyReady, PolicyBucketReady, PolicyAssignmentReady]
      (a_Conditions a) = a_Conditions a"
    by (rule init_idle) (use v in \<open>auto simp: find_None_view\<close>)
  then have init: "initializePolicyConditions L a = a"
    by (simp add: initializePolicyConditions_def a_set_conditions_def)
  have marks: "markPolicyBucketReady L a = a" "markPolicyKeyReady L a = a" "markPolicyAssignmentReady L a = a"
    using v by (simp_all add: policy_mark_defs set_view_idle [OF L] a_set_conditions_def)
  have ids: "set_bucket_id (bst_BucketID (b_Status b)) a = a" "set_key_id (kst_AccessKeyID (k_Status k)) a = a"
    using rest by (simp_all add: policy_rest_def set_bucket_id_def set_key_id_def)
  have placed: "policy_placed L b k a = a"
    by (simp only: policy_placed_def policy_bound_def init ids marks)
  have obs: "pst_ObservedGeneration (a_Status a) = a_Generation a" using rest by (simp add: policy_rest_def)
  have "SetStatusCondition L (a_Conditions a) (mk_condition Ready ConditionTrue defaultReadyReason
      defaultReadyMessage (a_Generation a)) = a_Conditions a"
    by (rule set_view_idle [OF L]) (simp add: v(4))
  with obs show ?thesis
    by (simp add: placed policy_placed_ready [OF v(1-3)] set_ready_policy_def Let_def a_set_conditions_def)
qed

text \<open>The labels have no part in it.\<close>

lemma policy_rest_same:
  "a_Status a' = a_Status a \<Longrightarrow> a_Generation a' = a_Generation a \<Longrightarrow>
     bst_BucketID (b_Status b') = bst_BucketID (b_Status b) \<Longrightarrow>
     kst_AccessKeyID (k_Status k') = kst_AccessKeyID (k_Status k) \<Longrightarrow>
     policy_rest L b' k' a' = policy_rest L b k a"
  by (simp add: policy_rest_def)

text \<open>A run that assigned the permissions reports the policy as placed.\<close>

lemma assigned_report:
  assumes L: "cond_laws L" and K: "status_eq_laws K"
    and live: "live_policy_run L K (fst (ensureLabels a)) out es" and asg: "assigned L a b k es"
  shows "policy_status (a_Status a) es = a_Status (policy_reported L (policy_placed L b k (fst (ensureLabels a))))"
proof -
  let ?a = "initializePolicyConditions L (fst (ensureLabels a))"
  from live obtain a1 err es1 es2 where es: "es = es1 @ es2"
    and work: "policy_trace L ?a a1 err es1"
    and fin: "policy_finish L K (a_Status (fst (ensureLabels a))) (policy_reported L a1) err out es2"
    by (rule live_policy_runE [OF L])
  have es2: "list_all (\<lambda>e. \<exists>a p. e = PatchAccessPolicyStatus a p) es2"
    unfolding list_all_iff using policy_finish_events [OF fin] by blast
  from asg have asg1: "assigned L ?a b k es1"
    by (simp add: es assigned_append [OF es2]) (simp add: assigned_def)
  have "a1 = policy_placed L b k (fst (ensureLabels a))"
    using work
  proof (cases rule: policy_traceE)
    case (assigned b' k')
    with asg1 have "b = b' \<and> k = k'"
      by (auto simp: assigned_def dependencies_ready_def dependency_reads_def grant_def)
    then show ?thesis by (simp add: assigned(4) policy_placed_def)
  next
    case (refused b' k' e m m' m'')
    with asg1 show ?thesis by (auto simp: assigned_def grant_def dependency_reads_def)
  next
    case (unresolved a' rb rk fs1 fs2)
    with asg1 unresolved_not_assigned [OF unresolved(2,3,4)] show ?thesis by simp
  qed
  then show ?thesis
    using policy_status_finish [OF K fin] by (simp add: es policy_status_steps [OF work_steps [OF work]])
qed

end
