(* ===== verification/Cluster.thy ===== *)
theory Cluster
  imports Wiring
begin

text \<open>
  The custom resources as the API server stores them, and what a call of a controller does to
  them.  The server is not part of the repository; \<open>cluster_server\<close> states the documented
  behaviour of its operations on custom resources with a status subresource, and the lemmas
  show that the reconcilers, wired as in \<^verbatim>\<open>cmd/main.go\<close>, change the store by their calls and by
  nothing else.
\<close>

section \<open>The store\<close>

record cluster =
  cl_Buckets :: "nsname \<rightharpoonup> Bucket"
  cl_Keys :: "nsname \<rightharpoonup> AccessKey"
  cl_Policies :: "nsname \<rightharpoonup> AccessPolicy"

text \<open>A write of the status changes the status and the resource version, nothing else.\<close>

definition versioned :: "objmeta \<Rightarrow> objmeta \<Rightarrow> bool" where
  "versioned m m' \<longleftrightarrow> (\<exists>v. m' = m\<lparr>m_ResourceVersion := v\<rparr>)"

text \<open>A write of the object takes labels, owners and finalizers from the object sent; name, UID
  and timestamps stay the server's; the generation changes with the spec only.\<close>

definition server_kept :: "objmeta \<Rightarrow> objmeta \<Rightarrow> objmeta \<Rightarrow> bool" where
  "server_kept m0 m m' \<longleftrightarrow> (\<exists>v g. m' = m0\<lparr>m_Labels := m_Labels m,
     m_OwnerReferences := m_OwnerReferences m, m_Finalizers := m_Finalizers m,
     m_Generation := g, m_ResourceVersion := v\<rparr>)"

text \<open>An object that is being deleted goes with its last finalizer.\<close>

definition last_release :: "objmeta \<Rightarrow> objmeta \<Rightarrow> bool" where
  "last_release m0 m \<longleftrightarrow> m_DeletionTimestamp m0 \<noteq> None \<and> m_Finalizers m = []"

definition bucket_status_stored :: "Bucket \<Rightarrow> cluster \<Rightarrow> cluster \<Rightarrow> bool" where
  "bucket_status_stored b c c' \<longleftrightarrow> (\<exists>b0 m. cl_Buckets c (own_request (b_Meta b)) = Some b0 \<and>
     versioned (b_Meta b0) m \<and> c' = c\<lparr>cl_Buckets := (cl_Buckets c)
       (own_request (b_Meta b) \<mapsto> b0\<lparr>b_Meta := m, b_Status := b_Status b\<rparr>)\<rparr>)"

definition key_status_stored :: "AccessKey \<Rightarrow> cluster \<Rightarrow> cluster \<Rightarrow> bool" where
  "key_status_stored k c c' \<longleftrightarrow> (\<exists>k0 m. cl_Keys c (own_request (k_Meta k)) = Some k0 \<and>
     versioned (k_Meta k0) m \<and> c' = c\<lparr>cl_Keys := (cl_Keys c)
       (own_request (k_Meta k) \<mapsto> k0\<lparr>k_Meta := m, k_Status := k_Status k\<rparr>)\<rparr>)"

definition policy_status_stored :: "AccessPolicy \<Rightarrow> cluster \<Rightarrow> cluster \<Rightarrow> bool" where
  "policy_status_stored a c c' \<longleftrightarrow> (\<exists>a0 m. cl_Policies c (own_request (a_Meta a)) = Some a0 \<and>
     versioned (a_Meta a0) m \<and> c' = c\<lparr>cl_Policies := (cl_Policies c)
       (own_request (a_Meta a) \<mapsto> a0\<lparr>a_Meta := m, a_Status := a_Status a\<rparr>)\<rparr>)"

definition policy_stored :: "AccessPolicy \<Rightarrow> cluster \<Rightarrow> cluster \<Rightarrow> bool" where
  "policy_stored a c c' \<longleftrightarrow> (\<exists>a0. cl_Policies c (own_request (a_Meta a)) = Some a0 \<and>
     (if last_release (a_Meta a0) (a_Meta a)
      then c' = c\<lparr>cl_Policies := (cl_Policies c)(own_request (a_Meta a) := None)\<rparr>
      else \<exists>m. server_kept (a_Meta a0) (a_Meta a) m \<and>
        (a_Spec a = a_Spec a0 \<longrightarrow> m_Generation m = a_Generation a0) \<and>
        c' = c\<lparr>cl_Policies := (cl_Policies c)
          (own_request (a_Meta a) \<mapsto> a\<lparr>a_Meta := m, a_Status := a_Status a0\<rparr>)\<rparr>))"

definition key_stored :: "AccessKey \<Rightarrow> cluster \<Rightarrow> cluster \<Rightarrow> bool" where
  "key_stored k c c' \<longleftrightarrow> (\<exists>k0. cl_Keys c (own_request (k_Meta k)) = Some k0 \<and>
     (if last_release (k_Meta k0) (k_Meta k)
      then c' = c\<lparr>cl_Keys := (cl_Keys c)(own_request (k_Meta k) := None)\<rparr>
      else \<exists>m. server_kept (k_Meta k0) (k_Meta k) m \<and>
        (k_Spec k = k_Spec k0 \<longrightarrow> m_Generation m = k_Generation k0) \<and>
        c' = c\<lparr>cl_Keys := (cl_Keys c)
          (own_request (k_Meta k) \<mapsto> k\<lparr>k_Meta := m, k_Status := k_Status k0\<rparr>)\<rparr>))"

text \<open>A merge patch that replaces the finalizers; it answers with the object as stored.\<close>

definition finalizers_patched :: "AccessKey \<Rightarrow> AccessKey \<Rightarrow> cluster \<Rightarrow> cluster \<Rightarrow> bool" where
  "finalizers_patched k k2 c c' \<longleftrightarrow> (\<exists>k0 v. cl_Keys c (own_request (k_Meta k)) = Some k0 \<and>
     k2 = k0\<lparr>k_Meta := (k_Meta k0)
       \<lparr>m_Finalizers := m_Finalizers (k_Meta k), m_ResourceVersion := v\<rparr>\<rparr> \<and>
     c' = c\<lparr>cl_Keys := (cl_Keys c)(own_request (k_Meta k) \<mapsto> k2)\<rparr>)"

text \<open>A write that reports an error was not carried out, or was and its answer got lost.\<close>

definition carried_out_or_not :: "error option \<Rightarrow> (cluster \<Rightarrow> cluster \<Rightarrow> bool) \<Rightarrow> cluster \<Rightarrow> cluster \<Rightarrow> bool" where
  "carried_out_or_not r P c c' \<longleftrightarrow> P c c' \<or> r \<noteq> None \<and> c' = c"

fun cluster_step :: "ctrl_event \<Rightarrow> cluster \<Rightarrow> cluster \<Rightarrow> bool" where
  "cluster_step (GetBucket n r) c c' = (c' = c \<and> (\<forall>b. r = Inr b \<longrightarrow> cl_Buckets c n = Some b))"
| "cluster_step (GetAccessKey n r) c c' = (c' = c \<and> (\<forall>k. r = Inr k \<longrightarrow> cl_Keys c n = Some k))"
| "cluster_step (GetAccessPolicy n r) c c' = (c' = c \<and> (\<forall>a. r = Inr a \<longrightarrow> cl_Policies c n = Some a))"
| "cluster_step (PatchBucketStatus b r) c c' = carried_out_or_not r (bucket_status_stored b) c c'"
| "cluster_step (UpdateAccessKeyStatus k r) c c' = carried_out_or_not r (key_status_stored k) c c'"
| "cluster_step (PatchAccessPolicyStatus a r) c c' = carried_out_or_not r (policy_status_stored a) c c'"
| "cluster_step (UpdateAccessKey k r) c c' = carried_out_or_not r (key_stored k) c c'"
| "cluster_step (UpdateAccessPolicy a r) c c' = carried_out_or_not r (policy_stored a) c c'"
| "cluster_step (PatchAccessKey k r) c c' = (case r of
     Inr k2 \<Rightarrow> finalizers_patched k k2 c c'
   | Inl e \<Rightarrow> c' = c \<or> (\<exists>k2. finalizers_patched k k2 c c'))"
| "cluster_step e c c' = (c' = c)"

section \<open>The server\<close>

text \<open>An operation that answers and acts on the store as the event it is logged as says.\<close>

definition serves :: "('s \<Rightarrow> cluster) \<Rightarrow> ('s \<Rightarrow> 'a \<times> 's) \<Rightarrow> ('a \<Rightarrow> ctrl_event) \<Rightarrow> bool" where
  "serves view f ev \<longleftrightarrow> (\<forall>s r s'. f s = (r, s') \<longrightarrow> cluster_step (ev r) (view s) (view s'))"

definition cluster_server :: "('s \<Rightarrow> cluster) \<Rightarrow> 's kube \<Rightarrow> bool" where
  "cluster_server view K \<longleftrightarrow>
     (\<forall>n. serves view (kGetBucket K n) (GetBucket n)) \<and>
     (\<forall>n. serves view (kGetAccessKey K n) (GetAccessKey n)) \<and>
     (\<forall>n. serves view (kGetAccessPolicy K n) (GetAccessPolicy n)) \<and>
     (\<forall>n. serves view (kGetSecret K n) (GetSecret n)) \<and>
     (\<forall>b. serves view (kPatchBucketStatus K b) (PatchBucketStatus b)) \<and>
     (\<forall>k fs. serves view (kPatchAccessKey K k (k\<lparr>k_Meta := (k_Meta k)\<lparr>m_Finalizers := fs\<rparr>\<rparr>))
        (PatchAccessKey (k\<lparr>k_Meta := (k_Meta k)\<lparr>m_Finalizers := fs\<rparr>\<rparr>))) \<and>
     (\<forall>k. serves view (kUpdateAccessKey K k) (UpdateAccessKey k)) \<and>
     (\<forall>k. serves view (kUpdateAccessKeyStatus K k) (UpdateAccessKeyStatus k)) \<and>
     (\<forall>a. serves view (kUpdateAccessPolicy K a) (UpdateAccessPolicy a)) \<and>
     (\<forall>a. serves view (kPatchAccessPolicyStatus K a) (PatchAccessPolicyStatus a)) \<and>
     (\<forall>x f. serves view (kCreateOrUpdateConfigMap K x f) (CreateOrUpdateConfigMap x)) \<and>
     (\<forall>x f. serves view (kCreateOrUpdateSecret K x f) (CreateOrUpdateSecret x)) \<and>
     (\<forall>n l. serves view (kListConfigMaps K n l) (ListConfigMaps n l)) \<and>
     (\<forall>x. serves view (kDeleteConfigMap K x) (DeleteConfigMap x)) \<and>
     (\<forall>x. serves view (kDeleteSecret K x) (DeleteSecret x)) \<and>
     (\<forall>t s. view (snd (clockSince K t s)) = view s)"

lemma on_cluster_run: "on_cluster f s = (r, s') \<Longrightarrow> f (fst s) = (r, fst s')"
  by (auto simp: on_cluster_def split: prod.splits)

lemma on_garage_cluster: "on_garage m s = (r, s') \<Longrightarrow> fst s' = fst s"
  by (auto simp: on_garage_def split: prod.splits)

text \<open>The cluster next to Garage is the same cluster, and Garage's calls leave it alone.\<close>

lemma serves_shared: "serves view f ev \<Longrightarrow> serves (\<lambda>s. view (fst s)) (on_cluster f) ev"
  unfolding serves_def by (blast dest: on_cluster_run)

lemma serves_garage:
  "(\<And>r t. cluster_step (ev r) t t) \<Longrightarrow> serves (\<lambda>s. view (fst s)) (on_garage m) ev"
  unfolding serves_def by (auto dest: on_garage_cluster)

lemma cluster_serverD:
  assumes "cluster_server view K"
  shows "serves (\<lambda>s. view (fst s)) (kGetBucket (shared_kube K) n) (GetBucket n)"
    and "serves (\<lambda>s. view (fst s)) (kGetAccessKey (shared_kube K) n) (GetAccessKey n)"
    and "serves (\<lambda>s. view (fst s)) (kGetAccessPolicy (shared_kube K) n) (GetAccessPolicy n)"
    and "serves (\<lambda>s. view (fst s)) (kGetSecret (shared_kube K) n) (GetSecret n)"
    and "serves (\<lambda>s. view (fst s)) (kPatchBucketStatus (shared_kube K) b) (PatchBucketStatus b)"
    and "serves (\<lambda>s. view (fst s)) (kPatchAccessKey (shared_kube K) k (k\<lparr>k_Meta := (k_Meta k)\<lparr>m_Finalizers := fs\<rparr>\<rparr>))
      (PatchAccessKey (k\<lparr>k_Meta := (k_Meta k)\<lparr>m_Finalizers := fs\<rparr>\<rparr>))"
    and "serves (\<lambda>s. view (fst s)) (kUpdateAccessKey (shared_kube K) k) (UpdateAccessKey k)"
    and "serves (\<lambda>s. view (fst s)) (kUpdateAccessKeyStatus (shared_kube K) k) (UpdateAccessKeyStatus k)"
    and "serves (\<lambda>s. view (fst s)) (kUpdateAccessPolicy (shared_kube K) a) (UpdateAccessPolicy a)"
    and "serves (\<lambda>s. view (fst s)) (kPatchAccessPolicyStatus (shared_kube K) a) (PatchAccessPolicyStatus a)"
    and "serves (\<lambda>s. view (fst s)) (kCreateOrUpdateConfigMap (shared_kube K) x f) (CreateOrUpdateConfigMap x)"
    and "serves (\<lambda>s. view (fst s)) (kCreateOrUpdateSecret (shared_kube K) y g) (CreateOrUpdateSecret y)"
    and "serves (\<lambda>s. view (fst s)) (kListConfigMaps (shared_kube K) ns l) (ListConfigMaps ns l)"
    and "serves (\<lambda>s. view (fst s)) (kDeleteConfigMap (shared_kube K) x) (DeleteConfigMap x)"
    and "serves (\<lambda>s. view (fst s)) (kDeleteSecret (shared_kube K) y) (DeleteSecret y)"
  using assms unfolding cluster_server_def
  by (simp_all only: shared_kube_def kube.select_convs serves_shared)

lemma clock_cluster:
  assumes "cluster_server view K" and "clockSince (shared_kube K) t s = (d, s')"
  shows "view (fst s') = view (fst s)"
proof -
  from assms(2) have "clockSince K t (fst s) = (d, fst s')"
    by (simp add: shared_kube_def on_cluster_run)
  with assms(1) show ?thesis unfolding cluster_server_def by (metis snd_conv)
qed

section \<open>The reconcilers on it\<close>

lemma tracks_serves: "serves view f ev \<Longrightarrow> tracks view cluster_step (call f ev)"
  by (rule tracks_call) (simp add: serves_def)

lemmas cluster_intros = tracks_return tracks_bind tracks_emit tracks_observe tracks_if tracks_case_sum
  tracks_case_option tracks_case_prod tracks_case_outcome tracks_serves

lemma deleteStaleLoop_cluster:
  assumes "cluster_server view K"
  shows "tracks (\<lambda>s. view (fst s)) cluster_step (deleteStaleLoop L (shared_kube K) b d cms)"
  by (induction cms) (auto intro!: cluster_intros cluster_serverD [OF assms])

lemma bucket_cluster:
  assumes "cluster_server view K"
  shows "tracks (\<lambda>s. view (fst s)) cluster_step (BucketReconciler_Reconcile L (shared_kube K)
    (garage_bucket_reconciler T c endpoint) req)"
  unfolding BucketReconciler_Reconcile_def reconcileBucket_def finishBucket_def configureBucket_def
    publishBucket_def resolveNewBucket_def resolveExistingBucket_def verifyOwnership_def
    ensureConfigMap_def deleteStaleConfigMap_def Let_def
  by (intro cluster_intros deleteStaleLoop_cluster [OF assms])
    (auto simp: garage_bucket_reconciler_def NewBucketReconciler_def
      intro: serves_garage cluster_serverD [OF assms] dest: clock_cluster [OF assms])

lemma add_finalizer_serves:
  assumes "finalizer_laws L" and "cluster_server view K"
  shows "serves (\<lambda>s. view (fst s)) (kPatchAccessKey (shared_kube K) k (k\<lparr>k_Meta := AddFinalizer L (k_Meta k) f\<rparr>))
    (PatchAccessKey (k\<lparr>k_Meta := AddFinalizer L (k_Meta k) f\<rparr>))"
proof -
  from assms(1) obtain fs where "AddFinalizer L (k_Meta k) f = (k_Meta k)\<lparr>m_Finalizers := fs\<rparr>"
    unfolding finalizer_laws_def by blast
  with cluster_serverD(6) [OF assms(2)] show ?thesis by simp
qed

lemma key_cluster:
  assumes "finalizer_laws L" and "cluster_server view K"
  shows "tracks (\<lambda>s. view (fst s)) cluster_step (AccessKeyReconciler_Reconcile L (shared_kube K)
    (garage_key_reconciler T c) req)"
  unfolding AccessKeyReconciler_Reconcile_def reconcileLiveKey_def reconcileAccessKey_def
    establishKey_def ensureExternalKey_def ensureSecret_def writeSecret_def finishSecret_def
    cleanupOldSecret_def finishKey_def updateStatus_def finalizeKey_def releaseKey_def
    resolveExtKeyID_def Let_def
  by (intro cluster_intros add_finalizer_serves [OF assms])
    (auto simp: garage_key_reconciler_def NewAccessKeyReconciler_def
      intro: serves_garage cluster_serverD [OF assms(2)])

lemma policy_cluster:
  assumes "cluster_server view K"
  shows "tracks (\<lambda>s. view (fst s)) cluster_step (AccessPolicyReconciler_Reconcile L (shared_kube K)
    (garage_policy_reconciler T c) req)"
  unfolding AccessPolicyReconciler_Reconcile_def reconcileLivePolicy_def reconcilePolicy_def
    resolveBucket_def checkBucket_def resolveAccessKey_def checkAccessKey_def assignPermissions_def
    finishPolicy_def saveMeta_def finalizePolicy_def releasePolicy_def setPermissions_def Let_def
  by (intro cluster_intros)
    (auto simp: garage_policy_reconciler_def NewAccessPolicyReconciler_def
      intro: serves_garage cluster_serverD [OF assms])

end
