(* ===== verification/Convergence.thy ===== *)
theory Convergence
  imports System Resting Cluster
begin

text \<open>
  What one run of a reconciler achieves when its calls meet no obstacle, whatever state an
  earlier life left its object in: the bucket and the key end ready, the policy gets its
  metadata saved or its permissions granted.
\<close>

section \<open>No obstacles\<close>

text \<open>
  The answers with which the bucket \<open>b\<close> and the key \<open>k\<close> get what they ask for: reads and writes
  succeed, Garage either has a resource or creates it, the name of the secret is not taken by
  another owner, and the key that imports a bucket owns it.  The cleanup of ConfigMaps may fail.
\<close>

definition owner_secret :: "Bucket \<Rightarrow> nsname option" where
  "owner_secret b = map_option (\<lambda>spec. (m_Namespace (b_Meta b), eb_OwnerKeySecret spec))
     (bs_ExistingBucket (b_Spec b))"

fun favourable :: "lib \<Rightarrow> Bucket \<Rightarrow> AccessKey \<Rightarrow> ctrl_event \<Rightarrow> bool" where
  "favourable L b k (GetBucket n r) = (\<not> isl r)"
| "favourable L b k (GetAccessKey n r) = (\<not> isl r)"
| "favourable L b k (GetAccessPolicy n r) = (\<not> isl r)"
| "favourable L b k (GetSecret n r) =
     ((n = secret_name k \<longrightarrow> secret_free L k r) \<and> (owner_secret b = Some n \<longrightarrow> \<not> isl r))"
| "favourable L b k (PatchBucketStatus x r) = (r = None)"
| "favourable L b k (PatchAccessKey x r) = (\<not> isl r)"
| "favourable L b k (UpdateAccessKeyStatus x r) = (r = None)"
| "favourable L b k (UpdateAccessPolicy x r) = (r = None)"
| "favourable L b k (PatchAccessPolicyStatus x r) = (r = None)"
| "favourable L b k (CreateOrUpdateConfigMap x r) = (snd r = None)"
| "favourable L b k (CreateOrUpdateSecret x r) = (snd r = None)"
| "favourable L b k (DeleteSecret x r) = gone L r"
| "favourable L b k (BucketGet a r) = (case r of
     Inl e \<Rightarrow> errors_Is e ErrResourceNotFound \<and> bs_ExistingBucket (b_Spec b) = None
   | Inr s \<Rightarrow> sb_ID s \<noteq> [])"
| "favourable L b k (BucketCreate a r) = (case r of Inl e \<Rightarrow> False | Inr s \<Rightarrow> sb_ID s \<noteq> [])"
| "favourable L b k (BucketUpdate i q r) = (r = None)"
| "favourable L b k (OwnershipGet i j r) = (case r of Inl e \<Rightarrow> False | Inr p \<Rightarrow> p_Owner p)"
| "favourable L b k (PermissionsSet i j p r) = (r = None)"
| "favourable L b k (KeyGet i r) = (case r of
     Inl e \<Rightarrow> errors_Is e ErrResourceNotFound | Inr x \<Rightarrow> sk_ID x \<noteq> [])"
| "favourable L b k (KeyLookup n r) = (case r of
     Inl e \<Rightarrow> errors_Is e ErrResourceNotFound | Inr x \<Rightarrow> sk_ID x \<noteq> [])"
| "favourable L b k (KeyCreate n r) = (case r of Inl e \<Rightarrow> False | Inr x \<Rightarrow> sk_ID x \<noteq> [])"
| "favourable L b k e = True"

abbreviation unobstructed :: "lib \<Rightarrow> Bucket \<Rightarrow> AccessKey \<Rightarrow> ctrl_event list \<Rightarrow> bool" where
  "unobstructed L b k \<equiv> list_all (favourable L b k)"

text \<open>What edits by the controllers never change of an object.\<close>

definition same_identity :: "objmeta \<Rightarrow> objmeta \<Rightarrow> bool" where
  "same_identity m m' \<longleftrightarrow> m_Name m' = m_Name m \<and> m_Namespace m' = m_Namespace m \<and>
     m_UID m' = m_UID m \<and> m_Generation m' = m_Generation m \<and>
     m_DeletionTimestamp m' = m_DeletionTimestamp m"

lemma same_identity_refl [simp]: "same_identity m m"
  by (simp add: same_identity_def)

lemma same_identity_trans: "same_identity m n \<Longrightarrow> same_identity n l \<Longrightarrow> same_identity m l"
  by (simp add: same_identity_def)

lemma versioned_identity: "versioned m m' \<Longrightarrow> same_identity m m'"
  by (auto simp: versioned_def same_identity_def)

lemma versioned_refl [simp]: "versioned m m"
  unfolding versioned_def by (intro exI [of _ "m_ResourceVersion m"]) simp

lemma same_identity_own: "same_identity m m' \<Longrightarrow> own_request m' = own_request m"
  by (simp add: same_identity_def own_request_def)

section \<open>The bucket\<close>

lemma bucket_step_idle: "bucket_step e \<Longrightarrow> cluster_step e c c' \<Longrightarrow> c' = c"
  by (cases e) auto

lemma steps_idle:
  assumes "list_all P es" and "path cluster_step es c c'"
    and "\<And>e t t'. P e \<Longrightarrow> cluster_step e t t' \<Longrightarrow> t' = t"
  shows "c' = c"
  by (rule path_idle [OF assms(2)]) (use assms(1,3) in \<open>auto simp: list_all_iff\<close>)

lemma favourable_resolve:
  assumes res: "resolve_trace L b b1 r es" and fav: "unobstructed L b0 k0 es"
    and b: "b_Spec b = b_Spec b0" "m_Namespace (b_Meta b) = m_Namespace (b_Meta b0)"
  shows "\<exists>s y. r = Inr (s, y) \<and> sb_ID s \<noteq> []"
proof (cases "bs_ExistingBucket (b_Spec b)")
  case None
  with res have "new_bucket_trace L b b1 r es" by (simp add: resolve_trace_def)
  with fav show ?thesis by (auto simp: new_bucket_trace_def Let_def)
next
  case (Some spec)
  with res have ex: "existing_bucket_trace spec b b1 r es" by (simp add: resolve_trace_def)
  from Some b have own: "owner_secret b0 = Some (m_Namespace (b_Meta b), eb_OwnerKeySecret spec)"
    "bs_ExistingBucket (b_Spec b0) \<noteq> None"
    by (simp_all add: owner_secret_def)
  have open_way: "\<not> import_blocked spec (m_Namespace (b_Meta b)) es"
    using fav own by (fastforce simp: import_blocked_def list_all_iff split: sum.splits)
  with ex obtain s y where r: "r = Inr (s, y)"
    by (cases r) (auto simp: existing_bucket_trace_def)
  with ex have "BucketGet (eb_Name spec) (Inr s) \<in> set es"
    by (auto simp: existing_bucket_trace_def ownership_evidence_def)
  with fav r show ?thesis by (auto simp: list_all_iff)
qed

lemma favourable_configure:
  assumes "configure_trace L b s y b' out es" and "unobstructed L b0 k0 es"
  shows "\<exists>err. out = Returned no_requeue err" and "b' = bucket_published L (fill_identity s y b)"
proof -
  show "\<exists>err. out = Returned no_requeue err" by (rule configure_outcome [OF assms(1)])
  have exact: "x' = bucket_published L x" if "publish_trace L x x' out fs" "unobstructed L b0 k0 fs" for x x' fs
    using that by (auto simp: publish_trace_def)
  from assms(1) show "b' = bucket_published L (fill_identity s y b)"
    by (cases rule: configure_traceE) (use assms(2) exact in auto)
qed

text \<open>A run without obstacles ends with the bucket ready and identified.\<close>

definition bucket_up :: "lib \<Rightarrow> BucketStatus \<Rightarrow> bool" where
  "bucket_up L st \<longleftrightarrow> cond_stat L (bst_Conditions st) Ready = Some ConditionTrue \<and> bst_BucketID st \<noteq> []"

lemma bucket_rest_up: "bucket_rest L b \<Longrightarrow> bucket_up L (b_Status b)"
  by (simp add: bucket_rest_def bucket_up_def cond_stat_view)

lemma favourable_bucket_run:
  assumes L: "cond_laws L" and K: "status_eq_laws K" and run: "bucket_run L K R b out es"
    and fav: "unobstructed L b0 k0 es"
    and b: "b_Spec b = b_Spec b0" "m_Namespace (b_Meta b) = m_Namespace (b_Meta b0)"
  obtains b' es1 es2 where "es = es1 @ es2" and "list_all bucket_step es1"
    and "bucket_rest L b'" and "b_Meta b' = b_Meta b" and "b_Spec b' = b_Spec b"
    and "bst_BucketID (b_Status b) \<noteq> [] \<Longrightarrow> bst_BucketID (b_Status b') = bst_BucketID (b_Status b)"
    and "es2 = [] \<and> b_Status b' = b_Status b \<or> es2 = [PatchBucketStatus b' None]"
    and "bucket_rest L b \<Longrightarrow> es2 = []"
proof -
  from run obtain b1 b2 r o' es1 es2 es3 where es: "es = es1 @ es2 @ es3"
    and res: "resolve_trace L (initializeBucketConditions L b) b1 r es1"
    and settle: "settle_trace L R b1 r b2 o' es2"
    and fin: "case o' of Panicked \<Rightarrow> out = Panicked \<and> es3 = []
         | Returned result err \<Rightarrow> finish_trace L K (b_Status b) b2 result err out es3"
    by (rule bucket_runE)
  from fav es have fav1: "unobstructed L b0 k0 es1" and fav2: "unobstructed L b0 k0 es2"
    and fav3: "unobstructed L b0 k0 es3" by simp_all
  from favourable_resolve [OF res fav1] b obtain s y where r: "r = Inr (s, y)" and s: "sb_ID s \<noteq> []"
    by auto
  from settle r have conf: "configure_trace L b1 s y b2 o' es2" by simp
  note found = resolve_trace_found [OF res [unfolded r]]
  let ?b = "updateBucketReadyCondition L b2"
  have b': "?b = bucket_reported L s b"
    using favourable_configure(2) [OF conf fav2] by (simp add: bucket_reported_def found(2,3))
  have frame: "b_Meta ?b = b_Meta b" "b_Spec ?b = b_Spec b" "bst_BucketID (b_Status ?b) =
      (if bst_BucketID (b_Status b) = [] then sb_ID s else bst_BucketID (b_Status b))"
    using configure_frame [OF conf] resolve_frame [OF res]
    by (simp_all add: bucket_frame_def updateBucketReady_frame fill_identity_def)
  obtain err where "o' = Returned no_requeue err" using favourable_configure(1) [OF conf fav2] by blast
  with fin have fin': "finish_trace L K (b_Status b) b2 no_requeue err out es3" by simp
  have "list_all bucket_step (es1 @ es2)"
    using resolve_trace_steps [OF res] settle_trace_steps [OF settle] by simp
  moreover have "es3 = [] \<and> b_Status ?b = b_Status b \<or> es3 = [PatchBucketStatus ?b None]"
    using fin' K fav3 by (auto simp: finish_trace_def status_eq_laws_def Let_def)
  moreover have "es3 = []" if "bucket_rest L b"
    using fin' K bucket_rest_fixed [OF L that, of s] b'
    by (auto simp: finish_trace_def status_eq_laws_def Let_def)
  ultimately show thesis
    using frame bucket_reported_rest [OF L s, of b, folded b'] that [of "es1 @ es2" es3 ?b] by (simp add: es)
qed

section \<open>The key\<close>

text \<open>\<open>SetControllerReference\<close> accepts an object of the same namespace that nobody owns.\<close>

definition adopts_free :: "lib \<Rightarrow> bool" where
  "adopts_free L \<longleftrightarrow> (\<forall>o' m. m_OwnerReferences m = [] \<longrightarrow> m_Namespace m = m_Namespace o' \<longrightarrow>
     \<not> isl (SetControllerReference L o' m))"

definition key_up :: "lib \<Rightarrow> AccessKey \<Rightarrow> bool" where
  "key_up L k \<longleftrightarrow> observed_gen k = k_Generation k \<and> key_good L (k_Spec k) (k_Status k) \<and>
     cond_stat L (k_Conditions k) Ready = Some ConditionTrue"

lemma key_step_idle: "key_step e \<Longrightarrow> cluster_step e c c' \<Longrightarrow> c' = c"
  by (cases e) auto

lemma secret_free_same:
  assumes "owner_laws L" and "m_UID (k_Meta k') = m_UID (k_Meta k)"
  shows "secret_free L k' = secret_free L k"
  using assms by (auto simp: secret_free_def owner_laws_def fun_eq_iff split: sum.splits)

lemma favourable_credentials:
  assumes O: "owner_laws L" "adopts_free L" and tr: "credentials_trace L k k' err es"
    and fav: "unobstructed L b0 k0 es"
    and k: "secret_name k = secret_name k0" "m_UID (k_Meta k) = m_UID (k_Meta k0)"
  shows "k' = secret_done L k \<and> err = None"
proof -
  have free: "secret_free L k0 = secret_free L k" using secret_free_same [OF O(1)] k(2) by metis
  have "m_OwnerReferences (s_Meta (secretFor k)) = []" "m_Namespace (s_Meta (secretFor k)) = m_Namespace (k_Meta k)"
    by (simp_all add: secretFor_def new_meta_def)
  with O(2) have adopt: "\<not> isl (SetControllerReference L (k_Meta k) (s_Meta (secretFor k)))"
    unfolding adopts_free_def by blast
  have no: "\<not> secret_trace L k (Some e) fs" if "unobstructed L b0 k0 fs" for e fs
    using that adopt by (auto simp: secret_trace_def k(1) free)
  from tr show ?thesis
    unfolding credentials_trace_def
  proof (elim disjE exE conjE)
    fix es1 es2
    assume "es = es1 @ es2" and ren: "rename_trace L k k' err es2"
    with fav have "unobstructed L b0 k0 es2" by simp
    with ren show ?thesis by (auto simp: rename_trace_def)
  qed (use no fav in auto)
qed

lemma favourable_establish:
  assumes O: "owner_laws L" "adopts_free L" and est: "establish_trace L k k' err es"
    and fav: "unobstructed L b0 k0 es"
    and k: "secret_name k = secret_name k0" "m_UID (k_Meta k) = m_UID (k_Meta k0)"
  shows "\<exists>x. k' = secret_done L (key_found L x k)"
proof -
  have no: "\<not> key_trace k (Inl e) es" for e
    using fav by (auto simp: key_trace_def key_probe_def split: if_splits)
  with est obtain x es1 es2 where es: "es = es1 @ es2"
    and cred: "credentials_trace L (key_found L x k) k' err es2"
    unfolding establish_trace_def by blast
  from es fav have "unobstructed L b0 k0 es2" by simp
  from favourable_credentials [OF O cred this] k show ?thesis by auto
qed

lemma favourable_named: "unobstructed L b0 k0 es \<Longrightarrow> keys_named es"
  unfolding keys_named_def list_all_iff
proof
  fix e
  assume "\<forall>e \<in> set es. favourable L b0 k0 e" and "e \<in> set es"
  then have "favourable L b0 k0 e" by blast
  then show "case key_answer e of None \<Rightarrow> True | Some x \<Rightarrow> sk_ID x \<noteq> []"
    by (cases e rule: key_answer.cases) auto
qed

text \<open>A run without obstacles ends with the key ready, and leaves a key that is ready alone.\<close>

lemma favourable_key_run:
  assumes L: "cond_laws L" and O: "owner_laws L" "adopts_free L" and K: "status_eq_laws K"
    and run: "live_key_run L K req k out es" and fav: "unobstructed L b0 k0 es"
    and k: "secret_name k = secret_name k0" "m_UID (k_Meta k) = m_UID (k_Meta k0)"
    and start: "observed_gen k = k_Generation k \<longrightarrow> key_up L k"
  obtains st es1 es2 where "es = es1 @ es2" and "list_all key_step es1"
    and "key_up L (k\<lparr>k_Status := st\<rparr>)" and "key_up L k \<longrightarrow> st = k_Status k"
    and "es2 = [] \<and> st = k_Status k \<or>
      (\<exists>x. es2 = [GetAccessKey req (Inr x), UpdateAccessKeyStatus (x\<lparr>k_Status := st\<rparr>) None])"
    and "key_up L k \<Longrightarrow> es = []"
proof -
  from run obtain k1 err es1 es2 where es: "es = es1 @ es2"
    and work: "key_work L (InitializeConditions L k) k1 err es1"
    and kf: "key_finish L K req (k_Status k) (key_reported L k1) err out es2"
    by (rule live_runE [OF L])
  from fav es have fav1: "unobstructed L b0 k0 es1" and fav2: "unobstructed L b0 k0 es2" by simp_all
  let ?st = "k_Status (key_reported L k1)"
  have "key_up L (k\<lparr>k_Status := ?st\<rparr>) \<and> (key_up L k \<longrightarrow> ?st = k_Status k \<and> es1 = [])"
  proof (cases "observed_gen k = k_Generation k")
    case True
    with start have up: "key_up L k" by blast
    then have good: "key_good L (k_Spec k) (k_Status k)" by (simp add: key_up_def)
    note fixed = good_is_fixed [OF L good True]
    have "keySettled L (InitializeConditions L k) = Some True"
      by (rule key_good_settled [OF L good]) (use True in \<open>simp add: observed_gen_def\<close>)
    with work have "k1 = k" "es1 = []" by (auto simp: key_work_def fixed(1))
    with up show ?thesis by (simp add: fixed(2))
  next
    case False
    with work have est: "establish_trace L (InitializeConditions L k) k1 err es1"
      by (auto simp: key_work_def settled_iff [OF L] observed_gen_def)
    from favourable_establish [OF O this fav1] k obtain x
      where k1: "k1 = secret_done L (key_found L x (InitializeConditions L k))"
      by (auto simp: secret_name_def)
    have sum: "key_summary L (k_Conditions k1) = (ConditionTrue, defaultReadyReason, defaultReadyMessage)"
      unfolding k1 by (rule work_summary(3) [OF L has_key_parts_init [OF L]])
    have gen: "kst_ObservedGeneration ?st = k_Generation k"
      by (simp add: key_reported_simps(2) [OF L] sum not_permanent(4)) (simp add: k1)
    moreover have "cond_stat L (kst_Conditions ?st) Ready = Some ConditionTrue"
      by (simp add: cond_stat_view key_reported_simps(1) [OF L] sum)
    ultimately show ?thesis
      using run_good [OF L work favourable_named [OF fav1]] False
      by (auto simp: key_up_def observed_gen_def)
  qed
  moreover have "list_all key_step es1" by (rule key_work_steps [OF work])
  moreover have "es2 = [] \<and> ?st = k_Status k \<or>
      (\<exists>x. es2 = [GetAccessKey req (Inr x), UpdateAccessKeyStatus (x\<lparr>k_Status := ?st\<rparr>) None])"
    using kf K fav2 by (auto simp: key_finish_def update_trace_def status_eq_laws_def)
  moreover have "es2 = []" if "?st = k_Status k"
    using kf K that by (auto simp: key_finish_def status_eq_laws_def)
  ultimately show thesis using that [of es1 es2 ?st] es by simp
qed

section \<open>The policy\<close>

lemma policy_step_idle: "policy_step e \<Longrightarrow> cluster_step e c c' \<Longrightarrow> c' = c"
  by (cases e) auto

lemma settled_meta_iff:
  assumes "finalizer_laws L"
  shows "settled_meta L a \<longleftrightarrow> m_DeletionTimestamp (a_Meta a) = None \<and>
    finalizerName \<in> set (m_Finalizers (a_Meta a)) \<and>
    label_get (m_Labels (a_Meta a)) accesskeyLabel = ps_AccessKey (a_Spec a) \<and>
    label_get (m_Labels (a_Meta a)) bucketLabel = ps_Bucket (a_Spec a)"
  using assms by (auto simp: settled_meta_def finalizer_laws_def ensureLabels_labels(4))

text \<open>What rest depends on, of the object: its specification and what no edit by a controller changes.\<close>

lemma bucket_rest_same:
  assumes "b_Status x = b_Status y" "b_Spec x = b_Spec y" "same_identity (b_Meta x) (b_Meta y)"
  shows "bucket_rest L x = bucket_rest L y"
proof -
  have "external_name x = external_name y"
    using assms(2,3) by (simp add: external_name_def suffixedResourceName_def uid_suffix_def same_identity_def
        split: option.split)
  with assms show ?thesis by (simp add: bucket_rest_def same_identity_def)
qed

text \<open>What a run without obstacles sends: the object with labels and finalizer, or the status.\<close>

lemma saved_policy:
  assumes F: "finalizer_laws L" and a: "m_DeletionTimestamp (a_Meta a) = None"
    and a': "a' = fst (ensureLabels a) \<and> ContainsFinalizer L (a_Meta (fst (ensureLabels a))) finalizerName \<or>
      a' = (fst (ensureLabels a))\<lparr>a_Meta := AddFinalizer L (a_Meta (fst (ensureLabels a))) finalizerName\<rparr>"
  shows "settled_meta L a'" "a_Spec a' = a_Spec a" "a_Status a' = a_Status a" "same_identity (a_Meta a) (a_Meta a')"
proof -
  let ?a = "fst (ensureLabels a)"
  obtain fs where fs: "AddFinalizer L (a_Meta ?a) finalizerName = (a_Meta ?a)\<lparr>m_Finalizers := fs\<rparr>"
    "set fs = insert finalizerName (set (m_Finalizers (a_Meta ?a)))"
    using F unfolding finalizer_laws_def by blast
  have "same_identity (a_Meta a) (a_Meta ?a)"
    by (simp add: same_identity_def ensureLabels_def Let_def)
  with a' show "same_identity (a_Meta a) (a_Meta a')" by (auto simp: fs(1) same_identity_def)
  show "settled_meta L a'"
    using a a' F fs(2) by (auto simp: settled_meta_iff [OF F] fs(1) ensureLabels_labels finalizer_laws_def)
  show "a_Spec a' = a_Spec a" "a_Status a' = a_Status a" using a' by (auto simp: fs(1))
qed

lemma favourable_policy_run:
  assumes L: "cond_laws L" and F: "finalizer_laws L" and K: "status_eq_laws K"
    and run: "policy_run L K a out es" and fav: "unobstructed L b0 k0 es"
    and a: "m_DeletionTimestamp (a_Meta a) = None"
  obtains (saved) a' where "\<not> settled_meta L a" "es = [UpdateAccessPolicy a' None]"
      "settled_meta L a'" "a_Spec a' = a_Spec a" "a_Status a' = a_Status a" "same_identity (a_Meta a) (a_Meta a')"
  | (reported) es1 es2 st where "settled_meta L a" "es = es1 @ es2" "list_all policy_step es1"
      "st = policy_status (a_Status a) es"
      "es2 = [] \<and> st = a_Status a \<or> (\<exists>x. es2 = [PatchAccessPolicyStatus x None] \<and>
         own_request (a_Meta x) = own_request (a_Meta a) \<and> a_Status x = st)"
      "st = a_Status a \<Longrightarrow> es2 = []"
  using run
proof (cases rule: policy_runE)
  case live
  let ?a = "fst (ensureLabels a)"
  from live(2) obtain a1 err es1 es2 where es: "es = es1 @ es2"
    and work: "policy_trace L (initializePolicyConditions L ?a) a1 err es1"
    and parts: "has_policy_parts L a1"
    and fin: "policy_finish L K (a_Status ?a) (policy_reported L a1) err out es2"
    by (rule live_policy_runE [OF L])
  note steps = work_steps [OF work]
  have st: "policy_status (a_Status a) es = a_Status (policy_reported L a1)"
    using policy_status_finish [OF K fin] by (simp add: es policy_status_steps [OF steps])
  have own: "own_request (a_Meta (policy_reported L a1)) = own_request (a_Meta a)"
    using work_frame_policy [OF work] policy_reported_simps(4) [OF L parts]
    by (simp add: policy_frame_def own_request_def ensureLabels_def Let_def)
  from fav es have "unobstructed L b0 k0 es2" by simp
  then have "es2 = [] \<and> a_Status (policy_reported L a1) = a_Status a \<or>
      es2 = [PatchAccessPolicyStatus (policy_reported L a1) None]"
    using fin K by (auto simp: policy_finish_def status_eq_laws_def split: prod.splits)
  moreover have "es2 = []" if "a_Status (policy_reported L a1) = a_Status a"
    using fin K that by (auto simp: policy_finish_def status_eq_laws_def split: prod.splits)
  ultimately show thesis using reported [OF live(1) es steps refl] st own by auto
next
  case (meta a')
  from fav meta(3) have "es = [UpdateAccessPolicy a' None]" by (auto simp: save_trace_def)
  from saved [OF meta(2) this] saved_policy [OF F meta(1,4)] show thesis by blast
next
  case finalize
  with a show thesis by simp
next
  case idle
  have "settled_meta L a"
    using run idle(1) a by (auto simp: policy_run_def Let_def settled_meta_def save_trace_def split: if_splits)
  with idle(1) reported [of "[]" "[]"] show thesis by simp
qed

text \<open>With its dependencies ready, a settled policy gets to the grant.\<close>

lemma favourable_assigned:
  assumes live: "live_policy_run L K (fst (ensureLabels a)) out es" and fav: "unobstructed L b0 k0 es"
    and deps: "\<And>b. GetBucket (policy_bucket a) (Inr b) \<in> set es \<Longrightarrow>
        ready_cond (FindStatusCondition L (b_Conditions b) Ready)"
      "\<And>k. GetAccessKey (policy_key a) (Inr k) \<in> set es \<Longrightarrow>
        ready_cond (FindStatusCondition L (k_Conditions k) Ready)"
  shows "\<exists>b k. assigned L a b k es"
proof -
  from live obtain a1 err es1 es2 where es: "es = es1 @ es2"
    and work: "policy_trace L (initializePolicyConditions L (fst (ensureLabels a))) a1 err es1"
    by (rule live_policy_events)
  from fav es have fav1: "unobstructed L b0 k0 es1" by simp
  from work show ?thesis
  proof (cases rule: policy_traceE)
    case (assigned b k)
    have "assigned L a b k (dependency_reads a b k @ grant a b k None # es2)"
      using assigned(3) dependencies_ready_mono [of L a b k "dependency_reads a b k"
          "dependency_reads a b k @ grant a b k None # es2"]
      by (auto simp: assigned_def dependency_reads_def)
    then show ?thesis using assigned(1) es by (auto simp: dependency_reads_def)
  next
    case (refused b k e m m' m'')
    with fav1 show ?thesis by (auto simp: grant_def)
  next
    case (unresolved a2 rb rk fs1 fs2)
    have key: "policy_key a2 = policy_key a"
      using frame_names [OF bucket_dep.dep_frame [OF unresolved(2)]] by simp
    have "\<exists>b. rb = Inr b"
      using unresolved(2) fav1 deps(1) unfolding es unresolved(1)
      by (cases rule: bucket_dep.dep_traceE) auto
    moreover have "\<exists>k. rk = Inr k"
      using unresolved(3) fav1 deps(2) unfolding es unresolved(1)
      by (cases rule: key_dep.dep_traceE) (auto simp: key)
    ultimately show ?thesis using unresolved(4) by auto
  qed
qed

end
