(* ===== verification/ExampleCluster.thy ===== *)
theory ExampleCluster
  imports Convergence
begin

text \<open>
  A Kubernetes API server and a Garage that can be run: the server keeps what it is sent, and the
  Garage has every bucket and every key.  The server keeps the contract of \<open>Cluster\<close>, and a pass of
  any controller against the two meets no obstacle (in the sense of \<open>Convergence\<close>).  \<open>Schedules\<close>
  applies its convergence theorem to them.
\<close>

section \<open>A cluster that keeps what it is sent\<close>

text \<open>A cluster that keeps what it is sent, and a Garage that has every bucket and every key.\<close>

definition absent :: error where
  "absent = APIError ''NotFound'' ''object''"

definition store_status ::
  "('o \<Rightarrow> 'o) \<Rightarrow> nsname \<Rightarrow> (nsname \<rightharpoonup> 'o) \<Rightarrow> error option \<times> (nsname \<rightharpoonup> 'o)" where
  "store_status f n m = (case m n of None \<Rightarrow> (Some absent, m) | Some x \<Rightarrow> (None, m(n \<mapsto> f x)))"

definition kept_meta :: "objmeta \<Rightarrow> objmeta \<Rightarrow> bool \<Rightarrow> objmeta" where
  "kept_meta m0 m same = m0\<lparr>m_Labels := m_Labels m, m_OwnerReferences := m_OwnerReferences m,
     m_Finalizers := m_Finalizers m,
     m_Generation := (if same then m_Generation m0 else m_Generation m0 + 1)\<rparr>"

definition store_object ::
  "('o \<Rightarrow> objmeta) \<Rightarrow> ('o \<Rightarrow> 'o) \<Rightarrow> objmeta \<Rightarrow> (nsname \<rightharpoonup> 'o) \<Rightarrow> error option \<times> (nsname \<rightharpoonup> 'o)" where
  "store_object meta f m st = (case st (own_request m) of
     None \<Rightarrow> (Some absent, st)
   | Some x \<Rightarrow> (None, if last_release (meta x) m then st(own_request m := None)
                     else st(own_request m \<mapsto> f x)))"

definition lookup :: "(nsname \<rightharpoonup> 'o) \<Rightarrow> nsname \<Rightarrow> error + 'o" where
  "lookup m n = (case m n of None \<Rightarrow> Inl absent | Some x \<Rightarrow> Inr x)"

definition mem_kube :: "cluster kube" where
  "mem_kube =
     \<lparr>kGetBucket = (\<lambda>n c. (lookup (cl_Buckets c) n, c)),
      kGetAccessKey = (\<lambda>n c. (lookup (cl_Keys c) n, c)),
      kGetAccessPolicy = (\<lambda>n c. (lookup (cl_Policies c) n, c)),
      kGetSecret = (\<lambda>n c. (Inl absent, c)),
      kPatchBucketStatus = (\<lambda>b c.
        case store_status (\<lambda>x. x\<lparr>b_Status := b_Status b\<rparr>) (own_request (b_Meta b)) (cl_Buckets c) of
          (r, m) \<Rightarrow> (r, c\<lparr>cl_Buckets := m\<rparr>)),
      kPatchAccessKey = (\<lambda>k0 k c. case cl_Keys c (own_request (k_Meta k)) of
          None \<Rightarrow> (Inl absent, c)
        | Some x \<Rightarrow> (let y = x\<lparr>k_Meta := (k_Meta x)\<lparr>m_Finalizers := m_Finalizers (k_Meta k)\<rparr>\<rparr>
            in (Inr y, c\<lparr>cl_Keys := (cl_Keys c)(own_request (k_Meta k) \<mapsto> y)\<rparr>))),
      kUpdateAccessKey = (\<lambda>k c.
        case store_object k_Meta (\<lambda>x. k\<lparr>k_Meta := kept_meta (k_Meta x) (k_Meta k) (k_Spec k = k_Spec x),
            k_Status := k_Status x\<rparr>) (k_Meta k) (cl_Keys c) of (r, m) \<Rightarrow> (r, c\<lparr>cl_Keys := m\<rparr>)),
      kUpdateAccessKeyStatus = (\<lambda>k c.
        case store_status (\<lambda>x. x\<lparr>k_Status := k_Status k\<rparr>) (own_request (k_Meta k)) (cl_Keys c) of
          (r, m) \<Rightarrow> (r, c\<lparr>cl_Keys := m\<rparr>)),
      kUpdateAccessPolicy = (\<lambda>a c.
        case store_object a_Meta (\<lambda>x. a\<lparr>a_Meta := kept_meta (a_Meta x) (a_Meta a) (a_Spec a = a_Spec x),
            a_Status := a_Status x\<rparr>) (a_Meta a) (cl_Policies c) of (r, m) \<Rightarrow> (r, c\<lparr>cl_Policies := m\<rparr>)),
      kPatchAccessPolicyStatus = (\<lambda>a c.
        case store_status (\<lambda>x. x\<lparr>a_Status := a_Status a\<rparr>) (own_request (a_Meta a)) (cl_Policies c) of
          (r, m) \<Rightarrow> (r, c\<lparr>cl_Policies := m\<rparr>)),
      kCreateOrUpdateConfigMap = (\<lambda>x f c. ((OperationResultCreated, None), c)),
      kCreateOrUpdateSecret = (\<lambda>x f c. ((OperationResultCreated, None), c)),
      kListConfigMaps = (\<lambda>ns sel c. (Inr [], c)), kListAccessPolicies = (\<lambda>ns sel c. (Inr [], c)),
      kDeleteConfigMap = (\<lambda>x c. (None, c)), kDeleteSecret = (\<lambda>x c. (None, c)),
      clockSince = (\<lambda>t c. (0, c)),
      BucketStatusEqual = (\<lambda>s t. s = t), AccessKeyStatusEqual = (\<lambda>s t. s = t),
      AccessPolicyStatusEqual = (\<lambda>s t. s = t)\<rparr>"

lemma mem_kube_status_eq: "status_eq_laws mem_kube"
  by (simp add: status_eq_laws_def mem_kube_def)

lemma kept_meta_server: "server_kept m0 m (kept_meta m0 m same)" "m_Generation (kept_meta m0 m True) = m_Generation m0"
  "m_DeletionTimestamp (kept_meta m0 m same) = m_DeletionTimestamp m0"
  unfolding server_kept_def kept_meta_def
  by (intro exI [of _ "m_ResourceVersion m0"] exI [of _ "if same then m_Generation m0 else m_Generation m0 + 1"]; simp) simp_all

lemma own_finalizers [simp]: "own_request (m\<lparr>m_Finalizers := fs\<rparr>) = own_request m"
  by (simp add: own_request_def)

lemma stored_intros:
  "cl_Buckets c (own_request (b_Meta b)) = Some x \<Longrightarrow> bucket_status_stored b c
     (c\<lparr>cl_Buckets := (cl_Buckets c)(own_request (b_Meta b) \<mapsto> x\<lparr>b_Status := b_Status b\<rparr>)\<rparr>)"
  "cl_Keys c (own_request (k_Meta k)) = Some y \<Longrightarrow> key_status_stored k c
     (c\<lparr>cl_Keys := (cl_Keys c)(own_request (k_Meta k) \<mapsto> y\<lparr>k_Status := k_Status k\<rparr>)\<rparr>)"
  "cl_Policies c (own_request (a_Meta a)) = Some z \<Longrightarrow> policy_status_stored a c
     (c\<lparr>cl_Policies := (cl_Policies c)(own_request (a_Meta a) \<mapsto> z\<lparr>a_Status := a_Status a\<rparr>)\<rparr>)"
  "cl_Keys c (own_request (k_Meta k)) = Some y \<Longrightarrow>
     finalizers_patched (k\<lparr>k_Meta := (k_Meta k)\<lparr>m_Finalizers := fs\<rparr>\<rparr>)
       (y\<lparr>k_Meta := (k_Meta y)\<lparr>m_Finalizers := fs\<rparr>\<rparr>) c (c\<lparr>cl_Keys := (cl_Keys c)
       (own_request (k_Meta k) \<mapsto> y\<lparr>k_Meta := (k_Meta y)\<lparr>m_Finalizers := fs\<rparr>\<rparr>)\<rparr>)"
  unfolding bucket_status_stored_def key_status_stored_def policy_status_stored_def finalizers_patched_def
  by (intro exI [of _ x] exI [of _ "b_Meta x"], simp)
    (intro exI [of _ y] exI [of _ "k_Meta y"], simp,
     intro exI [of _ z] exI [of _ "a_Meta z"], simp,
     intro exI [of _ y] exI [of _ "m_ResourceVersion (k_Meta y)"], simp)

lemma object_intros:
  "cl_Keys c (own_request (k_Meta k)) = Some y \<Longrightarrow> key_stored k c (c\<lparr>cl_Keys :=
     if last_release (k_Meta y) (k_Meta k) then (cl_Keys c)(own_request (k_Meta k) := None)
     else (cl_Keys c)(own_request (k_Meta k) \<mapsto>
       k\<lparr>k_Meta := kept_meta (k_Meta y) (k_Meta k) (k_Spec k = k_Spec y), k_Status := k_Status y\<rparr>)\<rparr>)"
  "cl_Policies c (own_request (a_Meta a)) = Some z \<Longrightarrow> policy_stored a c (c\<lparr>cl_Policies :=
     if last_release (a_Meta z) (a_Meta a) then (cl_Policies c)(own_request (a_Meta a) := None)
     else (cl_Policies c)(own_request (a_Meta a) \<mapsto>
       a\<lparr>a_Meta := kept_meta (a_Meta z) (a_Meta a) (a_Spec a = a_Spec z), a_Status := a_Status z\<rparr>)\<rparr>)"
  unfolding key_stored_def policy_stored_def
  by (intro exI [of _ y]; auto simp: kept_meta_server
        intro!: exI [of _ "kept_meta (k_Meta y) (k_Meta k) (k_Spec k = k_Spec y)"])
    (intro exI [of _ z]; auto simp: kept_meta_server
        intro!: exI [of _ "kept_meta (a_Meta z) (a_Meta a) (a_Spec a = a_Spec z)"])

lemma mem_kube_server: "cluster_server (\<lambda>c. c) mem_kube"
  unfolding cluster_server_def serves_def
  by (intro conjI allI impI)
    (auto simp: mem_kube_def lookup_def store_status_def store_object_def Let_def
      carried_out_or_not_def intro: stored_intros object_intros simp del: fun_upd_apply
      split: option.splits prod.splits split del: if_split)

definition have_all :: "unit transport" where
  "have_all rq s = (Inr \<lparr>rs_StatusCode = 200, rs_Text = [], rs_Json =
     Some (JObj [(''id'', JStr ''id1''), (''accessKeyId'', JStr ''GK2''), (''secretAccessKey'', JStr ''s3cr3t'')])\<rparr>, s)"

lemma have_all_bucket:
  "fst (run_state (BucketClient_Get have_all admin_client a) g) =
     Inr \<lparr>sb_ID = ''id1'', sb_GlobalAliases = [], sb_Quotas = \<lparr>q_MaxObjects = 0, q_MaxSize = 0\<rparr>\<rparr>"
  "fst (run_state (BucketClient_Create have_all admin_client a) g) =
     Inr \<lparr>sb_ID = ''id1'', sb_GlobalAliases = [], sb_Quotas = \<lparr>q_MaxObjects = 0, q_MaxSize = 0\<rparr>\<rparr>"
  "fst (run_state (BucketClient_Update have_all admin_client i q) g) = None"
proof -
  have body: "unmarshalBody dec_bucket_response zero_BucketResponse \<lparr>rs_StatusCode = 200, rs_Text = [], rs_Json =
     Some (JObj [(''id'', JStr ''id1''), (''accessKeyId'', JStr ''GK2''), (''secretAccessKey'', JStr ''s3cr3t'')])\<rparr> =
     Inr (zero_BucketResponse\<lparr>br_ID := ''id1''\<rparr>)"
    by (simp add: unmarshalBody_def dec_bucket_response_def dfield_def key_matches_def lower_char_def)
  then show "fst (run_state (BucketClient_Get have_all admin_client a) g) =
     Inr \<lparr>sb_ID = ''id1'', sb_GlobalAliases = [], sb_Quotas = \<lparr>q_MaxObjects = 0, q_MaxSize = 0\<rparr>\<rparr>"
    "fst (run_state (BucketClient_Create have_all admin_client a) g) =
     Inr \<lparr>sb_ID = ''id1'', sb_GlobalAliases = [], sb_Quotas = \<lparr>q_MaxObjects = 0, q_MaxSize = 0\<rparr>\<rparr>"
    by (simp_all add: BucketClient_Get_def BucketClient_Create_def getBucketResponse_def doRequest_def send_def have_all_def
        run_eval Let_def admin_client_def NewClient_def WithMetrics_def bucket_to_s3_def zero_BucketResponse_def
        zero_Quotas_def quotasToS3_def)
  show "fst (run_state (BucketClient_Update have_all admin_client i q) g) = None"
    by (simp add: BucketClient_Update_def doRequest_def send_def have_all_def
        run_eval Let_def admin_client_def NewClient_def WithMetrics_def)
qed

lemma have_all_key:
  "fst (run_state (AccessKeyClient_get have_all admin_client i n b) g) =
     Inr \<lparr>ak_AccessKeyID = ''GK2'', ak_Buckets = [], ak_SecretAccessKey = ''s3cr3t'', ak_Name = []\<rparr>"
  "fst (run_state (AccessKeyClient_Create have_all admin_client x) g) =
     Inr \<lparr>sk_ID = ''GK2'', sk_Secret = ''s3cr3t'', sk_Name = []\<rparr>"
  "fst (run_state (SetPermissions have_all admin_client x y p) g) = None"
proof -
  have key: "unmarshalBody dec_access_key zero_AccessKeyResponse \<lparr>rs_StatusCode = 200, rs_Text = [], rs_Json =
     Some (JObj [(''id'', JStr ''id1''), (''accessKeyId'', JStr ''GK2''), (''secretAccessKey'', JStr ''s3cr3t'')])\<rparr> =
     Inr \<lparr>ak_AccessKeyID = ''GK2'', ak_Buckets = [], ak_SecretAccessKey = ''s3cr3t'', ak_Name = []\<rparr>"
    by (simp add: unmarshalBody_def dec_access_key_def dfield_def key_matches_def lower_char_def
        zero_AccessKeyResponse_def)
  show "fst (run_state (AccessKeyClient_get have_all admin_client i n b) g) =
     Inr \<lparr>ak_AccessKeyID = ''GK2'', ak_Buckets = [], ak_SecretAccessKey = ''s3cr3t'', ak_Name = []\<rparr>"
    "fst (run_state (AccessKeyClient_Create have_all admin_client x) g) =
     Inr \<lparr>sk_ID = ''GK2'', sk_Secret = ''s3cr3t'', sk_Name = []\<rparr>"
    using key
    by (simp_all add: AccessKeyClient_get_def AccessKeyClient_Create_def key_to_s3_def doRequest_def send_def have_all_def
        run_eval Let_def admin_client_def NewClient_def WithMetrics_def)
  show "fst (run_state (SetPermissions have_all admin_client x y p) g) = None"
    by (simp add: SetPermissions_def denyBucketKey_def allowBucketKey_def doRequest_def send_def have_all_def
        run_eval Let_def admin_client_def NewClient_def WithMetrics_def)
qed

definition named :: "nsname \<Rightarrow> objmeta" where
  "named n = ex_meta\<lparr>m_Namespace := fst n, m_Name := snd n\<rparr>"

definition ex_cluster :: cluster where
  "ex_cluster = \<lparr>cl_Buckets = \<lambda>n. Some (ex_new\<lparr>b_Meta := named n\<rparr>),
     cl_Keys = \<lambda>n. Some (ex_key\<lparr>k_Meta := named n\<rparr>),
     cl_Policies = \<lambda>n. Some (ex_policy\<lparr>a_Meta := named n\<rparr>)\<rparr>"

definition ex_b :: Bucket where "ex_b = ex_new\<lparr>b_Meta := named (''default'', ''photos'')\<rparr>"
definition ex_k :: AccessKey where "ex_k = ex_key\<lparr>k_Meta := named (''default'', ''key'')\<rparr>"
definition ex_a :: AccessPolicy where "ex_a = ex_policy\<lparr>a_Meta := named (''default'', ''policy'')\<rparr>"

text \<open>As long as every object is there and none is deleted, no call meets an obstacle.\<close>

definition everywhere :: "('o \<Rightarrow> bool) \<Rightarrow> (nsname \<rightharpoonup> 'o) \<Rightarrow> bool" where
  "everywhere P m \<longleftrightarrow> (\<forall>n. \<exists>x. m n = Some x \<and> P x)"

lemma everywhere_set:
  "everywhere P m \<Longrightarrow> m n = Some x \<Longrightarrow> (P x \<Longrightarrow> P y) \<Longrightarrow> everywhere P (m(n \<mapsto> y))"
  unfolding everywhere_def by (metis fun_upd_apply option.inject)

lemma everywhereD: "everywhere P m \<Longrightarrow> m n = Some x \<Longrightarrow> P x"
  unfolding everywhere_def by (metis option.inject)

lemma everywhere_there: "everywhere P m \<Longrightarrow> m n = None \<longleftrightarrow> False"
  unfolding everywhere_def by (metis option.distinct(1))

definition all_stored :: "cluster \<Rightarrow> bool" where
  "all_stored c \<longleftrightarrow> everywhere (\<lambda>b. bs_ExistingBucket (b_Spec b) = None) (cl_Buckets c) \<and>
     everywhere (\<lambda>k. m_DeletionTimestamp (k_Meta k) = None) (cl_Keys c) \<and>
     everywhere (\<lambda>a. m_DeletionTimestamp (a_Meta a) = None) (cl_Policies c)"

text \<open>The ownership of an import is left out: no bucket of the example is imported.\<close>

fun ownership_read :: "ctrl_event \<Rightarrow> bool" where
  "ownership_read (OwnershipGet i j r) = True" | "ownership_read e = False"

definition fair :: "bool \<Rightarrow> ctrl_event \<Rightarrow> cluster \<Rightarrow> cluster \<Rightarrow> bool" where
  "fair own e c c' \<longleftrightarrow> (all_stored c \<longrightarrow>
     (favourable plain_lib ex_b ex_k e \<or> own \<and> ownership_read e) \<and> all_stored c')"

definition fairly :: "bool \<Rightarrow> (cluster \<Rightarrow> 'a \<times> cluster) \<Rightarrow> ('a \<Rightarrow> ctrl_event) \<Rightarrow> bool" where
  "fairly own f ev \<longleftrightarrow> (\<forall>c r c'. f c = (r, c') \<longrightarrow> fair own (ev r) c c')"

lemma fairly_shared:
  "fairly own f ev \<Longrightarrow> tracks (\<lambda>s. fst s) (fair own) (call (on_cluster f) ev)"
  by (rule tracks_call) (auto simp: fairly_def dest: on_cluster_run)

lemma fairly_garage:
  "(\<And>g t. fair own (ev (fst (run_state m g))) t t) \<Longrightarrow> tracks (\<lambda>s. fst s) (fair own) (call (on_garage m) ev)"
  by (rule tracks_call) (auto simp: on_garage_def split: prod.splits, metis fst_conv)

lemma ex_b_sel [simp]: "owner_secret ex_b = None" "bs_ExistingBucket (b_Spec ex_b) = None"
  by (simp_all add: owner_secret_def ex_b_def)

lemma absent_not_found [simp]: "secret_free plain_lib k (Inl absent)"
  by (simp add: secret_free_def absent_def)

lemma mem_kube_fair:
  "fairly own (kGetBucket mem_kube n) (GetBucket n)" "fairly own (kGetAccessKey mem_kube n) (GetAccessKey n)"
  "fairly own (kGetAccessPolicy mem_kube n) (GetAccessPolicy n)" "fairly own (kGetSecret mem_kube n) (GetSecret n)"
  "fairly own (kPatchBucketStatus mem_kube b) (PatchBucketStatus b)"
  "fairly own (kPatchAccessKey mem_kube k k') (PatchAccessKey k')"
  "fairly own (kUpdateAccessKey mem_kube k) (UpdateAccessKey k)"
  "fairly own (kUpdateAccessKeyStatus mem_kube k) (UpdateAccessKeyStatus k)"
  "fairly own (kUpdateAccessPolicy mem_kube a) (UpdateAccessPolicy a)"
  "fairly own (kPatchAccessPolicyStatus mem_kube a) (PatchAccessPolicyStatus a)"
  "fairly own (kCreateOrUpdateConfigMap mem_kube x f) (CreateOrUpdateConfigMap x)"
  "fairly own (kCreateOrUpdateSecret mem_kube y g) (CreateOrUpdateSecret y)"
  "fairly own (kListConfigMaps mem_kube ns l) (ListConfigMaps ns l)"
  "fairly own (kDeleteConfigMap mem_kube x) (DeleteConfigMap x)"
  "fairly own (kDeleteSecret mem_kube y) (DeleteSecret y)"
  by (auto simp: fairly_def fair_def all_stored_def mem_kube_def lookup_def store_status_def store_object_def
      kept_meta_server last_release_def Let_def simp del: fun_upd_apply
      split: option.splits prod.splits if_splits dest: everywhereD everywhere_there;
    erule (1) everywhere_set; simp add: kept_meta_server)+

lemma never_elapsed: "clockSince mem_kube t c = (0, c)"
  by (simp add: mem_kube_def)

lemmas fair_intros = tracks_return tracks_bind tracks_emit tracks_observe tracks_if tracks_case_sum
  tracks_case_option tracks_case_prod tracks_case_outcome

lemma shared_sel:
  "kGetSecret (shared_kube K) n = on_cluster (kGetSecret K n)"
  "kPatchBucketStatus (shared_kube K) b = on_cluster (kPatchBucketStatus K b)"
  "kPatchAccessKey (shared_kube K) k k' = on_cluster (kPatchAccessKey K k k')"
  "kUpdateAccessKey (shared_kube K) k = on_cluster (kUpdateAccessKey K k)"
  "kUpdateAccessKeyStatus (shared_kube K) k = on_cluster (kUpdateAccessKeyStatus K k)"
  "kCreateOrUpdateConfigMap (shared_kube K) x f = on_cluster (kCreateOrUpdateConfigMap K x f)"
  "kCreateOrUpdateSecret (shared_kube K) y g = on_cluster (kCreateOrUpdateSecret K y g)"
  "kListConfigMaps (shared_kube K) ns l = on_cluster (kListConfigMaps K ns l)"
  "kDeleteConfigMap (shared_kube K) x = on_cluster (kDeleteConfigMap K x)"
  "kDeleteSecret (shared_kube K) y = on_cluster (kDeleteSecret K y)"
  "clockSince (shared_kube K) t = on_cluster (clockSince K t)"
  by (simp_all add: shared_kube_def)

lemma have_all_fair:
  "tracks (\<lambda>s. fst s) (fair own) (call (on_garage (BucketClient_Get have_all admin_client a)) (BucketGet a))"
  "tracks (\<lambda>s. fst s) (fair own) (call (on_garage (BucketClient_Create have_all admin_client a)) (BucketCreate a))"
  "tracks (\<lambda>s. fst s) (fair own) (call (on_garage (BucketClient_Update have_all admin_client a q)) (BucketUpdate a q))"
  "tracks (\<lambda>s. fst s) (fair True) (call (on_garage (GetPermissions have_all admin_client a i)) (OwnershipGet a i))"
  "tracks (\<lambda>s. fst s) (fair own) (call (on_garage (AccessKeyClient_Get have_all admin_client a)) (KeyGet a))"
  "tracks (\<lambda>s. fst s) (fair own) (call (on_garage (AccessKeyClient_Lookup have_all admin_client a)) (KeyLookup a))"
  "tracks (\<lambda>s. fst s) (fair own) (call (on_garage (AccessKeyClient_Create have_all admin_client a)) (KeyCreate a))"
  "tracks (\<lambda>s. fst s) (fair own) (call (on_garage (AccessKeyClient_Delete have_all admin_client a)) (KeyDelete a))"
  "tracks (\<lambda>s. fst s) (fair own) (call (on_garage (SetPermissions have_all admin_client a i p)) (PermissionsSet a i p))"
  by (rule fairly_garage; simp add: fair_def have_all_bucket have_all_key AccessKeyClient_Get_def
      AccessKeyClient_Lookup_def run_eval key_to_s3_def split_beta)+

lemma garage_key_sel:
  "key_Create (garage_key_reconciler T c) n = on_garage (AccessKeyClient_Create T c n)"
  "key_Get (garage_key_reconciler T c) n = on_garage (AccessKeyClient_Get T c n)"
  "key_Lookup (garage_key_reconciler T c) n = on_garage (AccessKeyClient_Lookup T c n)"
  "key_Delete (garage_key_reconciler T c) n = on_garage (AccessKeyClient_Delete T c n)"
  by (simp_all add: garage_key_reconciler_def NewAccessKeyReconciler_def)

lemma garage_bucket_sel:
  "bucket_Create (garage_bucket_reconciler T c e) a = on_garage (BucketClient_Create T c a)"
  "bucket_Get (garage_bucket_reconciler T c e) a = on_garage (BucketClient_Get T c a)"
  "bucket_Update (garage_bucket_reconciler T c e) a q = on_garage (BucketClient_Update T c a q)"
  "ownership_GetPermissions (garage_bucket_reconciler T c e) a i = on_garage (GetPermissions T c a i)"
  by (simp_all add: garage_bucket_reconciler_def NewBucketReconciler_def)

lemma policy_fair:
  "tracks (\<lambda>s. fst s) (fair own) (AccessPolicyReconciler_Reconcile L (shared_kube mem_kube)
     (garage_policy_reconciler have_all admin_client) req)"
  unfolding AccessPolicyReconciler_Reconcile_def reconcileLivePolicy_def reconcilePolicy_def
    resolveBucket_def checkBucket_def resolveAccessKey_def checkAccessKey_def assignPermissions_def
    finishPolicy_def saveMeta_def finalizePolicy_def releasePolicy_def setPermissions_def Let_def
    shared_kube_sel shared_sel garage_policy_sel
  by (intro fair_intros fairly_shared mem_kube_fair have_all_fair; simp add: fair_def)

lemma key_fair:
  "tracks (\<lambda>s. fst s) (fair own) (AccessKeyReconciler_Reconcile L (shared_kube mem_kube)
     (garage_key_reconciler have_all admin_client) req)"
  unfolding AccessKeyReconciler_Reconcile_def reconcileLiveKey_def reconcileAccessKey_def
    establishKey_def ensureExternalKey_def ensureSecret_def writeSecret_def finishSecret_def
    cleanupOldSecret_def finishKey_def updateStatus_def finalizeKey_def releaseKey_def
    resolveExtKeyID_def Let_def shared_kube_sel shared_sel garage_key_sel
  by (intro fair_intros fairly_shared mem_kube_fair have_all_fair; simp add: fair_def)

lemma stale_loop_fair: "tracks (\<lambda>s. fst s) (fair own) (deleteStaleLoop L (shared_kube mem_kube) b d cms)"
  by (induction cms) (auto simp: shared_sel intro!: fair_intros fairly_shared mem_kube_fair)

lemma bucket_fair:
  "tracks (\<lambda>s. fst s) (fair True) (BucketReconciler_Reconcile L (shared_kube mem_kube)
     (garage_bucket_reconciler have_all admin_client endpoint) req)"
  unfolding BucketReconciler_Reconcile_def reconcileBucket_def finishBucket_def configureBucket_def
    publishBucket_def resolveNewBucket_def resolveExistingBucket_def verifyOwnership_def
    ensureConfigMap_def deleteStaleConfigMap_def Let_def shared_kube_sel shared_sel
    garage_bucket_sel
  by (intro fair_intros fairly_shared mem_kube_fair have_all_fair stale_loop_fair)
    (simp_all add: fair_def on_cluster_def never_elapsed)

text \<open>A bucket that is not imported asks nobody who owns it.\<close>

lemma new_bucket_no_ownership:
  assumes run: "bucket_run L K R b out es" and none: "bs_ExistingBucket (b_Spec b) = None"
    and e: "e \<in> set es"
  shows "\<not> ownership_read e"
  using run
proof (cases rule: bucket_runE)
  case (1 b1 b2 r o' es1 es2 es3)
  from 1(2) none have "new_bucket_trace L (initializeBucketConditions L b) b1 r es1"
    by (simp add: resolve_trace_def)
  then have "\<not> ownership_read e" if "e \<in> set es1" using that by (auto simp: new_bucket_trace_def Let_def)
  moreover have "\<not> ownership_read e" if "e \<in> set es2"
    using 1(3) that by (cases r) (auto, fastforce dest: configure_trace_events)
  moreover have "\<not> ownership_read e" if "e \<in> set es3" using last_events [OF 1(4) that] by auto
  ultimately show ?thesis using e 1(1) by auto
qed

lemma path_fair:
  "path (fair own) es c c' \<Longrightarrow> all_stored c \<Longrightarrow>
     all_stored c' \<and> (\<forall>e \<in> set es. favourable plain_lib ex_b ex_k e \<or> own \<and> ownership_read e)"
  by (induction es arbitrary: c) (auto simp: fair_def)

lemma bucket_unobstructed:
  assumes run: "run_state (BucketReconciler_Reconcile L (shared_kube mem_kube)
      (garage_bucket_reconciler have_all admin_client endpoint) req) w = (out, w')"
    and stored: "all_stored (fst (ext w))"
  shows "unobstructed plain_lib ex_b ex_k (new_events w w') \<and> all_stored (fst (ext w'))"
proof -
  note path = tracks_run [OF bucket_fair run]
  have "\<not> ownership_read e" if e: "e \<in> set (new_events w w')" for e
    using produces_run [OF Reconcile_trace run]
  proof (elim disjE exE conjE)
    fix b fs
    assume ev: "new_events w w' = GetBucket req (Inr b) # fs"
      and shape: "bucket_run L (shared_kube mem_kube :: (cluster \<times> unit gworld) kube)
        (garage_bucket_reconciler have_all admin_client endpoint) b out fs"
    have "bs_ExistingBucket (b_Spec b) = None"
      using tracks_run [OF bucket_cluster [OF mem_kube_server] run] ev stored
      by (auto simp: all_stored_def dest: everywhereD)
    with new_bucket_no_ownership [OF shape] e ev show ?thesis by auto
  qed (use e in auto)
  with path_fair [OF path stored] show ?thesis by (auto simp: list_all_iff)
qed

lemma key_unobstructed:
  assumes "run_state (AccessKeyReconciler_Reconcile L (shared_kube mem_kube)
      (garage_key_reconciler have_all admin_client) req) w = (out, w')"
    and "all_stored (fst (ext w))"
  shows "unobstructed plain_lib ex_b ex_k (new_events w w') \<and> all_stored (fst (ext w'))"
  using path_fair [OF tracks_run [OF key_fair [of False] assms(1)] assms(2)] by (auto simp: list_all_iff)

lemma policy_unobstructed:
  assumes "run_state (AccessPolicyReconciler_Reconcile L (shared_kube mem_kube)
      (garage_policy_reconciler have_all admin_client) req) w = (out, w')"
    and "all_stored (fst (ext w))"
  shows "unobstructed plain_lib ex_b ex_k (new_events w w') \<and> all_stored (fst (ext w'))"
  using path_fair [OF tracks_run [OF policy_fair [of False] assms(1)] assms(2)] by (auto simp: list_all_iff)

end
