(* ===== verification/Schedules.thy ===== *)
theory Schedules
  imports ExampleCluster "HOL-Library.Sublist"
begin

text \<open>
  Convergence: what the controllers reach once the services answer.  A bucket, a key and a
  policy that names them are stored in the cluster, in any state an earlier life left them;
  their reconciliation is asked for in any order and any number of times, and no call meets an
  obstacle any more.  As soon as the requests include the bucket, the key and the policy (twice:
  the first run may only save its metadata), the policy is in force, and stays so, and the
  stored objects no longer change.
\<close>

section \<open>Requests\<close>

datatype request = BucketRequest nsname | AccessKeyRequest nsname | AccessPolicyRequest nsname

text \<open>The manager hands a request to the reconciler of its kind.\<close>

fun reconcile ::
  "lib \<Rightarrow> 'k kube \<Rightarrow> 's transport \<Rightarrow> adminAPIHttpClient \<Rightarrow> string \<Rightarrow> request \<Rightarrow>
     (('k \<times> 's gworld) cworld, outcome) state" where
  "reconcile L K T c endpoint (BucketRequest n) =
     BucketReconciler_Reconcile L (shared_kube K) (garage_bucket_reconciler T c endpoint) n"
| "reconcile L K T c endpoint (AccessKeyRequest n) =
     AccessKeyReconciler_Reconcile L (shared_kube K) (garage_key_reconciler T c) n"
| "reconcile L K T c endpoint (AccessPolicyRequest n) =
     AccessPolicyReconciler_Reconcile L (shared_kube K) (garage_policy_reconciler T c) n"

primrec reconcile_all ::
  "lib \<Rightarrow> 'k kube \<Rightarrow> 's transport \<Rightarrow> adminAPIHttpClient \<Rightarrow> string \<Rightarrow> request list \<Rightarrow>
     (('k \<times> 's gworld) cworld, unit) state" where
  "reconcile_all L K T c endpoint [] = State_Monad.return ()"
| "reconcile_all L K T c endpoint (r # rs) = do {
     _ \<leftarrow> reconcile L K T c endpoint r;
     reconcile_all L K T c endpoint rs
   }"

lemma reconcile_cluster:
  assumes "finalizer_laws L" and "cluster_server view K"
  shows "tracks (\<lambda>s. view (fst s)) cluster_step (reconcile L K T c endpoint r)"
  by (cases r) (simp_all add: bucket_cluster key_cluster policy_cluster assms)

lemma reconcile_all_cluster:
  assumes "finalizer_laws L" and "cluster_server view K"
  shows "tracks (\<lambda>s. view (fst s)) cluster_step (reconcile_all L K T c endpoint rs)"
  by (induction rs) (simp_all add: cluster_intros reconcile_cluster [OF assms])

lemma tracks_events:
  assumes "tracks v R m" and "run_state m w = (a, w')"
  shows "log w' = log w @ new_events w w'"
  using assms by (auto simp: tracks_def new_events_def dest!: spec [of _ w] wp_run)

text \<open>The objects as the runs keep them.\<close>

definition holds_bucket :: "Bucket \<Rightarrow> cluster \<Rightarrow> Bucket \<Rightarrow> bool" where
  "holds_bucket b0 c b \<longleftrightarrow> cl_Buckets c (own_request (b_Meta b0)) = Some b \<and>
     same_identity (b_Meta b0) (b_Meta b) \<and> b_Spec b = b_Spec b0"

definition holds_key :: "AccessKey \<Rightarrow> cluster \<Rightarrow> AccessKey \<Rightarrow> bool" where
  "holds_key k0 c k \<longleftrightarrow> cl_Keys c (own_request (k_Meta k0)) = Some k \<and>
     same_identity (k_Meta k0) (k_Meta k) \<and> k_Spec k = k_Spec k0"

definition holds_policy :: "AccessPolicy \<Rightarrow> cluster \<Rightarrow> AccessPolicy \<Rightarrow> bool" where
  "holds_policy a0 c a \<longleftrightarrow> cl_Policies c (own_request (a_Meta a0)) = Some a \<and>
     same_identity (a_Meta a0) (a_Meta a) \<and> a_Spec a = a_Spec a0"

text \<open>One run for the bucket.\<close>

lemma bucket_report_effect:
  assumes at: "cl_Buckets c n = Some b" "own_request (b_Meta b') = n"
    and path: "path cluster_step (es1 @ es2) c c'" and steps: "list_all bucket_step es1"
    and es2: "es2 = [] \<and> b_Status b' = b_Status b \<or> es2 = [PatchBucketStatus b' None]"
  obtains m where "versioned (b_Meta b) m"
    and "c' = c\<lparr>cl_Buckets := (cl_Buckets c)(n \<mapsto> b\<lparr>b_Meta := m, b_Status := b_Status b'\<rparr>)\<rparr>"
proof -
  from path obtain c1 where "path cluster_step es1 c c1" and "path cluster_step es2 c1 c'"
    by (auto simp: path_append)
  with steps_idle [OF steps this(1) bucket_step_idle] have rest: "path cluster_step es2 c c'" by simp
  from es2 have "\<exists>m. versioned (b_Meta b) m \<and>
      c' = c\<lparr>cl_Buckets := (cl_Buckets c)(n \<mapsto> b\<lparr>b_Meta := m, b_Status := b_Status b'\<rparr>)\<rparr>"
  proof (elim disjE conjE)
    assume "es2 = []" "b_Status b' = b_Status b"
    with rest at show ?thesis by (intro exI [of _ "b_Meta b"]) (simp add: fun_upd_idem)
  next
    assume "es2 = [PatchBucketStatus b' None]"
    with rest at show ?thesis by (auto simp: carried_out_or_not_def bucket_status_stored_def)
  qed
  with that show thesis by blast
qed

lemma bucket_request_effect:
  assumes L: "cond_laws L" and K: "status_eq_laws K" and S: "cluster_server view K"
    and run: "run_state (reconcile L K T c endpoint (BucketRequest (own_request (b_Meta b0)))) w = (out, w')"
    and fav: "unobstructed L b0 k0 (new_events w w')"
    and b: "holds_bucket b0 (view (fst (ext w))) b"
  shows "\<exists>b'. view (fst (ext w')) = (view (fst (ext w)))\<lparr>cl_Buckets :=
      (cl_Buckets (view (fst (ext w))))(own_request (b_Meta b0) \<mapsto> b')\<rparr> \<and>
    holds_bucket b0 (view (fst (ext w'))) b' \<and> bucket_rest L b' \<and>
    (bucket_rest L b \<longrightarrow> view (fst (ext w')) = view (fst (ext w)))"
proof -
  let ?n = "own_request (b_Meta b0)" and ?c = "view (fst (ext w))" and ?c' = "view (fst (ext w'))"
  have K': "status_eq_laws (shared_kube K)" using K by (simp add: status_eq_laws_def shared_kube_def)
  note run' = run [unfolded reconcile.simps]
  note path = tracks_run [OF bucket_cluster [OF S] run']
  from produces_run [OF Reconcile_trace run'] fav obtain b1 es
    where ev: "new_events w w' = GetBucket ?n (Inr b1) # es"
      and shape: "bucket_run L (shared_kube K :: ('a \<times> 'b gworld) kube) (garage_bucket_reconciler T c endpoint) b1 out es"
    by auto
  from path ev b have b1: "b1 = b" and path': "path cluster_step es ?c ?c'"
    by (auto simp: holds_bucket_def)
  from b have ident: "same_identity (b_Meta b0) (b_Meta b)" "b_Spec b = b_Spec b0"
    and at: "cl_Buckets ?c ?n = Some b" by (simp_all add: holds_bucket_def)
  from fav ev have fav': "unobstructed L b0 k0 es" by simp
  from ident(1) have ns: "m_Namespace (b_Meta b) = m_Namespace (b_Meta b0)"
    by (simp add: same_identity_def)
  obtain b' es1 es2 where es: "es = es1 @ es2" and steps: "list_all bucket_step es1"
    and up: "bucket_rest L b'" and meta: "b_Meta b' = b_Meta b" "b_Spec b' = b_Spec b"
    and es2: "es2 = [] \<and> b_Status b' = b_Status b \<or> es2 = [PatchBucketStatus b' None]"
    and quiet: "bucket_rest L b \<longrightarrow> es2 = []"
    using favourable_bucket_run [OF L K' shape [unfolded b1] fav' ident(2) ns] by metis
  have own: "own_request (b_Meta b') = ?n"
    using meta(1) same_identity_own [OF ident(1)] by simp
  obtain m where m: "versioned (b_Meta b) m" and c': "?c' = ?c\<lparr>cl_Buckets :=
      (cl_Buckets ?c)(?n \<mapsto> b\<lparr>b_Meta := m, b_Status := b_Status b'\<rparr>)\<rparr>"
    by (rule bucket_report_effect [OF at own path' [unfolded es] steps es2])
  let ?b = "b\<lparr>b_Meta := m, b_Status := b_Status b'\<rparr>"
  have "holds_bucket b0 ?c' ?b"
    using ident same_identity_trans [OF ident(1) versioned_identity [OF m]]
    by (simp add: holds_bucket_def c')
  moreover have "bucket_rest L ?b"
    using up bucket_rest_same [of b' ?b L] versioned_identity [OF m] by (simp add: meta)
  moreover have "?c' = ?c" if "bucket_rest L b"
    using steps_idle [OF steps _ bucket_step_idle] path' quiet that es by simp
  ultimately show ?thesis using c' by blast
qed

text \<open>One run for the key.\<close>

lemma key_admitted:
  assumes F: "finalizer_laws L" and run: "key_run L K req k out es"
    and fav: "unobstructed L b0 k0 es" and k: "m_DeletionTimestamp (k_Meta k) = None"
    and path: "path cluster_step es c c'" and at: "cl_Keys c (own_request (k_Meta k)) = Some k"
  obtains k1 fs where "live_key_run L K req k1 out fs" and "unobstructed L b0 k0 fs"
    and "path cluster_step fs (c\<lparr>cl_Keys := (cl_Keys c)(own_request (k_Meta k) \<mapsto> k1)\<rparr>) c'"
    and "same_identity (k_Meta k) (k_Meta k1)" and "k_Spec k1 = k_Spec k" and "k_Status k1 = k_Status k"
    and "ContainsFinalizer L (k_Meta k1) finalizerName"
    and "ContainsFinalizer L (k_Meta k) finalizerName \<Longrightarrow> k1 = k \<and> fs = es"
proof (cases "ContainsFinalizer L (k_Meta k) finalizerName")
  case True
  with run k have live: "live_key_run L K req k out es" by (simp add: key_run_def)
  have "c\<lparr>cl_Keys := (cl_Keys c)(own_request (k_Meta k) \<mapsto> k)\<rparr> = c" using at by (simp add: fun_upd_idem)
  with that [OF live fav] path True show thesis by simp
next
  case False
  let ?k = "k\<lparr>k_Meta := AddFinalizer L (k_Meta k) finalizerName\<rparr>"
  from False run k fav obtain k1 fs where es: "es = PatchAccessKey ?k (Inr k1) # fs"
    and live: "live_key_run L K req k1 out fs" by (auto simp: key_run_def Let_def)
  obtain gs where gs: "AddFinalizer L (k_Meta k) finalizerName = (k_Meta k)\<lparr>m_Finalizers := gs\<rparr>"
      "set gs = insert finalizerName (set (m_Finalizers (k_Meta k)))"
    using F unfolding finalizer_laws_def by blast
  then have own: "own_request (k_Meta ?k) = own_request (k_Meta k)" by (simp add: own_request_def)
  from path es obtain c1 where "finalizers_patched ?k k1 c c1" and rest: "path cluster_step fs c1 c'"
    by auto
  then obtain v where k1: "k1 = k\<lparr>k_Meta := (k_Meta k)
      \<lparr>m_Finalizers := m_Finalizers (k_Meta ?k), m_ResourceVersion := v\<rparr>\<rparr>"
    and c1: "c1 = c\<lparr>cl_Keys := (cl_Keys c)(own_request (k_Meta k) \<mapsto> k1)\<rparr>"
    unfolding finalizers_patched_def own at by auto
  from fav es have "unobstructed L b0 k0 fs" by simp
  moreover have "ContainsFinalizer L (k_Meta k1) finalizerName"
    using F gs by (simp add: k1 finalizer_laws_def)
  ultimately show thesis using that [OF live] rest False by (simp add: c1 k1 same_identity_def)
qed

lemma key_report_effect:
  assumes at: "cl_Keys c n = Some k" "own_request (k_Meta k) = n"
    and path: "path cluster_step (es1 @ es2) c c'" and steps: "list_all key_step es1"
    and es2: "es2 = [] \<and> st = k_Status k \<or>
      (\<exists>x. es2 = [GetAccessKey n (Inr x), UpdateAccessKeyStatus (x\<lparr>k_Status := st\<rparr>) None])"
  obtains m where "versioned (k_Meta k) m"
    and "c' = c\<lparr>cl_Keys := (cl_Keys c)(n \<mapsto> k\<lparr>k_Meta := m, k_Status := st\<rparr>)\<rparr>"
proof -
  from path obtain c1 where "path cluster_step es1 c c1" and "path cluster_step es2 c1 c'"
    by (auto simp: path_append)
  with steps_idle [OF steps this(1) key_step_idle] have rest: "path cluster_step es2 c c'" by simp
  have "\<exists>m. versioned (k_Meta k) m \<and> c' = c\<lparr>cl_Keys := (cl_Keys c)(n \<mapsto> k\<lparr>k_Meta := m, k_Status := st\<rparr>)\<rparr>"
    using es2
  proof (elim disjE exE conjE)
    assume "es2 = []" "st = k_Status k"
    with rest at show ?thesis by (intro exI [of _ "k_Meta k"]) (simp add: fun_upd_idem)
  next
    fix x
    assume x: "es2 = [GetAccessKey n (Inr x), UpdateAccessKeyStatus (x\<lparr>k_Status := st\<rparr>) None]"
    with rest at have "x = k" by auto
    with rest x at show ?thesis by (auto simp: carried_out_or_not_def key_status_stored_def)
  qed
  with that show thesis by blast
qed

text \<open>A key at rest is ready and has its finalizer.\<close>

definition key_rest :: "lib \<Rightarrow> AccessKey \<Rightarrow> bool" where
  "key_rest L k \<longleftrightarrow> key_up L k \<and> ContainsFinalizer L (k_Meta k) finalizerName"

lemma key_up_same:
  "k_Status x = k_Status y \<Longrightarrow> k_Spec x = k_Spec y \<Longrightarrow> same_identity (k_Meta x) (k_Meta y) \<Longrightarrow>
     key_up L x = key_up L y"
  by (simp add: key_up_def observed_gen_def same_identity_def)

lemma key_request_effect:
  assumes L: "cond_laws L" and F: "finalizer_laws L" and O: "owner_laws L" "adopts_free L"
    and K: "status_eq_laws K" and S: "cluster_server view K"
    and run: "run_state (reconcile L K T c endpoint (AccessKeyRequest (own_request (k_Meta k0)))) w = (out, w')"
    and fav: "unobstructed L b0 k0 (new_events w w')"
    and k: "holds_key k0 (view (fst (ext w))) k" "m_DeletionTimestamp (k_Meta k0) = None"
    and start: "observed_gen k = k_Generation k \<longrightarrow> key_up L k"
  shows "\<exists>k'. view (fst (ext w')) = (view (fst (ext w)))\<lparr>cl_Keys :=
      (cl_Keys (view (fst (ext w))))(own_request (k_Meta k0) \<mapsto> k')\<rparr> \<and>
    holds_key k0 (view (fst (ext w'))) k' \<and> key_rest L k' \<and>
    (key_rest L k \<longrightarrow> view (fst (ext w')) = view (fst (ext w)))"
proof -
  let ?n = "own_request (k_Meta k0)" and ?c = "view (fst (ext w))" and ?c' = "view (fst (ext w'))"
  have K': "status_eq_laws (shared_kube K)" using K by (simp add: status_eq_laws_def shared_kube_def)
  note run' = run [unfolded reconcile.simps]
  note path = tracks_run [OF key_cluster [OF F S] run']
  from produces_run [OF AccessKey_Reconcile_trace run'] fav obtain kr es
    where ev: "new_events w w' = GetAccessKey ?n (Inr kr) # es"
      and shape: "key_run L (shared_kube K :: ('a \<times> 'b gworld) kube) ?n kr out es"
    by auto
  from path ev k have kr: "kr = k" and path': "path cluster_step es ?c ?c'"
    by (auto simp: holds_key_def)
  from k have ident: "same_identity (k_Meta k0) (k_Meta k)" "k_Spec k = k_Spec k0"
    and at: "cl_Keys ?c ?n = Some k" by (simp_all add: holds_key_def)
  have own: "own_request (k_Meta k) = ?n" by (rule same_identity_own [OF ident(1)])
  from fav ev have fav': "unobstructed L b0 k0 es" by simp
  have undeleted: "m_DeletionTimestamp (k_Meta k) = None" using ident(1) k(2) by (simp add: same_identity_def)
  obtain k1 fs where live: "live_key_run L (shared_kube K :: ('a \<times> 'b gworld) kube) ?n k1 out fs"
    and favf: "unobstructed L b0 k0 fs"
    and pathf: "path cluster_step fs (?c\<lparr>cl_Keys := (cl_Keys ?c)(?n \<mapsto> k1)\<rparr>) ?c'"
    and k1: "same_identity (k_Meta k) (k_Meta k1)" "k_Spec k1 = k_Spec k" "k_Status k1 = k_Status k"
      "ContainsFinalizer L (k_Meta k1) finalizerName"
    and same: "ContainsFinalizer L (k_Meta k) finalizerName \<longrightarrow> k1 = k \<and> fs = es"
    using key_admitted [OF F shape [unfolded kr] fav' undeleted path' at [folded own]] unfolding own by metis
  note ident1 = same_identity_trans [OF ident(1) k1(1)]
  have sn: "secret_name k1 = secret_name k0" "m_UID (k_Meta k1) = m_UID (k_Meta k0)"
    using ident1 k1(2) ident(2) by (simp_all add: secret_name_def same_identity_def)
  have start1: "observed_gen k1 = k_Generation k1 \<longrightarrow> key_up L k1"
    using start key_up_same [of k k1] k1 by (simp add: observed_gen_def same_identity_def)
  obtain st es1 es2 where es: "fs = es1 @ es2" and steps: "list_all key_step es1"
    and up': "key_up L (k1\<lparr>k_Status := st\<rparr>)" and quiet: "key_up L k1 \<longrightarrow> fs = []"
    and es2: "es2 = [] \<and> st = k_Status k1 \<or>
      (\<exists>x. es2 = [GetAccessKey ?n (Inr x), UpdateAccessKeyStatus (x\<lparr>k_Status := st\<rparr>) None])"
    using favourable_key_run [OF L O K' live favf sn start1] by metis
  obtain m where m: "versioned (k_Meta k1) m" and c': "?c' = ?c\<lparr>cl_Keys :=
      (cl_Keys ?c)(?n \<mapsto> k1\<lparr>k_Meta := m, k_Status := st\<rparr>)\<rparr>"
    by (rule key_report_effect [OF _ same_identity_own [OF ident1] pathf [unfolded es] steps es2]) simp_all
  let ?k = "k1\<lparr>k_Meta := m, k_Status := st\<rparr>"
  have "holds_key k0 ?c' ?k"
    using ident(2) k1(2) same_identity_trans [OF ident1 versioned_identity [OF m]]
    by (simp add: holds_key_def c')
  moreover have "key_rest L ?k"
    using up' k1(4) key_up_same [of "k1\<lparr>k_Status := st\<rparr>" ?k] versioned_identity [OF m] m F
    by (auto simp: key_rest_def versioned_def finalizer_laws_def)
  moreover have "?c' = ?c" if "key_rest L k"
    using path' same quiet that by (simp add: key_rest_def)
  ultimately show ?thesis using c' by blast
qed

text \<open>One run for the policy.\<close>

definition in_force :: "lib \<Rightarrow> Bucket \<Rightarrow> AccessKey \<Rightarrow> AccessPolicy \<Rightarrow> perm_table \<Rightarrow> bool" where
  "in_force L b k a t \<longleftrightarrow> cond_stat L (a_Conditions a) Ready = Some ConditionTrue \<and>
     pst_BucketID (a_Status a) = bst_BucketID (b_Status b) \<and>
     pst_AccessKeyID (a_Status a) = kst_AccessKeyID (k_Status k) \<and>
     t (kst_AccessKeyID (k_Status k)) (bst_BucketID (b_Status b)) = spec_permissions (a_Spec a)"

lemma ready_cond_stat: "ready_cond (FindStatusCondition L cs t) \<longleftrightarrow> cond_stat L cs t = Some ConditionTrue"
  by (auto simp: ready_cond_def cond_stat_def split: option.splits)

lemma versioned_settled:
  assumes "finalizer_laws L" and "versioned (a_Meta a) m"
  shows "settled_meta L (a\<lparr>a_Meta := m, a_Status := st\<rparr>) = settled_meta L a"
  using assms(2) by (auto simp: settled_meta_iff [OF assms(1)] versioned_def)

lemma policy_store_effect:
  assumes L: "cond_laws L" and F: "finalizer_laws L" and K: "status_eq_laws K"
    and run: "policy_run L K a out es" and fav: "unobstructed L b0 k0 es"
    and a: "m_DeletionTimestamp (a_Meta a) = None" and at: "cl_Policies c (own_request (a_Meta a)) = Some a"
    and path: "path cluster_step es c c'"
  obtains a' where "c' = c\<lparr>cl_Policies := (cl_Policies c)(own_request (a_Meta a) \<mapsto> a')\<rparr>"
    and "same_identity (a_Meta a) (a_Meta a')" and "a_Spec a' = a_Spec a" and "settled_meta L a'"
    and "settled_meta L a \<longrightarrow> a_Status a' = policy_status (a_Status a) es"
    and "settled_meta L a \<longrightarrow> policy_status (a_Status a) es = a_Status a \<longrightarrow> c' = c"
  using L F K run fav a
proof (cases rule: favourable_policy_run)
  case (saved a1)
  have own: "own_request (a_Meta a1) = own_request (a_Meta a)" by (rule same_identity_own [OF saved(6)])
  from path saved(2) at own a obtain m where m: "server_kept (a_Meta a) (a_Meta a1) m"
    "a_Spec a1 = a_Spec a \<longrightarrow> m_Generation m = a_Generation a"
    and c': "c' = c\<lparr>cl_Policies := (cl_Policies c)
      (own_request (a_Meta a) \<mapsto> a1\<lparr>a_Meta := m, a_Status := a_Status a\<rparr>)\<rparr>"
    by (auto simp: carried_out_or_not_def policy_stored_def last_release_def)
  have "same_identity (a_Meta a) m" using m saved(4) by (auto simp: server_kept_def same_identity_def)
  moreover have "settled_meta L (a1\<lparr>a_Meta := m, a_Status := a_Status a\<rparr>)"
    using saved(3) m(1) a by (auto simp: settled_meta_iff [OF F] server_kept_def)
  ultimately show thesis using that [OF c'] saved(1,4) by simp
next
  case (reported es1 es2 st)
  from path reported(2) obtain c1 where p: "path cluster_step es1 c c1" "path cluster_step es2 c1 c'"
    by (auto simp: path_append)
  from steps_idle [OF reported(3) p(1) policy_step_idle] p(2) have rest: "path cluster_step es2 c c'" by simp
  have "\<exists>m. versioned (a_Meta a) m \<and> c' = c\<lparr>cl_Policies := (cl_Policies c)
      (own_request (a_Meta a) \<mapsto> a\<lparr>a_Meta := m, a_Status := st\<rparr>)\<rparr>"
    using reported(5)
  proof (elim disjE exE conjE)
    assume "es2 = []" "st = a_Status a"
    with rest at show ?thesis by (intro exI [of _ "a_Meta a"]) (simp add: fun_upd_idem)
  next
    fix x
    assume "es2 = [PatchAccessPolicyStatus x None]" "own_request (a_Meta x) = own_request (a_Meta a)"
      "a_Status x = st"
    with rest at show ?thesis by (auto simp: carried_out_or_not_def policy_status_stored_def)
  qed
  then obtain m where m: "versioned (a_Meta a) m" and c': "c' = c\<lparr>cl_Policies := (cl_Policies c)
      (own_request (a_Meta a) \<mapsto> a\<lparr>a_Meta := m, a_Status := st\<rparr>)\<rparr>" by blast
  have "c' = c" if "policy_status (a_Status a) es = a_Status a"
    using reported(4,6) rest that by simp
  with that [OF c'] versioned_identity [OF m] versioned_settled [OF F m] reported(1,4) show thesis by simp
qed

lemma reads_are_stored:
  assumes "list_all policy_step es" and "path cluster_step es c c'"
  shows "GetBucket n (Inr b) \<in> set es \<Longrightarrow> cl_Buckets c n = Some b"
    and "GetAccessKey n (Inr k) \<in> set es \<Longrightarrow> cl_Keys c n = Some k"
  using assms by (induction es) (auto dest: policy_step_idle)

lemma policy_reads:
  assumes "live_policy_run L K a out es" and "path cluster_step es c c'"
  shows "GetBucket n (Inr b) \<in> set es \<Longrightarrow> cl_Buckets c n = Some b"
    and "GetAccessKey n (Inr k) \<in> set es \<Longrightarrow> cl_Keys c n = Some k"
proof -
  from assms(1) obtain a1 err es1 es2 where es: "es = es1 @ es2"
    and work: "policy_trace L (initializePolicyConditions L a) a1 err es1"
    and es2: "\<forall>e \<in> set es2. \<exists>b p. e = PatchAccessPolicyStatus b p"
    by (rule live_policy_events)
  from assms(2) es obtain c1 where path: "path cluster_step es1 c c1" by (auto simp: path_append)
  have "GetBucket n (Inr b) \<notin> set es2" "GetAccessKey n (Inr k) \<notin> set es2" using es2 by blast+
  with reads_are_stored [OF work_steps [OF work] path] es
  show "GetBucket n (Inr b) \<in> set es \<Longrightarrow> cl_Buckets c n = Some b"
    "GetAccessKey n (Inr k) \<in> set es \<Longrightarrow> cl_Keys c n = Some k" by auto
qed

lemma policy_granted:
  fixes T :: "'s transport" and K :: "'k kube"
  assumes L: "cond_laws L" and E: "error_laws L" and K: "status_eq_laws K"
    and run: "run_state (AccessPolicyReconciler_Reconcile L (shared_kube K)
      (garage_policy_reconciler T c) req) w = (out, w')"
    and ev: "new_events w w' = GetAccessPolicy req (Inr a) # es"
    and fav: "unobstructed L b0 k0 es" and set: "settled_meta L a"
    and path: "path cluster_step es cl cl'"
    and b: "cl_Buckets cl (policy_bucket a) = Some b" "cond_stat L (b_Conditions b) Ready = Some ConditionTrue"
    and k: "cl_Keys cl (policy_key a) = Some k" "cond_stat L (k_Conditions k) Ready = Some ConditionTrue"
    and a': "a_Status a' = policy_status (a_Status a) es" "a_Spec a' = a_Spec a"
      "same_identity (a_Meta a) (a_Meta a')"
  shows "in_force L b k a' (garage_table srv w') \<and> policy_rest L b k a' \<and>
    (policy_rest L b k a \<longrightarrow> policy_status (a_Status a) es = a_Status a)"
proof -
  let ?K = "shared_kube K :: ('k \<times> 's gworld) kube"
  have K': "status_eq_laws ?K" using K by (simp add: status_eq_laws_def shared_kube_def)
  from Policy_run [OF E run ev] set have live: "live_policy_run L ?K (fst (ensureLabels a)) out es"
    by (simp add: policy_run_def settled_meta_def)
  note reads = policy_reads [OF live path]
  have "\<exists>b k. assigned L a b k es"
    by (rule favourable_assigned [OF live fav]) (use b k reads in \<open>auto simp: ready_cond_stat\<close>)
  then obtain b1 k1 where asg: "assigned L a b1 k1 es" by blast
  then have "GetBucket (policy_bucket a) (Inr b1) \<in> set es" "GetAccessKey (policy_key a) (Inr k1) \<in> set es"
    by (simp_all add: assigned_def dependencies_ready_def)
  with reads b(1) k(1) have same: "b1 = b" "k1 = k" by fastforce+
  have clear: "\<not> unclear_read L es"
    using fav by (fastforce simp: unclear_read_def list_all_iff)
  let ?a = "fst (ensureLabels a)"
  have st: "policy_status (a_Status a) es = a_Status (policy_reported L (policy_placed L b k ?a))"
    using assigned_report [OF L K' live asg] by (simp only: same)
  have "policy_rest L b k a'"
    using policy_rest_same [of a' "policy_reported L (policy_placed L b k ?a)" b b k k L] policy_placed_rest [OF L]
      policy_placed_generation [OF L, of b k ?a] a' st by (simp add: same_identity_def)
  moreover have "policy_status (a_Status a) es = a_Status a" if "policy_rest L b k a"
  proof -
    from that have "policy_rest L b k ?a" by (simp add: policy_rest_def)
    from policy_rest_fixed [OF L this] st show ?thesis by simp
  qed
  moreover from live_policy_ready [OF L E K' run ev set clear refl] asg
    assigned_table [OF E run ev asg, of srv]
  have "in_force L b k a' (garage_table srv w')" by (auto simp: in_force_def a' same)
  ultimately show ?thesis by blast
qed

lemma policy_request_effect:
  fixes T :: "'s transport" and K :: "'k kube"
  assumes L: "cond_laws L" and E: "error_laws L" and F: "finalizer_laws L"
    and K: "status_eq_laws K" and S: "cluster_server view K"
    and run: "run_state (reconcile L K T c endpoint (AccessPolicyRequest (own_request (a_Meta a0)))) w = (out, w')"
    and fav: "unobstructed L b0 k0 (new_events w w')"
    and a: "holds_policy a0 (view (fst (ext w))) a" "m_DeletionTimestamp (a_Meta a0) = None"
  shows "\<exists>a'. view (fst (ext w')) = (view (fst (ext w)))\<lparr>cl_Policies :=
      (cl_Policies (view (fst (ext w))))(own_request (a_Meta a0) \<mapsto> a')\<rparr> \<and>
    holds_policy a0 (view (fst (ext w'))) a' \<and> settled_meta L a' \<and>
    (\<forall>b k. settled_meta L a \<longrightarrow> cl_Buckets (view (fst (ext w))) (policy_bucket a) = Some b \<longrightarrow>
       cl_Keys (view (fst (ext w))) (policy_key a) = Some k \<longrightarrow>
       cond_stat L (b_Conditions b) Ready = Some ConditionTrue \<longrightarrow>
       cond_stat L (k_Conditions k) Ready = Some ConditionTrue \<longrightarrow>
       in_force L b k a' (garage_table srv w') \<and> policy_rest L b k a' \<and>
       (policy_rest L b k a \<longrightarrow> view (fst (ext w')) = view (fst (ext w))))"
proof -
  let ?n = "own_request (a_Meta a0)" and ?c = "view (fst (ext w))" and ?c' = "view (fst (ext w'))"
  let ?K = "shared_kube K :: ('k \<times> 's gworld) kube"
  have K': "status_eq_laws ?K" using K by (simp add: status_eq_laws_def shared_kube_def)
  note run' = run [unfolded reconcile.simps]
  note path = tracks_run [OF policy_cluster [OF S] run']
  from produces_run [OF AccessPolicy_Reconcile_trace [OF E] run'] fav obtain ar es
    where ev: "new_events w w' = GetAccessPolicy ?n (Inr ar) # es" and "policy_run L ?K ar out es"
    by auto
  moreover from path ev a have ar: "ar = a" and path': "path cluster_step es ?c ?c'"
    by (auto simp: holds_policy_def)
  ultimately have ev: "new_events w w' = GetAccessPolicy ?n (Inr a) # es"
    and shape: "policy_run L ?K a out es" by simp_all
  from a have ident: "same_identity (a_Meta a0) (a_Meta a)" "a_Spec a = a_Spec a0"
    and at: "cl_Policies ?c ?n = Some a" and undeleted: "m_DeletionTimestamp (a_Meta a) = None"
    by (simp_all add: holds_policy_def same_identity_def)
  have own: "own_request (a_Meta a) = ?n" by (rule same_identity_own [OF ident(1)])
  from fav ev have fav': "unobstructed L b0 k0 es" by simp
  from policy_store_effect [OF L F K' shape fav' undeleted at [folded own] path'] obtain a'
    where c': "?c' = ?c\<lparr>cl_Policies := (cl_Policies ?c)(?n \<mapsto> a')\<rparr>"
      and a': "same_identity (a_Meta a) (a_Meta a')" "a_Spec a' = a_Spec a" "settled_meta L a'"
      and st: "settled_meta L a \<longrightarrow> a_Status a' = policy_status (a_Status a) es"
      and quiet: "settled_meta L a \<longrightarrow> policy_status (a_Status a) es = a_Status a \<longrightarrow> ?c' = ?c"
    unfolding own by metis
  have "in_force L b k a' (garage_table srv w') \<and> policy_rest L b k a' \<and> (policy_rest L b k a \<longrightarrow> ?c' = ?c)"
    if set: "settled_meta L a" and b: "cl_Buckets ?c (policy_bucket a) = Some b"
      and k: "cl_Keys ?c (policy_key a) = Some k"
      and ready: "cond_stat L (b_Conditions b) Ready = Some ConditionTrue"
        "cond_stat L (k_Conditions k) Ready = Some ConditionTrue" for b k
    using policy_granted [OF L E K run' ev fav' set path' b ready(1) k ready(2), of a'] st quiet set a'(1,2) by blast
  moreover have "holds_policy a0 ?c' a'"
    using a' ident(2) same_identity_trans [OF ident(1) a'(1)] by (simp add: holds_policy_def c')
  ultimately show ?thesis using c' a'(3) by blast
qed

section \<open>Stages\<close>

text \<open>
  What the three objects have reached: nothing yet (0), a bucket at rest (1), a key at rest
  (2), a policy with its labels and finalizer (3), the policy at rest and in force (4).
\<close>

definition stage ::
  "lib \<Rightarrow> ('k \<Rightarrow> cluster) \<Rightarrow> permission_server \<Rightarrow> Bucket \<Rightarrow> AccessKey \<Rightarrow> AccessPolicy \<Rightarrow> nat \<Rightarrow>
     ('k \<times> 's gworld) cworld \<Rightarrow> bool" where
  "stage L view srv b0 k0 a0 n w \<longleftrightarrow> (\<exists>b k a.
     holds_bucket b0 (view (fst (ext w))) b \<and> holds_key k0 (view (fst (ext w))) k \<and>
     holds_policy a0 (view (fst (ext w))) a \<and> (observed_gen k = k_Generation k \<longrightarrow> key_up L k) \<and>
     (1 \<le> n \<longrightarrow> bucket_rest L b) \<and> (2 \<le> n \<longrightarrow> key_rest L k) \<and> (3 \<le> n \<longrightarrow> settled_meta L a) \<and>
     (4 \<le> n \<longrightarrow> in_force L b k a (garage_table srv w) \<and> policy_rest L b k a))"

text \<open>How far a request takes them.\<close>

fun advance :: "request \<Rightarrow> nat \<Rightarrow> nat" where
  "advance (BucketRequest x) n = (if n = 0 then 1 else n)"
| "advance (AccessKeyRequest x) n = (if n = 1 then 2 else n)"
| "advance (AccessPolicyRequest x) n = (if n = 2 then 3 else if n = 3 then 4 else n)"

lemma bucket_stage:
  assumes L: "cond_laws L" and K: "status_eq_laws K" and S: "cluster_server view K"
    and run: "run_state (reconcile L K T c endpoint (BucketRequest (own_request (b_Meta b0)))) w = (out, w')"
    and fav: "unobstructed L b0 k0 (new_events w w')" and st: "stage L view srv b0 k0 a0 n w"
  shows "stage L view srv b0 k0 a0 (advance (BucketRequest (own_request (b_Meta b0))) n) w'"
    and "1 \<le> n \<Longrightarrow> view (fst (ext w')) = view (fst (ext w))"
proof -
  let ?c = "view (fst (ext w))" and ?c' = "view (fst (ext w'))"
  from st obtain b k a where o': "holds_bucket b0 ?c b" "holds_key k0 ?c k" "holds_policy a0 ?c a"
    and rest: "observed_gen k = k_Generation k \<longrightarrow> key_up L k" "1 \<le> n \<longrightarrow> bucket_rest L b"
      "2 \<le> n \<longrightarrow> key_rest L k" "3 \<le> n \<longrightarrow> settled_meta L a"
      "4 \<le> n \<longrightarrow> in_force L b k a (garage_table srv w) \<and> policy_rest L b k a"
    unfolding stage_def by blast
  from bucket_request_effect [OF L K S run fav o'(1)] obtain b'
    where c': "?c' = ?c\<lparr>cl_Buckets := (cl_Buckets ?c)(own_request (b_Meta b0) \<mapsto> b')\<rparr>"
      and b': "holds_bucket b0 ?c' b'" "bucket_rest L b'" and quiet: "bucket_rest L b \<longrightarrow> ?c' = ?c" by blast
  show still: "?c' = ?c" if "1 \<le> n" using that quiet rest(2) by blast
  have table: "garage_table srv w' = garage_table srv w"
    by (rule quiet_run [OF garage_tracks(1) _ run [unfolded reconcile.simps]]) simp
  have "b' = b" if "1 \<le> n"
    using still [OF that] o'(1) b'(1) by (simp add: holds_bucket_def)
  then have "4 \<le> n \<longrightarrow> in_force L b' k a (garage_table srv w') \<and> policy_rest L b' k a"
    using rest(5) table by auto
  with o'(2,3) rest b' c' show "stage L view srv b0 k0 a0 (advance (BucketRequest (own_request (b_Meta b0))) n) w'"
    unfolding stage_def by (intro exI [of _ b'] exI [of _ k] exI [of _ a])
      (simp add: holds_key_def holds_policy_def)
qed

lemma key_stage:
  assumes L: "cond_laws L" and F: "finalizer_laws L" and O: "owner_laws L" "adopts_free L"
    and K: "status_eq_laws K" and S: "cluster_server view K"
    and run: "run_state (reconcile L K T c endpoint (AccessKeyRequest (own_request (k_Meta k0)))) w = (out, w')"
    and fav: "unobstructed L b0 k0 (new_events w w')" and st: "stage L view srv b0 k0 a0 n w"
    and live: "m_DeletionTimestamp (k_Meta k0) = None"
  shows "stage L view srv b0 k0 a0 (advance (AccessKeyRequest (own_request (k_Meta k0))) n) w'"
    and "2 \<le> n \<Longrightarrow> view (fst (ext w')) = view (fst (ext w))"
proof -
  let ?c = "view (fst (ext w))" and ?c' = "view (fst (ext w'))"
  from st obtain b k a where o': "holds_bucket b0 ?c b" "holds_key k0 ?c k" "holds_policy a0 ?c a"
    and rest: "observed_gen k = k_Generation k \<longrightarrow> key_up L k" "1 \<le> n \<longrightarrow> bucket_rest L b"
      "2 \<le> n \<longrightarrow> key_rest L k" "3 \<le> n \<longrightarrow> settled_meta L a"
      "4 \<le> n \<longrightarrow> in_force L b k a (garage_table srv w) \<and> policy_rest L b k a"
    unfolding stage_def by blast
  from key_request_effect [OF L F O K S run fav o'(2) live rest(1)] obtain k'
    where c': "?c' = ?c\<lparr>cl_Keys := (cl_Keys ?c)(own_request (k_Meta k0) \<mapsto> k')\<rparr>"
      and k': "holds_key k0 ?c' k'" "key_rest L k'" and quiet: "key_rest L k \<longrightarrow> ?c' = ?c" by blast
  show still: "?c' = ?c" if "2 \<le> n" using that quiet rest(3) by blast
  have table: "garage_table srv w' = garage_table srv w"
    by (rule quiet_run [OF garage_tracks(2) _ run [unfolded reconcile.simps]]) simp
  have "k' = k" if "2 \<le> n"
    using still [OF that] o'(2) k'(1) by (simp add: holds_key_def)
  then have "4 \<le> n \<longrightarrow> in_force L b k' a (garage_table srv w') \<and> policy_rest L b k' a"
    using rest(5) table by auto
  with o'(1,3) rest k' c' show "stage L view srv b0 k0 a0 (advance (AccessKeyRequest (own_request (k_Meta k0))) n) w'"
    unfolding stage_def by (intro exI [of _ b] exI [of _ k'] exI [of _ a])
      (simp add: holds_bucket_def holds_policy_def key_rest_def)
qed

lemma policy_stage:
  assumes L: "cond_laws L" and E: "error_laws L" and F: "finalizer_laws L"
    and K: "status_eq_laws K" and S: "cluster_server view K"
    and run: "run_state (reconcile L K T c endpoint (AccessPolicyRequest (own_request (a_Meta a0)))) w = (out, w')"
    and fav: "unobstructed L b0 k0 (new_events w w')" and st: "stage L view srv b0 k0 a0 n w"
    and live: "m_DeletionTimestamp (a_Meta a0) = None"
    and names: "policy_bucket a0 = own_request (b_Meta b0)" "policy_key a0 = own_request (k_Meta k0)"
  shows "stage L view srv b0 k0 a0 (advance (AccessPolicyRequest (own_request (a_Meta a0))) n) w'"
    and "4 \<le> n \<Longrightarrow> view (fst (ext w')) = view (fst (ext w))"
proof -
  let ?c = "view (fst (ext w))" and ?c' = "view (fst (ext w'))"
  from st obtain b k a where o': "holds_bucket b0 ?c b" "holds_key k0 ?c k" "holds_policy a0 ?c a"
    and rest: "observed_gen k = k_Generation k \<longrightarrow> key_up L k" "1 \<le> n \<longrightarrow> bucket_rest L b"
      "2 \<le> n \<longrightarrow> key_rest L k" "3 \<le> n \<longrightarrow> settled_meta L a"
    and place: "4 \<le> n \<longrightarrow> in_force L b k a (garage_table srv w) \<and> policy_rest L b k a"
    unfolding stage_def by blast
  from o'(3) names have "policy_bucket a = own_request (b_Meta b0)" "policy_key a = own_request (k_Meta k0)"
    by (simp_all add: holds_policy_def same_identity_def policy_bucket_def policy_key_def)
  then have at: "cl_Buckets ?c (policy_bucket a) = Some b" "cl_Keys ?c (policy_key a) = Some k"
    using o'(1,2) by (simp_all add: holds_bucket_def holds_key_def)
  from policy_request_effect [OF L E F K S run fav o'(3) live, of srv] at obtain a'
    where c': "?c' = ?c\<lparr>cl_Policies := (cl_Policies ?c)(own_request (a_Meta a0) \<mapsto> a')\<rparr>"
      and a': "holds_policy a0 ?c' a'" "settled_meta L a'"
      and eff: "settled_meta L a \<longrightarrow> cond_stat L (b_Conditions b) Ready = Some ConditionTrue \<longrightarrow>
       cond_stat L (k_Conditions k) Ready = Some ConditionTrue \<longrightarrow>
       in_force L b k a' (garage_table srv w') \<and> policy_rest L b k a' \<and> (policy_rest L b k a \<longrightarrow> ?c' = ?c)" by blast
  have done': "in_force L b k a' (garage_table srv w') \<and> policy_rest L b k a' \<and> (policy_rest L b k a \<longrightarrow> ?c' = ?c)"
    if "3 \<le> n"
    using that rest eff bucket_rest_up [of L b] by (simp add: bucket_up_def key_up_def key_rest_def)
  then show "?c' = ?c" if "4 \<le> n" using that place by simp
  from done' o'(1,2) rest a' c' show "stage L view srv b0 k0 a0 (advance (AccessPolicyRequest (own_request (a_Meta a0))) n) w'"
    unfolding stage_def by (intro exI [of _ b] exI [of _ k] exI [of _ a'])
      (simp add: holds_bucket_def holds_key_def)
qed

section \<open>Schedules\<close>

text \<open>The requests that bring the three objects from one stage to the next.\<close>

definition rounds :: "Bucket \<Rightarrow> AccessKey \<Rightarrow> AccessPolicy \<Rightarrow> request list" where
  "rounds b k a = [BucketRequest (own_request (b_Meta b)), AccessKeyRequest (own_request (k_Meta k)),
     AccessPolicyRequest (own_request (a_Meta a)), AccessPolicyRequest (own_request (a_Meta a))]"

lemma advance_rounds: "n < 4 \<Longrightarrow> advance (rounds b k a ! n) n = Suc n"
  by (auto simp: rounds_def nth_Cons' less_Suc_eq numeral_eq_Suc)

lemma advance_mono: "n \<le> advance r n" "m \<le> n \<Longrightarrow> advance r m \<le> advance r n"
  by (cases r; auto)+

lemma advance_bound: "n \<le> 4 \<Longrightarrow> advance r n \<le> 4"
  by (cases r) auto

lemma schedule_completes:
  assumes "subseq (drop n (rounds b k a)) rs" and "n \<le> 4"
  shows "fold advance rs n = 4"
  using assms
proof (induction rs arbitrary: n rule: list.induct)
  case Nil
  then have "drop n (rounds b k a) = []" by (simp only: list_emb_Nil2)
  with Nil.prems(2) show ?case by (simp add: rounds_def)
next
  case (Cons r rs)
  show ?case
  proof (cases "n < 4")
    case False
    with Cons.prems have "n = 4" by simp
    then have "advance r n = 4" by (cases r) auto
    with Cons.IH [of 4] show ?thesis by (simp add: rounds_def)
  next
    case True
    then have len: "n < length (rounds b k a)" by (simp add: rounds_def)
    have split: "drop n (rounds b k a) = rounds b k a ! n # drop (Suc n) (rounds b k a)"
      by (rule Cons_nth_drop_Suc [OF len, symmetric])
    show ?thesis
    proof (cases "r = rounds b k a ! n")
      case True
      with Cons.prems split have "subseq (drop (Suc n) (rounds b k a)) rs" by simp
      with Cons.IH [OF this] \<open>n < 4\<close> True show ?thesis by (simp add: advance_rounds)
    next
      case False
      with Cons.prems split have "subseq (drop n (rounds b k a)) rs" by simp
      moreover from this split have "subseq (drop (Suc n) (rounds b k a)) rs"
        by (metis subseq_Cons')
      moreover have "advance r n = n \<or> advance r n = Suc n" by (cases r) auto
      ultimately show ?thesis using Cons.IH True by auto
    qed
  qed
qed

lemma events_split:
  assumes "log v = log w @ new_events w v" and "log w' = log v @ new_events v w'"
  shows "new_events w w' = new_events w v @ new_events v w'"
  using assms by (metis append.assoc new_events_append)

definition library_laws :: "lib \<Rightarrow> bool" where
  "library_laws L \<longleftrightarrow> cond_laws L \<and> error_laws L \<and> finalizer_laws L \<and> owner_laws L \<and> adopts_free L"

text \<open>One request: it takes the objects on, and at the last stage it changes nothing in the cluster.\<close>

lemma request_stage:
  assumes laws: "library_laws L" and K: "status_eq_laws K" and S: "cluster_server view K"
    and live: "m_DeletionTimestamp (k_Meta k0) = None" "m_DeletionTimestamp (a_Meta a0) = None"
    and names: "policy_bucket a0 = own_request (b_Meta b0)" "policy_key a0 = own_request (k_Meta k0)"
    and r: "r \<in> set (rounds b0 k0 a0)" and run: "run_state (reconcile L K T c endpoint r) w = (out, w')"
    and fav: "unobstructed L b0 k0 (new_events w w')" and st: "stage L view srv b0 k0 a0 n w"
  shows "stage L view srv b0 k0 a0 (advance r n) w' \<and>
    (4 \<le> n \<longrightarrow> view (fst (ext w')) = view (fst (ext w)))"
proof -
  from laws have L: "cond_laws L" "error_laws L" "finalizer_laws L" "owner_laws L" "adopts_free L"
    by (simp_all add: library_laws_def)
  from r consider "r = BucketRequest (own_request (b_Meta b0))"
    | "r = AccessKeyRequest (own_request (k_Meta k0))" | "r = AccessPolicyRequest (own_request (a_Meta a0))"
    by (auto simp: rounds_def)
  then show ?thesis
  proof cases
    case 1
    from bucket_stage [OF L(1) K S run [unfolded 1] fav st] show ?thesis by (simp only: 1) simp
  next
    case 2
    from key_stage [OF L(1,3-5) K S run [unfolded 2] fav st live(1)] show ?thesis by (simp only: 2) simp
  next
    case 3
    from policy_stage [OF L(1-3) K S run [unfolded 3] fav st live(2) names] show ?thesis by (simp only: 3) simp
  qed
qed

lemma fold_advance_last: "fold advance rs 4 = 4"
proof (induction rs)
  case (Cons r rs)
  have "advance r 4 = 4" by (cases r) auto
  with Cons show ?case by simp
qed simp

lemma schedule_stage:
  assumes laws: "library_laws L" and K: "status_eq_laws K" and S: "cluster_server view K"
    and live: "m_DeletionTimestamp (k_Meta k0) = None" "m_DeletionTimestamp (a_Meta a0) = None"
    and names: "policy_bucket a0 = own_request (b_Meta b0)" "policy_key a0 = own_request (k_Meta k0)"
    and rs: "set rs \<subseteq> set (rounds b0 k0 a0)"
    and run: "run_state (reconcile_all L K T c endpoint rs) w = (u, w')"
    and fav: "unobstructed L b0 k0 (new_events w w')" and st: "stage L view srv b0 k0 a0 n w"
  shows "stage L view srv b0 k0 a0 (fold advance rs n) w' \<and>
    (4 \<le> n \<longrightarrow> view (fst (ext w')) = view (fst (ext w)))"
  using rs run fav st
proof (induction rs arbitrary: w n rule: list.induct)
  case Nil
  then show ?case by (simp add: run_return)
next
  case (Cons r rs)
  from laws have F: "finalizer_laws L" by (simp add: library_laws_def)
  obtain out v where first: "run_state (reconcile L K T c endpoint r) w = (out, v)" by fastforce
  with Cons.prems(2) have rest: "run_state (reconcile_all L K T c endpoint rs) v = (u, w')"
    by (simp add: run_bind)
  have "new_events w w' = new_events w v @ new_events v w'"
    by (rule events_split [OF tracks_events [OF reconcile_cluster [OF F S] first]
          tracks_events [OF reconcile_all_cluster [OF F S] rest]])
  with Cons.prems(3) have fav: "unobstructed L b0 k0 (new_events w v)" "unobstructed L b0 k0 (new_events v w')"
    by simp_all
  from Cons.prems(1) have "r \<in> set (rounds b0 k0 a0)" by simp
  note one = request_stage [OF laws K S live names this first fav(1) Cons.prems(4)]
  from Cons.IH [OF _ rest fav(2) one [THEN conjunct1]] Cons.prems(1)
  have "stage L view srv b0 k0 a0 (fold advance rs (advance r n)) w'"
    "4 \<le> advance r n \<longrightarrow> view (fst (ext w')) = view (fst (ext v))" by simp_all
  then show ?case using one advance_mono(1) [of n r] by auto
qed

text \<open>
  C2: the system converges, and comes to rest.  Take a bucket, a key and a policy that names both,
  stored in the cluster with any statuses, labels and finalizers that an earlier life left them; the
  key and the policy are not being deleted, and the key is ready if its generation is recorded as
  observed already (a key that gave up because the name of its secret is taken, the status
  \<open>SecretNameConflict\<close>, has its generation recorded, and is not looked at again before its
  specification changes; from such a start nothing converges).  Let their reconciliation be asked for in any order and any number of
  times, on a server that stores what it is sent, and let no call of these runs meet an obstacle
  (\<open>favourable\<close> in \<open>Convergence\<close>: no error, apart from the not-found answers at which the code
  creates the object).  As soon as the bucket, the key, and twice the policy were reconciled in
  this order, whatever ran before, between and after, the stored bucket and key are ready, the
  stored policy has its labels and finalizer and reports \<open>Ready\<close> with their IDs, and in Garage
  the key holds exactly the permissions of the policy's spec on the bucket.  From then on,
  however often they are reconciled without an obstacle, no stored bucket, key or policy
  changes any more, so the reconcilers do not wake each other up for ever.
\<close>

theorem system_converges:
  assumes laws: "library_laws L" and K: "status_eq_laws K" and S: "cluster_server view K"
    and stored: "cl_Buckets (view (fst (ext w))) (own_request (b_Meta b0)) = Some b0"
      "cl_Keys (view (fst (ext w))) (own_request (k_Meta k0)) = Some k0"
      "cl_Policies (view (fst (ext w))) (own_request (a_Meta a0)) = Some a0"
    and names: "policy_bucket a0 = own_request (b_Meta b0)" "policy_key a0 = own_request (k_Meta k0)"
    and live: "m_DeletionTimestamp (k_Meta k0) = None" "m_DeletionTimestamp (a_Meta a0) = None"
    and key: "observed_gen k0 = k_Generation k0 \<longrightarrow> key_up L k0"
    and rs: "set rs \<subseteq> set (rounds b0 k0 a0)" "subseq (rounds b0 k0 a0) rs"
    and run: "run_state (reconcile_all L K T c endpoint rs) w = (u, w')"
    and fav: "unobstructed L b0 k0 (new_events w w')"
    and later: "set rs' \<subseteq> set (rounds b0 k0 a0)" "run_state (reconcile_all L K T c endpoint rs') w' = (u', w'')"
      "unobstructed L b0 k0 (new_events w' w'')"
  shows "view (fst (ext w'')) = view (fst (ext w')) \<and>
    (\<exists>b k a. cl_Buckets (view (fst (ext w''))) (own_request (b_Meta b0)) = Some b \<and>
      cl_Keys (view (fst (ext w''))) (own_request (k_Meta k0)) = Some k \<and>
      cl_Policies (view (fst (ext w''))) (own_request (a_Meta a0)) = Some a \<and>
      bucket_up L (b_Status b) \<and> key_up L k \<and> settled_meta L a \<and> a_Spec a = a_Spec a0 \<and>
      cond_stat L (a_Conditions a) Ready = Some ConditionTrue \<and>
      pst_BucketID (a_Status a) = bst_BucketID (b_Status b) \<and>
      pst_AccessKeyID (a_Status a) = kst_AccessKeyID (k_Status k) \<and>
      garage_table srv w'' (kst_AccessKeyID (k_Status k)) (bst_BucketID (b_Status b)) =
        spec_permissions (a_Spec a0))"
proof -
  have "stage L view srv b0 k0 a0 0 w"
    using stored key unfolding stage_def
    by (intro exI [of _ b0] exI [of _ k0] exI [of _ a0])
      (simp add: holds_bucket_def holds_key_def holds_policy_def)
  from schedule_stage [OF laws K S live names rs(1) run fav this]
  have "stage L view srv b0 k0 a0 4 w'"
    using schedule_completes [of 0 b0 k0 a0 rs] rs(2) by simp
  from schedule_stage [OF laws K S live names later this]
  have "stage L view srv b0 k0 a0 4 w''" and same: "view (fst (ext w'')) = view (fst (ext w'))"
    by (simp_all add: fold_advance_last)
  then obtain b k a where "holds_bucket b0 (view (fst (ext w''))) b" "holds_key k0 (view (fst (ext w''))) k"
    "holds_policy a0 (view (fst (ext w''))) a" "bucket_up L (b_Status b)" "key_up L k" "settled_meta L a"
    "in_force L b k a (garage_table srv w'')"
    using bucket_rest_up unfolding stage_def key_rest_def by auto
  with same show ?thesis
    by (intro conjI exI [of _ b] exI [of _ k] exI [of _ a])
      (simp_all add: holds_bucket_def holds_key_def holds_policy_def in_force_def)
qed

section \<open>The example\<close>

lemma plain_lib_adopts_free: "adopts_free plain_lib"
  by (simp add: adopts_free_def plain_lib_def set_controller_def)

lemma ex_laws: "library_laws plain_lib"
  by (simp add: library_laws_def plain_lib_cond_laws plain_lib_error_laws plain_lib_finalizer_laws
      plain_lib_owner_laws plain_lib_adopts_free)

lemma reconcile_unobstructed:
  assumes "run_state (reconcile plain_lib mem_kube have_all admin_client endpoint r) w = (out, w')"
    and "all_stored (fst (ext w))"
  shows "unobstructed plain_lib ex_b ex_k (new_events w w') \<and> all_stored (fst (ext w'))"
  using assms by (cases r) (auto dest: bucket_unobstructed key_unobstructed policy_unobstructed)

lemma schedule_unobstructed:
  assumes "run_state (reconcile_all plain_lib mem_kube have_all admin_client endpoint rs) w = (u, w')"
    and "all_stored (fst (ext w))"
  shows "unobstructed plain_lib ex_b ex_k (new_events w w') \<and> all_stored (fst (ext w'))"
  using assms
proof (induction rs arbitrary: w)
  case Nil
  then show ?case by (simp add: run_return new_events_def)
next
  case (Cons r rs)
  note F = plain_lib_finalizer_laws and S = mem_kube_server
  obtain out v where first: "run_state (reconcile plain_lib mem_kube have_all admin_client endpoint r) w = (out, v)"
    by fastforce
  with Cons.prems(1) have rest: "run_state (reconcile_all plain_lib mem_kube have_all admin_client endpoint rs) v = (u, w')"
    by (simp add: run_bind)
  from reconcile_unobstructed [OF first Cons.prems(2)] Cons.IH [OF rest]
    events_split [OF tracks_events [OF reconcile_cluster [OF F S] first]
      tracks_events [OF reconcile_all_cluster [OF F S] rest]]
  show ?case by simp
qed

definition ex_start :: "(cluster \<times> unit gworld) cworld" where
  "ex_start = \<lparr>ext = (ex_cluster, empty_gworld), log = []\<rparr>"

lemma ex_all_stored: "all_stored (fst (ext ex_start))"
  by (simp add: all_stored_def everywhere_def ex_start_def ex_cluster_def named_def ex_meta_def ex_new_def
      new_meta_def)

lemma ex_names: "policy_bucket ex_a = own_request (b_Meta ex_b)" "policy_key ex_a = own_request (k_Meta ex_k)"
  by (simp_all add: policy_bucket_def policy_key_def own_request_def ex_a_def ex_b_def ex_k_def named_def ex_policy_def)

lemma own_ex_a: "own_request (a_Meta ex_a) = (''default'', ''policy'')"
  by (simp add: own_request_def ex_a_def named_def)

theorem system_converges_witness:
  "let w' = snd (run_state (reconcile_all plain_lib mem_kube have_all admin_client ''s3.local''
       (rounds ex_b ex_k ex_a)) ex_start);
     w'' = snd (run_state (reconcile_all plain_lib mem_kube have_all admin_client ''s3.local''
       (rev (rounds ex_b ex_k ex_a))) w')
   in fst (ext w'') = fst (ext w') \<and>
     (\<exists>a. cl_Policies (fst (ext w'')) (''default'', ''policy'') = Some a \<and>
       cond_stat plain_lib (a_Conditions a) Ready = Some ConditionTrue \<and>
       (\<exists>i j. garage_table (server_with (\<lambda>_ _. no_permissions)) w'' i j = spec_permissions (a_Spec ex_a)))"
proof -
  obtain u w' where run: "run_state (reconcile_all plain_lib mem_kube have_all admin_client ''s3.local''
      (rounds ex_b ex_k ex_a)) ex_start = (u, w')" by (metis surj_pair)
  obtain u' w'' where run': "run_state (reconcile_all plain_lib mem_kube have_all admin_client ''s3.local''
      (rev (rounds ex_b ex_k ex_a))) w' = (u', w'')" by (metis surj_pair)
  note start = schedule_unobstructed [OF run ex_all_stored]
  note later = schedule_unobstructed [OF run' start [THEN conjunct2]]
  have stored: "cl_Buckets (fst (ext ex_start)) (own_request (b_Meta ex_b)) = Some ex_b"
    "cl_Keys (fst (ext ex_start)) (own_request (k_Meta ex_k)) = Some ex_k"
    "cl_Policies (fst (ext ex_start)) (own_request (a_Meta ex_a)) = Some ex_a"
    by (simp_all add: ex_start_def ex_cluster_def ex_a_def ex_b_def ex_k_def own_request_def named_def)
  have live: "m_DeletionTimestamp (k_Meta ex_k) = None" "m_DeletionTimestamp (a_Meta ex_a) = None"
    by (simp_all add: ex_k_def ex_a_def named_def ex_meta_def new_meta_def)
  have new: "observed_gen ex_k = k_Generation ex_k \<longrightarrow> key_up plain_lib ex_k"
    by (simp add: observed_gen_def ex_k_def ex_key_def named_def ex_meta_def new_meta_def)
  have again: "set (rev (rounds ex_b ex_k ex_a)) \<subseteq> set (rounds ex_b ex_k ex_a)" by simp
  from system_converges [where view = "\<lambda>c. c" and srv = "server_with (\<lambda>_ _. no_permissions)", OF ex_laws mem_kube_status_eq
      mem_kube_server stored ex_names live new subset_refl subseq_order.refl run start [THEN conjunct1] again run'
      later [THEN conjunct1]]
  show ?thesis unfolding run run' Let_def snd_conv own_ex_a by blast
qed

end
