(* ===== verification/Deletion.thy ===== *)
theory Deletion
  imports Schedules
begin

text \<open>
  Deletion: what becomes of a key and a policy that the user deleted.  The server keeps such an
  object until its last finalizer is gone; one run of its controller that meets no obstacle takes
  back what the status records that the object stands for in Garage and lets it go, and no run
  of any controller brings it back.
\<close>

section \<open>Runs without obstacles\<close>

text \<open>Reads and writes succeed; what was to be taken back is taken back, or already missing.\<close>

fun releasing :: "ctrl_event \<Rightarrow> bool" where
  "releasing (GetAccessKey n r) = (\<not> isl r)"
| "releasing (GetAccessPolicy n r) = (\<not> isl r)"
| "releasing (UpdateAccessKey k r) = (r = None)"
| "releasing (UpdateAccessPolicy a r) = (r = None)"
| "releasing (PermissionsSet i j p r) = revoked r"
| "releasing (KeyLookup n r) = (\<forall>e. r = Inl e \<longrightarrow> errors_Is e ErrResourceNotFound)"
| "releasing (KeyDelete i r) = deleted r"
| "releasing e = True"

section \<open>Objects that are gone stay away\<close>

lemma gone_policy_step: "cluster_step e c c' \<Longrightarrow> cl_Policies c n = None \<Longrightarrow> cl_Policies c' n = None"
  by (cases e) (auto simp: carried_out_or_not_def bucket_status_stored_def key_status_stored_def
      policy_status_stored_def policy_stored_def key_stored_def finalizers_patched_def
      split: if_splits sum.splits)

lemma gone_key_step: "cluster_step e c c' \<Longrightarrow> cl_Keys c n = None \<Longrightarrow> cl_Keys c' n = None"
  by (cases e) (auto simp: carried_out_or_not_def bucket_status_stored_def key_status_stored_def
      policy_status_stored_def policy_stored_def key_stored_def finalizers_patched_def
      split: if_splits sum.splits)

lemma gone_path:
  assumes "path cluster_step es c c'"
  shows "cl_Policies c n = None \<Longrightarrow> cl_Policies c' n = None"
    and "cl_Keys c n = None \<Longrightarrow> cl_Keys c' n = None"
  by (rule path_invariant [OF assms, of "\<lambda>c. cl_Policies c n = None"]; simp add: gone_policy_step)
    (rule path_invariant [OF assms, of "\<lambda>c. cl_Keys c n = None"]; simp add: gone_key_step)

lemma last_finalizer:
  assumes "finalizer_laws L" and "set (m_Finalizers m) = {finalizerName}"
  shows "m_Finalizers (RemoveFinalizer L m finalizerName) = []"
    and "own_request (RemoveFinalizer L m finalizerName) = own_request m"
    and "ContainsFinalizer L m finalizerName"
    and "\<not> ContainsFinalizer L (RemoveFinalizer L m finalizerName) finalizerName"
proof -
  from assms(1) obtain fs where fs: "RemoveFinalizer L m finalizerName = m\<lparr>m_Finalizers := fs\<rparr>"
    "set fs = set (m_Finalizers m) - {finalizerName}"
    unfolding finalizer_laws_def by blast
  moreover have "ContainsFinalizer L x f = (f \<in> set (m_Finalizers x))" for x f
    using assms(1) by (simp add: finalizer_laws_def)
  ultimately show "m_Finalizers (RemoveFinalizer L m finalizerName) = []"
    "own_request (RemoveFinalizer L m finalizerName) = own_request m" "ContainsFinalizer L m finalizerName"
    "\<not> ContainsFinalizer L (RemoveFinalizer L m finalizerName) finalizerName"
    using assms(2) by simp_all
qed

section \<open>Policies\<close>

lemma own_labelled: "own_request (a_Meta (fst (ensureLabels a))) = own_request (a_Meta a)"
  by (simp add: ensureLabels_def Let_def own_request_def split: prod.splits)

lemma released_run:
  assumes F: "finalizer_laws L" and run: "policy_run L K a out es"
    and a: "m_DeletionTimestamp (a_Meta a) \<noteq> None" "set (m_Finalizers (a_Meta a)) = {finalizerName}"
    and ok: "list_all releasing es"
  obtains pre where "es = pre @ UpdateAccessPolicy (policy_unfinalized L (fst (ensureLabels a))) None # []"
    and "list_all policy_step pre"
proof -
  have "ContainsFinalizer L (a_Meta (fst (ensureLabels a))) finalizerName"
    by (rule last_finalizer(3) [OF F]) (simp add: a(2))
  with run a(1) have "finalize_policy_run L (fst (ensureLabels a)) out es"
    by (simp add: policy_run_def Let_def)
  with ok obtain pre where "es = pre @ [UpdateAccessPolicy (policy_unfinalized L (fst (ensureLabels a))) None]"
    and "pre = [] \<or> (\<exists>x. pre = [revocation (fst (ensureLabels a)) x])"
    by (auto simp: finalize_policy_run_def revocation_def revoked_def split: if_splits)
  with that [of pre] show thesis by (auto simp: revocation_def)
qed

lemma policy_deletion:
  fixes T :: "'s transport" and K :: "'k kube"
  assumes E: "error_laws L" and F: "finalizer_laws L" and S: "cluster_server view K"
    and at: "cl_Policies (view (fst (ext w))) (own_request (a_Meta a)) = Some a"
    and a: "m_DeletionTimestamp (a_Meta a) \<noteq> None" "set (m_Finalizers (a_Meta a)) = {finalizerName}"
    and run: "run_state (AccessPolicyReconciler_Reconcile L (shared_kube K)
      (garage_policy_reconciler T c) (own_request (a_Meta a))) w = (out, w')"
    and ok: "list_all releasing (new_events w w')"
  obtains pre where "new_events w w' = GetAccessPolicy (own_request (a_Meta a)) (Inr a) #
      pre @ UpdateAccessPolicy (policy_unfinalized L (fst (ensureLabels a))) None # []"
    and "view (fst (ext w')) = (view (fst (ext w)))\<lparr>cl_Policies :=
      (cl_Policies (view (fst (ext w))))(own_request (a_Meta a) := None)\<rparr>"
proof -
  let ?n = "own_request (a_Meta a)" and ?a = "fst (ensureLabels a)"
  note path = tracks_run [OF policy_cluster [OF S] run]
  from produces_run [OF AccessPolicy_Reconcile_trace [OF E] run] ok obtain ar es
    where ev: "new_events w w' = GetAccessPolicy ?n (Inr ar) # es"
      and shape: "policy_run L (shared_kube K :: ('k \<times> 's gworld) kube) ar out es" by auto
  from path ev at have ar: "ar = a" and path': "path cluster_step es (view (fst (ext w))) (view (fst (ext w')))"
    by auto
  from ok ev have ok': "list_all releasing es" by simp
  from released_run [OF F shape [unfolded ar] a ok'] obtain pre
    where es: "es = pre @ UpdateAccessPolicy (policy_unfinalized L ?a) None # []"
      and idle: "list_all policy_step pre" .
  from path' es obtain c1 where "path cluster_step pre (view (fst (ext w))) c1"
    and last: "policy_stored (policy_unfinalized L ?a) c1 (view (fst (ext w')))"
    by (auto simp: path_append carried_out_or_not_def)
  with steps_idle [OF idle this(1) policy_step_idle] at a last_finalizer(1,2) [OF F, of "a_Meta ?a"]
  have "view (fst (ext w')) = (view (fst (ext w)))\<lparr>cl_Policies := (cl_Policies (view (fst (ext w))))(?n := None)\<rparr>"
    by (auto simp: policy_stored_def policy_unfinalized_def last_release_def own_labelled)
  with that ev ar es show thesis by blast
qed

text \<open>
  C6: a deleted policy goes.  Let a policy be stored that is being deleted and carries no
  finalizer but the controller's.  A run for it that meets no obstacle (every call succeeds, or
  the revocation finds the key or bucket missing) removes it from the cluster, and no later run
  of any controller, whatever it meets, brings the object back.  No entry of Garage's permissions
  is wider after the run than before.  When its status recorded both a key and a bucket, the key
  has no permission left on the bucket, unless Garage reported one of them missing; when one ID
  was not recorded, the run leaves every entry as it was.
\<close>

theorem deleted_policy_goes:
  assumes E: "error_laws L" and F: "finalizer_laws L" and S: "cluster_server view K"
    and at: "cl_Policies (view (fst (ext w))) (own_request (a_Meta a)) = Some a"
    and a: "m_DeletionTimestamp (a_Meta a) \<noteq> None" "set (m_Finalizers (a_Meta a)) = {finalizerName}"
    and run: "run_state (AccessPolicyReconciler_Reconcile L (shared_kube K)
      (garage_policy_reconciler T c) (own_request (a_Meta a))) w = (out, w1)"
    and ok: "list_all releasing (new_events w w1)"
    and later: "run_state (reconcile_all L K T c endpoint rs) w1 = (u, w2)"
  shows "cl_Policies (view (fst (ext w1))) (own_request (a_Meta a)) = None \<and>
    cl_Policies (view (fst (ext w2))) (own_request (a_Meta a)) = None \<and>
    garage_table srv w1 \<le> garage_table srv w \<and>
    (if bound a then
        (\<exists>e. errors_Is e ErrResourceNotFound \<and> revocation a (Some e) \<in> set (new_events w w1)) \<or>
        garage_table srv w1 = set_entry (garage_table srv w) (pst_AccessKeyID (a_Status a))
          (pst_BucketID (a_Status a)) no_permissions
      else garage_table srv w1 = garage_table srv w)"
proof -
  obtain pre where ev: "new_events w w1 = GetAccessPolicy (own_request (a_Meta a)) (Inr a) #
      pre @ UpdateAccessPolicy (policy_unfinalized L (fst (ensureLabels a))) None # []"
    and removed: "view (fst (ext w1)) = (view (fst (ext w)))\<lparr>cl_Policies :=
      (cl_Policies (view (fst (ext w))))(own_request (a_Meta a) := None)\<rparr>"
    by (rule policy_deletion [OF E F S at a run ok])
  then have gone: "cl_Policies (view (fst (ext w1))) (own_request (a_Meta a)) = None" by simp
  have "\<not> ContainsFinalizer L (a_Meta (policy_unfinalized L (fst (ensureLabels a)))) finalizerName"
    unfolding policy_unfinalized_def by (simp add: last_finalizer(4) [OF F] a(2))
  from release_effect [OF E F run ev this, of srv] ev gone
    gone_path(1) [OF tracks_run [OF reconcile_all_cluster [OF F S] later] gone]
  show ?thesis by (auto split: if_splits)
qed

section \<open>Keys\<close>

lemma released_key_run:
  assumes F: "finalizer_laws L" and run: "key_run L K req k out es"
    and k: "m_DeletionTimestamp (k_Meta k) \<noteq> None" "set (m_Finalizers (k_Meta k)) = {finalizerName}"
    and ok: "list_all releasing es"
  obtains pre where "es = pre @ [UpdateAccessKey (key_unfinalized L k) None]" and "key_released k pre"
proof -
  have "finalize_key_run L k out es"
    using run k last_finalizer(3) [OF F k(2)] by (simp add: key_run_def)
  moreover have "\<not> key_refused es" using ok by (fastforce simp: key_refused_def list_all_iff)
  ultimately show thesis using that ok by (auto simp: finalize_key_run_def)
qed

text \<open>
  C7: a deleted access key goes, and its key in Garage with it.  Let an access key be stored
  that is being deleted and carries no finalizer but the controller's.  A run for it that meets no
  obstacle deletes the recorded key, or finds it missing (without a recorded ID, the key of the
  derived name), and then removes the object from the cluster.  No later run of any
  controller, whatever it meets, brings the object back.
\<close>

theorem deleted_key_goes:
  fixes T :: "'s transport" and K :: "'k kube"
  assumes F: "finalizer_laws L" and S: "cluster_server view K"
    and at: "cl_Keys (view (fst (ext w))) (own_request (k_Meta k)) = Some k"
    and k: "m_DeletionTimestamp (k_Meta k) \<noteq> None" "set (m_Finalizers (k_Meta k)) = {finalizerName}"
    and run: "run_state (AccessKeyReconciler_Reconcile L (shared_kube K)
      (garage_key_reconciler T c) (own_request (k_Meta k))) w = (out, w1)"
    and ok: "list_all releasing (new_events w w1)"
    and later: "run_state (reconcile_all L K T c endpoint rs) w1 = (u, w2)"
  shows "cl_Keys (view (fst (ext w1))) (own_request (k_Meta k)) = None \<and>
    cl_Keys (view (fst (ext w2))) (own_request (k_Meta k)) = None \<and>
    (\<exists>pre. key_released k pre \<and> new_events w w1 = GetAccessKey (own_request (k_Meta k)) (Inr k) #
       pre @ [UpdateAccessKey (key_unfinalized L k) None])"
proof -
  let ?n = "own_request (k_Meta k)"
  note path = tracks_run [OF key_cluster [OF F S] run]
  from produces_run [OF AccessKey_Reconcile_trace run] ok obtain kr es
    where ev: "new_events w w1 = GetAccessKey ?n (Inr kr) # es"
      and shape: "key_run L (shared_kube K :: ('k \<times> 's gworld) kube) ?n kr out es" by auto
  from path ev at have kr: "kr = k" and path': "path cluster_step es (view (fst (ext w))) (view (fst (ext w1)))"
    by auto
  from ok ev have ok': "list_all releasing es" by simp
  from released_key_run [OF F shape [unfolded kr] k ok'] obtain pre
    where es: "es = pre @ [UpdateAccessKey (key_unfinalized L k) None]" and pre: "key_released k pre" .
  have idle: "list_all key_call pre" using key_released_calls [OF pre] by (simp add: key_calls_def)
  have still: "key_call e \<Longrightarrow> cluster_step e t t' \<Longrightarrow> t' = t" for e t t' by (cases e) auto
  from path' es obtain c1 where "path cluster_step pre (view (fst (ext w))) c1"
    and last: "key_stored (key_unfinalized L k) c1 (view (fst (ext w1)))"
    by (auto simp: path_append carried_out_or_not_def)
  with steps_idle [OF idle this(1) still] at k last_finalizer(1,2) [OF F k(2)]
  have "cl_Keys (view (fst (ext w1))) ?n = None"
    by (auto simp: key_stored_def key_unfinalized_def last_release_def)
  with gone_path(2) [OF tracks_run [OF reconcile_all_cluster [OF F S] later] this] ev kr es pre
  show ?thesis by auto
qed

section \<open>The example\<close>

definition gone_a :: AccessPolicy where
  "gone_a = ex_a\<lparr>a_Meta := (a_Meta ex_a)\<lparr>m_DeletionTimestamp := Some 5, m_Finalizers := [finalizerName]\<rparr>,
     a_Status := (a_Status ex_a)\<lparr>pst_AccessKeyID := ''GK2'', pst_BucketID := ''id1''\<rparr>\<rparr>"

definition gone_k :: AccessKey where
  "gone_k = ex_k\<lparr>k_Meta := (k_Meta ex_k)\<lparr>m_DeletionTimestamp := Some 5, m_Finalizers := [finalizerName]\<rparr>\<rparr>"

definition ex_deleted :: "(cluster \<times> unit gworld) cworld" where
  "ex_deleted = \<lparr>ext = (\<lparr>cl_Buckets = Map.empty, cl_Keys = [own_request (k_Meta gone_k) \<mapsto> gone_k],
     cl_Policies = [own_request (a_Meta gone_a) \<mapsto> gone_a]\<rparr>, empty_gworld), log = []\<rparr>"

lemma gone_stored:
  "cl_Policies (fst (ext ex_deleted)) (own_request (a_Meta gone_a)) = Some gone_a"
  "cl_Keys (fst (ext ex_deleted)) (own_request (k_Meta gone_k)) = Some gone_k"
  by (simp_all add: ex_deleted_def)

lemma gone_sel:
  "m_DeletionTimestamp (a_Meta gone_a) = Some 5" "m_Finalizers (a_Meta gone_a) = [finalizerName]"
  "pst_AccessKeyID (a_Status gone_a) = ''GK2''" "pst_BucketID (a_Status gone_a) = ''id1''"
  "m_DeletionTimestamp (k_Meta gone_k) = Some 5" "m_Finalizers (k_Meta gone_k) = [finalizerName]"
  "kst_AccessKeyID (k_Status gone_k) = []"
  by (simp_all add: gone_a_def gone_k_def ex_k_def ex_key_def)

lemma garage_answers:
  "fst (on_garage (SetPermissions have_all admin_client i j p) s) = None"
  "fst (on_garage (AccessKeyClient_Delete have_all admin_client i) s) = None"
  "fst (on_garage (AccessKeyClient_Lookup have_all admin_client i) s) =
     Inr \<lparr>sk_ID = ''GK2'', sk_Secret = ''s3cr3t'', sk_Name = []\<rparr>"
  "fst (snd (on_garage m s')) = fst s'"
  using have_all_key by (simp_all add: on_garage_def split_beta AccessKeyClient_Lookup_def run_eval
      key_to_s3_def AccessKeyClient_Delete_def doRequest_def send_def have_all_def Let_def admin_client_def
      NewClient_def WithMetrics_def)

lemma mem_kube_answers:
  "kGetAccessPolicy mem_kube n c = (lookup (cl_Policies c) n, c)"
  "kGetAccessKey mem_kube n c = (lookup (cl_Keys c) n, c)"
  "cl_Policies c (own_request (a_Meta a)) = Some x \<Longrightarrow> fst (kUpdateAccessPolicy mem_kube a c) = None"
  "cl_Keys c (own_request (k_Meta k)) = Some y \<Longrightarrow> fst (kUpdateAccessKey mem_kube k c) = None"
  by (simp_all add: mem_kube_def store_object_def)

definition gone_policy_run :: "outcome \<times> (cluster \<times> unit gworld) cworld" where
  "gone_policy_run = run_state (AccessPolicyReconciler_Reconcile plain_lib (shared_kube mem_kube)
     (garage_policy_reconciler have_all admin_client) (own_request (a_Meta gone_a))) ex_deleted"

lemma gone_policy_events:
  "new_events ex_deleted (snd gone_policy_run) = GetAccessPolicy (own_request (a_Meta gone_a)) (Inr gone_a) #
     [revocation gone_a None, UpdateAccessPolicy (policy_unfinalized plain_lib (fst (ensureLabels gone_a))) None]"
  by (simp add: gone_policy_run_def new_events_def AccessPolicyReconciler_Reconcile_def run_eval Let_def finalizePolicy_def
      setPermissions_def releasePolicy_def on_cluster_def ex_deleted_def lookup_def split_beta revocation_def
      policy_unfinalized_def gone_sel garage_answers mem_kube_answers own_labelled)

lemma gone_key_events:
  "list_all releasing (new_events ex_deleted (snd (run_state (AccessKeyReconciler_Reconcile plain_lib
     (shared_kube mem_kube) (garage_key_reconciler have_all admin_client) (own_request (k_Meta gone_k))) ex_deleted)))"
  by (simp add: new_events_def AccessKeyReconciler_Reconcile_def run_eval Let_def finalizeKey_def
      resolveExtKeyID_def releaseKey_def on_cluster_def ex_deleted_def lookup_def split_beta shared_sel
      garage_key_sel gone_sel garage_answers mem_kube_answers deleted_def own_request_def)

theorem deleted_policy_goes_witness:
  "cl_Policies (fst (ext (snd gone_policy_run))) (own_request (a_Meta gone_a)) = None \<and>
     garage_table (server_with (\<lambda>_ _. rw_perms)) (snd gone_policy_run) ''GK2'' ''id1'' = no_permissions"
proof -
  have "list_all releasing (new_events ex_deleted (snd gone_policy_run))"
    by (simp add: gone_policy_events revocation_def revoked_def)
  from deleted_policy_goes [where view = "\<lambda>c. c" and srv = "server_with (\<lambda>_ _. rw_perms)" and rs = "[]",
      OF plain_lib_error_laws plain_lib_finalizer_laws mem_kube_server gone_stored(1) _ _
      gone_policy_run_def [symmetric, THEN trans, OF surjective_pairing] this surjective_pairing]
  show ?thesis by (simp add: gone_sel bound_def gone_policy_events revocation_def)
qed

theorem deleted_key_goes_witness:
  "let w = snd (run_state (AccessKeyReconciler_Reconcile plain_lib (shared_kube mem_kube)
       (garage_key_reconciler have_all admin_client) (own_request (k_Meta gone_k))) ex_deleted)
   in cl_Keys (fst (ext w)) (own_request (k_Meta gone_k)) = None"
  using deleted_key_goes [where view = "\<lambda>c. c" and rs = "[]",
      OF plain_lib_finalizer_laws mem_kube_server gone_stored(2) _ _ surjective_pairing
      gone_key_events surjective_pairing]
  by (simp add: gone_sel)

end
