(* ===== verification/Rivals.thy ===== *)
theory Rivals
  imports Deletion
begin

text \<open>
  Rivals: two policies on the same key and bucket.  Garage keeps one entry of permissions for
  the pair, so what one policy sets the other takes away, and neither is told.
\<close>

section \<open>The policy in force\<close>

text \<open>A run that assigned, and whose status was written, met no obstacle.\<close>

lemma assigned_unobstructed:
  assumes run: "policy_run L K a out es" and asg: "assigned L a b k es"
    and written: "\<forall>x e. PatchAccessPolicyStatus x (Some e) \<notin> set es"
  shows "settled_meta L a \<and> unobstructed L b0 k0 es"
proof -
  from assigned_run [OF run asg] obtain post where set: "settled_meta L a"
    and es: "es = dependency_reads a b k @ grant a b k None # post"
    and post: "\<forall>e \<in> set post. \<exists>x p. e = PatchAccessPolicyStatus x p" by metis
  have "favourable L b0 k0 e" if "e \<in> set post" for e
  proof -
    from post that obtain x p where e: "e = PatchAccessPolicyStatus x p" by blast
    with written that es show ?thesis by (cases p) auto
  qed
  then have "unobstructed L b0 k0 post" by (simp add: list_all_iff)
  with set es show ?thesis by (simp add: dependency_reads_def grant_def)
qed

text \<open>The policy it leaves in the cluster is reported ready, and is in force.\<close>

lemma assigned_stored:
  fixes T :: "'s transport" and K :: "'k kube"
  assumes L: "cond_laws L" and E: "error_laws L" and F: "finalizer_laws L"
    and K: "status_eq_laws K" and S: "cluster_server view K"
    and run: "run_state (AccessPolicyReconciler_Reconcile L (shared_kube K)
      (garage_policy_reconciler T c) (own_request (a_Meta a))) w = (out, w')"
    and ev: "new_events w w' = GetAccessPolicy (own_request (a_Meta a)) (Inr a) # es"
    and asg: "assigned L a b k es"
    and written: "\<forall>x e. PatchAccessPolicyStatus x (Some e) \<notin> set es"
  obtains a' where "view (fst (ext w')) = (view (fst (ext w)))\<lparr>cl_Policies :=
      (cl_Policies (view (fst (ext w))))(own_request (a_Meta a) \<mapsto> a')\<rparr>"
    and "a_Spec a' = a_Spec a" and "in_force L b k a' (garage_table srv w')"
proof -
  let ?K = "shared_kube K :: ('k \<times> 's gworld) kube" and ?c = "view (fst (ext w))"
  have K': "status_eq_laws ?K" using K by (simp add: status_eq_laws_def shared_kube_def)
  from tracks_run [OF policy_cluster [OF S] run] ev
  have at: "cl_Policies ?c (own_request (a_Meta a)) = Some a"
    and path: "path cluster_step es ?c (view (fst (ext w')))" by auto
  note shape = Policy_run [OF E run ev]
  from assigned_unobstructed [OF shape asg written] have set: "settled_meta L a"
    and fav: "unobstructed L undefined undefined es" by auto
  from set have undeleted: "m_DeletionTimestamp (a_Meta a) = None" by (simp add: settled_meta_def)
  obtain a' where c': "view (fst (ext w')) = ?c\<lparr>cl_Policies := (cl_Policies ?c)(own_request (a_Meta a) \<mapsto> a')\<rparr>"
    and a': "same_identity (a_Meta a) (a_Meta a')" "a_Spec a' = a_Spec a"
    and st: "a_Status a' = policy_status (a_Status a) es"
    using policy_store_effect [OF L F K' shape fav undeleted at path] set by metis
  from shape set have "live_policy_run L ?K (fst (ensureLabels a)) out es"
    by (simp add: policy_run_def settled_meta_def)
  with asg have "cl_Buckets ?c (policy_bucket a) = Some b" "cond_stat L (b_Conditions b) Ready = Some ConditionTrue"
    "cl_Keys ?c (policy_key a) = Some k" "cond_stat L (k_Conditions k) Ready = Some ConditionTrue"
    by (auto simp: assigned_def dependencies_ready_def ready_cond_stat dest: policy_reads [OF _ path])
  from policy_granted [OF L E K run ev fav set path this st a'(2,1)] that [OF c' a'(2)] show thesis by blast
qed

section \<open>The policy that goes\<close>

text \<open>
  C14: permissions belong to a key and a bucket, not to a policy.  Let two different policies be
  stored: the first is live, the second is being deleted, carries no finalizer but the
  controller's, and recorded a key and a bucket.  A run for the first assigns its permissions to
  this very pair and writes its status; then a run for the second meets no obstacle and revokes.
  After both, the second policy is gone and the first one is stored as the first run left it:
  reported ready, with the pair recorded.  But the entry of the pair in Garage, which was what
  the first policy's spec says, is empty.
\<close>

theorem rival_policy_disarmed:
  assumes L: "cond_laws L" and E: "error_laws L" and F: "finalizer_laws L"
    and K: "status_eq_laws K" and S: "cluster_server view K"
    and rivals: "own_request (a_Meta a1) \<noteq> own_request (a_Meta a2)"
      "cl_Policies (view (fst (ext w))) (own_request (a_Meta a2)) = Some a2"
    and deleted: "m_DeletionTimestamp (a_Meta a2) \<noteq> None" "set (m_Finalizers (a_Meta a2)) = {finalizerName}"
    and pair: "pst_AccessKeyID (a_Status a2) = kst_AccessKeyID (k_Status k)"
      "pst_BucketID (a_Status a2) = bst_BucketID (b_Status b)"
    and run1: "run_state (AccessPolicyReconciler_Reconcile L (shared_kube K)
      (garage_policy_reconciler T c) (own_request (a_Meta a1))) w = (out1, w1)"
    and ev1: "new_events w w1 = GetAccessPolicy (own_request (a_Meta a1)) (Inr a1) # es"
    and asg: "assigned L a1 b k es" "\<forall>x e. PatchAccessPolicyStatus x (Some e) \<notin> set es"
    and run2: "run_state (AccessPolicyReconciler_Reconcile L (shared_kube K)
      (garage_policy_reconciler T c) (own_request (a_Meta a2))) w1 = (out2, w2)"
    and ev2: "list_all releasing (new_events w1 w2)" "revocation a2 None \<in> set (new_events w1 w2)"
  shows "cl_Policies (view (fst (ext w2))) (own_request (a_Meta a2)) = None \<and>
    (\<exists>a. cl_Policies (view (fst (ext w1))) (own_request (a_Meta a1)) = Some a \<and>
      cl_Policies (view (fst (ext w2))) (own_request (a_Meta a1)) = Some a \<and>
      a_Spec a = a_Spec a1 \<and> cond_stat L (a_Conditions a) Ready = Some ConditionTrue \<and>
      pst_AccessKeyID (a_Status a) = kst_AccessKeyID (k_Status k) \<and>
      pst_BucketID (a_Status a) = bst_BucketID (b_Status b)) \<and>
    garage_table srv w1 (kst_AccessKeyID (k_Status k)) (bst_BucketID (b_Status b)) =
      spec_permissions (a_Spec a1) \<and>
    garage_table srv w2 (kst_AccessKeyID (k_Status k)) (bst_BucketID (b_Status b)) = no_permissions"
proof -
  obtain a where c1: "view (fst (ext w1)) = (view (fst (ext w)))\<lparr>cl_Policies :=
      (cl_Policies (view (fst (ext w))))(own_request (a_Meta a1) \<mapsto> a)\<rparr>"
    and a: "a_Spec a = a_Spec a1" "in_force L b k a (garage_table srv w1)"
    by (rule assigned_stored [OF L E F K S run1 ev1 asg])
  with rivals have "cl_Policies (view (fst (ext w1))) (own_request (a_Meta a2)) = Some a2" by simp
  from policy_deletion [OF E F S this deleted run2 ev2(1)] obtain pre
    where ev: "new_events w1 w2 = GetAccessPolicy (own_request (a_Meta a2)) (Inr a2) #
        pre @ UpdateAccessPolicy (policy_unfinalized L (fst (ensureLabels a2))) None # []"
      and c2: "view (fst (ext w2)) = (view (fst (ext w1)))\<lparr>cl_Policies :=
        (cl_Policies (view (fst (ext w1))))(own_request (a_Meta a2) := None)\<rparr>" by blast
  have free: "\<not> ContainsFinalizer L (a_Meta (policy_unfinalized L (fst (ensureLabels a2)))) finalizerName"
    unfolding policy_unfinalized_def by (simp add: last_finalizer(4) [OF F] deleted(2))
  from released_policy [OF E F run2 ev free] ev2(2) ev have "bound a2" "pre = [revocation a2 None]"
    by (auto simp: revocation_def split: if_splits)
  with release_effect(2) [OF E F run2 ev free, of srv] pair
  have "garage_table srv w2 (kst_AccessKeyID (k_Status k)) (bst_BucketID (b_Status b)) = no_permissions"
    by (auto simp: revocation_def)
  with a c1 c2 rivals(1) show ?thesis by (simp add: in_force_def)
qed

section \<open>The example\<close>

text \<open>The policy of the earlier example, and one on the same pair that is being deleted.\<close>

definition ex_rival :: AccessPolicy where
  "ex_rival = ex_del_pol\<lparr>a_Meta := (a_Meta ex_del_pol)\<lparr>m_Name := ''rival''\<rparr>\<rparr>"

definition ex_rivals :: "(cluster \<times> unit gworld) cworld" where
  "ex_rivals = \<lparr>ext = (\<lparr>cl_Buckets = [policy_bucket ex_pol \<mapsto> ex_rbucket],
     cl_Keys = [policy_key ex_pol \<mapsto> ex_ready_key],
     cl_Policies = [own_request (a_Meta ex_pol) \<mapsto> ex_pol, own_request (a_Meta ex_rival) \<mapsto> ex_rival]\<rparr>,
     empty_gworld), log = []\<rparr>"

lemma ex_rival_sel:
  "own_request (a_Meta ex_pol) \<noteq> own_request (a_Meta ex_rival)"
  "m_DeletionTimestamp (a_Meta ex_rival) = Some 5" "m_Finalizers (a_Meta ex_rival) = [finalizerName]"
  "pst_AccessKeyID (a_Status ex_rival) = ''GK2''" "pst_BucketID (a_Status ex_rival) = ''id1''"
  "m_Labels (a_Meta ex_rival) = Some ex_labels" "a_Spec ex_rival = a_Spec ex_policy"
  by (simp_all add: ex_rival_def own_request_def ex_pmeta_def ex_meta_def new_meta_def)

definition rival_run :: "(cluster \<times> unit gworld) cworld \<Rightarrow> AccessPolicy \<Rightarrow> outcome \<times> (cluster \<times> unit gworld) cworld" where
  "rival_run w a = run_state (AccessPolicyReconciler_Reconcile plain_lib (shared_kube mem_kube)
     (garage_policy_reconciler have_all admin_client) (own_request (a_Meta a))) w"

lemma ex_assigned_own: "own_request (a_Meta ex_assigned) = own_request (a_Meta ex_pol)"
  unfolding ex_assigned_def
  by (subst policy_reported_simps(4) [OF plain_lib_cond_laws ex_assigned_parts [OF plain_lib_cond_laws]])
    (simp add: policy_bound_def)

lemma rival_reads:
  assumes "fst s = fst (ext ex_rivals)"
  shows "on_cluster (kGetBucket mem_kube (policy_bucket ex_pol)) s = (Inr ex_rbucket, s)"
    and "on_cluster (kGetAccessKey mem_kube (policy_key ex_pol)) s = (Inr ex_ready_key, s)"
    and "on_cluster (kGetAccessPolicy mem_kube (own_request (a_Meta ex_pol))) s = (Inr ex_pol, s)"
    and "fst (on_cluster (kPatchAccessPolicyStatus mem_kube ex_assigned) s) = None"
  using assms ex_rival_sel(1)
  by (cases s, simp add: on_cluster_def mem_kube_def lookup_def ex_rivals_def store_status_def ex_assigned_own)+

lemma rival_assigned_events:
  "new_events ex_rivals (snd (rival_run ex_rivals ex_pol)) = GetAccessPolicy (own_request (a_Meta ex_pol)) (Inr ex_pol) #
    dependency_reads ex_pol ex_rbucket ex_ready_key @
      grant ex_pol ex_rbucket ex_ready_key None # [PatchAccessPolicyStatus ex_assigned None]"
proof -
  let ?m = "reconcilePolicy plain_lib (shared_kube mem_kube) (garage_policy_reconciler have_all admin_client)
    (initializePolicyConditions plain_lib ex_pol)"
  have work: "fst (run_state ?m w) = (markPolicyAssignmentReady plain_lib
        (policy_bound plain_lib ex_rbucket ex_ready_key (initializePolicyConditions plain_lib ex_pol)), None)"
      "log (snd (run_state ?m w)) =
        log w @ dependency_reads ex_pol ex_rbucket ex_ready_key @ [grant ex_pol ex_rbucket ex_ready_key None]"
      "fst (ext (snd (run_state ?m w))) = fst (ext w)"
    if "fst (ext w) = fst (ext ex_rivals)" for w
    using rival_reads [of "ext w", OF that]
    by (simp_all add: reconcilePolicy_def resolveBucket_def resolveAccessKey_def checkBucket_def
        checkAccessKey_def run_eval Let_def assignPermissions_def setPermissions_def dependency_reads_def
        grant_def policy_bound_def set_bucket_id_def set_key_id_def policy_bucket_def policy_key_def garage_answers)
  let ?w = "ex_rivals\<lparr>log := log ex_rivals @ [GetAccessPolicy (own_request (a_Meta ex_pol)) (Inr ex_pol)]\<rparr>"
  have here: "fst (ext ?w) = fst (ext ex_rivals)" by simp
  from work [OF here] rival_reads(3) [of "ext ex_rivals", OF refl]
    rival_reads(4) [of "ext (snd (run_state ?m ?w))"]
  show ?thesis
    by (simp add: rival_run_def new_events_def AccessPolicyReconciler_Reconcile_def run_eval Let_def ex_labelled
        reconcileLivePolicy_def case_prod_beta ex_assigned_update finishPolicy_def policyResult_def
        ex_assigned_changes mem_kube_def)
qed

lemma rival_released_events:
  assumes "cl_Policies (fst (ext w)) (own_request (a_Meta ex_rival)) = Some ex_rival"
  shows "new_events w (snd (rival_run w ex_rival)) = GetAccessPolicy (own_request (a_Meta ex_rival)) (Inr ex_rival) #
    [revocation ex_rival None, UpdateAccessPolicy (policy_unfinalized plain_lib (fst (ensureLabels ex_rival))) None]"
  using assms
  by (simp add: rival_run_def new_events_def AccessPolicyReconciler_Reconcile_def run_eval Let_def finalizePolicy_def
      setPermissions_def releasePolicy_def on_cluster_def lookup_def split_beta revocation_def
      policy_unfinalized_def ex_rival_sel garage_answers mem_kube_answers own_labelled)

theorem rival_policy_disarmed_witness:
  "let w1 = snd (rival_run ex_rivals ex_pol); w2 = snd (rival_run w1 ex_rival)
   in (\<exists>a. cl_Policies (fst (ext w2)) (own_request (a_Meta ex_pol)) = Some a \<and>
        cond_stat plain_lib (a_Conditions a) Ready = Some ConditionTrue) \<and>
     garage_table (server_with no_access) w1 ''GK2'' ''id1'' = spec_permissions (a_Spec ex_policy) \<and>
     garage_table (server_with no_access) w2 ''GK2'' ''id1'' = no_permissions"
proof -
  note first = rival_assigned_events [unfolded rival_run_def]
  have stored: "cl_Policies (fst (ext ex_rivals)) (own_request (a_Meta ex_rival)) = Some ex_rival"
    by (simp add: ex_rivals_def)
  have asg: "assigned plain_lib ex_pol ex_rbucket ex_ready_key (dependency_reads ex_pol ex_rbucket ex_ready_key @
      grant ex_pol ex_rbucket ex_ready_key None # [PatchAccessPolicyStatus ex_assigned None])"
    by (rule ex_assigned_facts(2))
  have left: "cl_Policies (fst (ext (snd (rival_run ex_rivals ex_pol)))) (own_request (a_Meta ex_rival)) = Some ex_rival"
    by (rule assigned_stored [where view = "\<lambda>c. c", OF plain_lib_cond_laws plain_lib_error_laws
      plain_lib_finalizer_laws mem_kube_status_eq mem_kube_server surjective_pairing first asg])
      (use stored ex_rival_sel(1) in \<open>auto simp: rival_run_def dependency_reads_def grant_def\<close>)
  from rival_policy_disarmed [where view = "\<lambda>c. c" and srv = "server_with no_access",
      OF plain_lib_cond_laws plain_lib_error_laws plain_lib_finalizer_laws mem_kube_status_eq mem_kube_server
      ex_rival_sel(1) stored _ _ _ _ surjective_pairing first asg _ surjective_pairing]
    rival_released_events [OF left]
  show ?thesis
    by (auto simp: ex_rival_sel rival_run_def dependency_reads_def grant_def revocation_def revoked_def Let_def)
qed

end
