(* ===== verification/ReadyProps.thy ===== *)
theory ReadyProps
  imports ReadySummary BucketExample
begin

text \<open>
  The three switches that compute the top-level \<open>Ready\<close> condition, against one reference.
\<close>

text \<open>
  C30: the three hand-written switches over the partial conditions are one function: on objects
  whose partial conditions are present, each sets \<open>Ready\<close> to the \<open>summary\<close> of the parts (true
  when all are true, otherwise the first false part in the order of priority with its reason,
  otherwise waiting) and records the generation exactly when the summary is final (true, or for
  an access key a permanent failure); a second call changes nothing that is read.
\<close>

theorem ready_is_summary:
  assumes L: "cond_laws L"
    and b: "\<forall>t \<in> fst ` set bucket_parts. FindStatusCondition L (b_Conditions b) t \<noteq> None"
    and k: "\<forall>t \<in> fst ` set access_key_parts. FindStatusCondition L (k_Conditions k) t \<noteq> None"
    and a: "\<forall>t \<in> fst ` set policy_parts. FindStatusCondition L (a_Conditions a) t \<noteq> None"
  shows "updateBucketReadyCondition L b = set_ready_bucket L
      (summary (part_views L (b_Conditions b) bucket_parts) bucket_waiting) b \<and>
    updateAccessKeyCondition L k = Some (set_ready_access_key L
      (summary (part_views L (k_Conditions k) access_key_parts) access_key_waiting) k) \<and>
    updateAccessPolicyCondition L a = Some (set_ready_policy L
      (summary (part_views L (a_Conditions a) policy_parts) policy_waiting) a) \<and>
    cond_view L (b_Conditions (updateBucketReadyCondition L (updateBucketReadyCondition L b))) =
      cond_view L (b_Conditions (updateBucketReadyCondition L b))"
  using updateBucketReady_summary [OF b] updateAccessKey_summary [OF k]
    updateAccessPolicy_summary [OF a] bucket_cond.idempotent(1) [OF L b refl refl] by simp

text \<open>A bucket that is ready itself, but whose ConfigMap is another one's.\<close>

definition ex_taken :: Bucket where
  "ex_taken = updateBucketCMCondition plain_lib
     (markBucketReady plain_lib (initializeBucketConditions plain_lib ex_new))
     ConditionFalse ReasonConfigMapNameConflict ''taken''"

lemma cm_failed_view:
  assumes L: "cond_laws L"
  shows "cond_view L (b_Conditions (updateBucketCMCondition L (markBucketReady L b) st r m))
      BucketConfigMapReady = Some (st, r, m, b_Generation b)"
    and "\<exists>r' m'. cond_view L (b_Conditions (updateBucketCMCondition L (markBucketReady L b) st r m))
      BucketReady = Some (ConditionTrue, r', m', b_Generation b)"
    and "b_Generation (updateBucketCMCondition L (markBucketReady L b) st r m) = b_Generation b"
  by (simp_all add: updateBucketCMCondition_def markBucketReady_def cond_view_set [OF L])

lemma ex_taken_view:
  "cond_view plain_lib (b_Conditions ex_taken) BucketConfigMapReady =
     Some (ConditionFalse, ReasonConfigMapNameConflict, ''taken'', b_Generation ex_new)"
  "\<exists>r m. cond_view plain_lib (b_Conditions ex_taken) BucketReady =
     Some (ConditionTrue, r, m, b_Generation ex_new)"
  "b_Generation ex_taken = b_Generation ex_new"
proof -
  have gen: "b_Generation (initializeBucketConditions plain_lib ex_new) = b_Generation ex_new"
    by (rule bucket_cond.initialize_gen)
  note views = cm_failed_view [OF plain_lib_cond_laws, of "initializeBucketConditions plain_lib ex_new",
      unfolded gen]
  show "cond_view plain_lib (b_Conditions ex_taken) BucketConfigMapReady =
      Some (ConditionFalse, ReasonConfigMapNameConflict, ''taken'', b_Generation ex_new)"
    and "\<exists>r m. cond_view plain_lib (b_Conditions ex_taken) BucketReady =
      Some (ConditionTrue, r, m, b_Generation ex_new)"
    and "b_Generation ex_taken = b_Generation ex_new"
    unfolding ex_taken_def by (rule views)+
qed

theorem ready_is_summary_witness:
  "cond_view plain_lib (b_Conditions (updateBucketReadyCondition plain_lib ex_taken)) Ready =
     Some (ConditionFalse, ReasonConfigMapNameConflict, ''taken'', b_Generation ex_new)"
proof -
  have b: "\<forall>t \<in> fst ` set bucket_parts. FindStatusCondition plain_lib (b_Conditions ex_taken) t \<noteq> None"
    using ex_taken_view(1,2) by (auto simp: bucket_parts_def find_None_view simp del: plain_lib_sel)
  have k: "\<forall>t \<in> fst ` set access_key_parts.
      FindStatusCondition plain_lib (k_Conditions (InitializeConditions plain_lib ex_key)) t \<noteq> None"
    using access_key_cond.initialized_parts [OF plain_lib_cond_laws] by blast
  have a: "\<forall>t \<in> fst ` set policy_parts.
      FindStatusCondition plain_lib (a_Conditions (initializePolicyConditions plain_lib ex_policy)) t \<noteq> None"
    using policy_cond.initialized_parts [OF plain_lib_cond_laws] by blast
  obtain r m where ready: "cond_view plain_lib (b_Conditions ex_taken) BucketReady =
      Some (ConditionTrue, r, m, b_Generation ex_new)" using ex_taken_view(2) by blast
  have "summary (part_views plain_lib (b_Conditions ex_taken) bucket_parts) bucket_waiting =
      (ConditionFalse, ReasonConfigMapNameConflict, ''taken'')"
    by (simp add: summary_def bucket_parts_def part_views_def part_view_def ready ex_taken_view(1))
  with ready_is_summary [OF plain_lib_cond_laws b k a] ex_taken_view(3) show ?thesis
    by (simp add: set_ready_bucket_simps [OF plain_lib_cond_laws])
qed

end
