(* ===== verification/Health.thy ===== *)
theory Health
  imports GarageClient "HOL-Library.Monad_Syntax"
begin

text \<open>
  The health checks: the heartbeat (\<^verbatim>\<open>internal/health/heartbeat.go\<close>), the one-time check of
  the admin token (\<^verbatim>\<open>internal/health/preflight.go\<close>) and the gauge they feed
  (\<open>SetAPIUp\<close> of \<^verbatim>\<open>internal/garage/metrics.go\<close>).

  The log of a computation holds the probes with their time limit and answer, the values the
  gauge was set to, and the lines written.  \<open>run\<close> may run forever: it is a partial function
  whose value \<open>None\<close> means that it does not return.  Which case the \<open>select\<close> after round \<open>n\<close>
  takes is the parameter \<open>sel n\<close>: a tick, the cancelled context, or \<open>None\<close> when neither ever
  comes and the call blocks.
\<close>

datatype log_value = VStr string | VTime string | VStrs "string list" | VErr error

text \<open>The calls \<open>main\<close> makes to set up and run the controllers (theory \<open>Startup\<close>).\<close>

datatype manager_call =
    GetConfigOrDie
  | NewManager
  | MustRegister
  | SetupWithManager string
  | AddHealthzCheck
  | AddReadyzCheck
  | StartManager

datatype process_event =
    Probed int64 "error option"
  | GaugeSet int
  | LogInfo string "(string \<times> log_value) list"
  | LogError error string "(string \<times> log_value) list"
  | ManagerCall manager_call "error option"
  | AskTokenInfo int64 "error + AdminTokenInfo"
  | HeartbeatStarted int64

type_synonym 's hworld = "('s, process_event) world"
type_synonym 's checker = "int64 \<Rightarrow> 's \<Rightarrow> error option \<times> 's"
type_synonym 's recorder = "bool \<Rightarrow> ('s hworld, unit) state"

section \<open>metrics.go\<close>

definition SetAPIUp :: "'s recorder" where
  "SetAPIUp isUp = (if isUp then emit (GaugeSet 1) else emit (GaugeSet 0))"

section \<open>heartbeat.go\<close>

definition defaultInterval :: int64 where
  "defaultInterval = 30 * 1000000000"

text \<open>The context of a probe ends after the time limit; the checker is called with it.\<close>

definition probe :: "'s checker \<Rightarrow> int64 \<Rightarrow> ('s hworld, error option) state" where
  "probe health timeout = call (health timeout) (Probed timeout)"

text \<open>One round of the loop: its value is the new \<open>lastUp\<close>.\<close>

definition heartbeat_round ::
  "'s checker \<Rightarrow> 's recorder \<Rightarrow> int64 \<Rightarrow> bool \<Rightarrow> ('s hworld, bool) state" where
  "heartbeat_round health record timeout lastUp = do {
     err \<leftarrow> probe health timeout;
     let isUp = (err = None);
     _ \<leftarrow> record isUp;
     _ \<leftarrow> (if isUp \<noteq> lastUp then
            (case err of
               None \<Rightarrow> emit (LogInfo ''garage admin API reachable'' [])
             | Some e \<Rightarrow> emit (LogError e ''garage admin API unreachable'' []))
          else State_Monad.return ());
     State_Monad.return isUp
   }"

datatype select_case = CtxDone | Tick

partial_function (option) run_heartbeat ::
  "'s checker \<Rightarrow> 's recorder \<Rightarrow> int64 \<Rightarrow> (nat \<Rightarrow> select_case option) \<Rightarrow> nat \<Rightarrow> bool \<Rightarrow>
     's hworld \<Rightarrow> 's hworld option" where
  "run_heartbeat health record timeout sel n lastUp w =
    (case run_state (heartbeat_round health record timeout lastUp) w of (isUp, w') \<Rightarrow>
       (case sel n of
          None \<Rightarrow> None
        | Some CtxDone \<Rightarrow> Some w'
        | Some Tick \<Rightarrow> run_heartbeat health record timeout sel (Suc n) isUp w'))"

definition effective_interval :: "int64 \<Rightarrow> int64" where
  "effective_interval interval = (if sint interval \<le> 0 then defaultInterval else interval)"

definition Run_heartbeat ::
  "'s checker \<Rightarrow> 's recorder \<Rightarrow> int64 \<Rightarrow> (nat \<Rightarrow> select_case option) \<Rightarrow> 's hworld \<Rightarrow>
     's hworld option" where
  "Run_heartbeat health record interval sel w =
     run_heartbeat health record (effective_interval interval) sel 0 True w"

section \<open>preflight.go\<close>

definition PreflightCheck ::
  "('s hworld, error + AdminTokenInfo) state \<Rightarrow> ('s hworld, unit) state" where
  "PreflightCheck currentTokenInfo = do {
     r \<leftarrow> currentTokenInfo;
     (case r of
        Inl err \<Rightarrow>
          emit (LogInfo (''garage admin API preflight failed, starting anyway; '' @
            ''check GARAGE_API_ENDPOINT / GARAGE_API_TOKEN'') [(''error'', VErr err)])
      | Inr info \<Rightarrow>
          if ti_Expired info
          then emit (LogInfo ''garage admin API reachable but token EXPIRED''
            [(''token'', VStr (ti_Name info)),
             (''expiration'', case ti_Expiration info of None \<Rightarrow> VStr ''null'' | Some t \<Rightarrow> VTime t)])
          else emit (LogInfo ''garage admin API reachable, token accepted''
            ([(''token'', VStr (ti_Name info))] @
             (case ti_Expiration info of None \<Rightarrow> [] | Some t \<Rightarrow> [(''expiration'', VTime t)]) @
             [(''scopes'', VStrs (ti_Scope info))])))
   }"

section \<open>The heartbeat returns exactly when it is cancelled\<close>

text \<open>The \<open>select\<close> takes ticks up to round \<open>n\<close>, whose \<open>select\<close> sees the cancelled context.\<close>

fun cancelled_from :: "(nat \<Rightarrow> select_case option) \<Rightarrow> nat \<Rightarrow> nat \<Rightarrow> bool" where
  "cancelled_from sel i 0 = (sel i = Some CtxDone)"
| "cancelled_from sel i (Suc n) = (sel i = Some Tick \<and> cancelled_from sel (Suc i) n)"

lemma cancelled_from_iff:
  "cancelled_from sel i n \<longleftrightarrow> sel (i + n) = Some CtxDone \<and> (\<forall>m < n. sel (i + m) = Some Tick)"
proof (induction n arbitrary: i)
  case (Suc n)
  have "(\<forall>m < Suc n. sel (i + m) = Some Tick) \<longleftrightarrow>
      sel i = Some Tick \<and> (\<forall>m < n. sel (Suc i + m) = Some Tick)"
    by (auto simp: less_Suc_eq_0_disj)
  with Suc show ?case by auto
qed simp

definition cancelled_at :: "(nat \<Rightarrow> select_case option) \<Rightarrow> nat \<Rightarrow> bool" where
  "cancelled_at sel n \<longleftrightarrow> cancelled_from sel 0 n"

text \<open>The rounds of the loop, as often as it has them.\<close>

fun rounds ::
  "'s checker \<Rightarrow> 's recorder \<Rightarrow> int64 \<Rightarrow> nat \<Rightarrow> bool \<Rightarrow> ('s hworld, bool) state" where
  "rounds health record timeout 0 lastUp = State_Monad.return lastUp"
| "rounds health record timeout (Suc n) lastUp = do {
     isUp \<leftarrow> heartbeat_round health record timeout lastUp;
     rounds health record timeout n isUp
   }"

lemma run_heartbeat_cancelled:
  "cancelled_from sel i n \<Longrightarrow> run_heartbeat health record timeout sel i lastUp w =
     Some (snd (run_state (rounds health record timeout (Suc n) lastUp) w))"
proof (induction n arbitrary: i lastUp w)
  case 0
  then show ?case
    by (subst run_heartbeat.simps) (simp add: run_eval case_prod_beta)
next
  case (Suc n)
  then show ?case
    by (subst run_heartbeat.simps) (simp add: run_eval case_prod_beta)
qed

text \<open>By induction on the recursion: a call that returns was cancelled.\<close>

lemma run_heartbeat_returns:
  assumes "run_heartbeat health record timeout sel i lastUp w = Some w'"
  shows "\<exists>n. cancelled_from sel i n"
proof (rule run_heartbeat.raw_induct [OF _ assms, of "\<lambda>health record timeout sel i lastUp w w'.
      \<exists>n. cancelled_from sel i n"], goal_cases)
  case (1 rec health recorder timeout sel i lastUp w w')
  let ?r = "run_state (heartbeat_round health recorder timeout lastUp) w"
  show ?case
  proof (cases "sel i")
    case (Some c)
    show ?thesis
    proof (cases c)
      case CtxDone
      with Some show ?thesis by (intro exI [of _ 0]) simp
    next
      case Tick
      with 1(2) Some have "rec health recorder timeout sel (Suc i) (fst ?r) (snd ?r) = Some w'"
        by (simp add: case_prod_beta)
      from 1(1) [OF this] obtain n where "cancelled_from sel (Suc i) n" by blast
      with Some Tick show ?thesis by (intro exI [of _ "Suc n"]) simp
    qed
  qed (use 1(2) in \<open>simp add: case_prod_beta\<close>)
qed

text \<open>
  C32: the heartbeat loop runs until it is cancelled and no longer: \<open>Run\<close> returns exactly when
  the context is cancelled after finitely many ticks, and has then done one round per tick and
  the first one at once; if the context is never cancelled, or the ticks stop for good before
  it is, the call does not return.
\<close>

theorem heartbeat_returns:
  "Run_heartbeat health record interval sel w = Some w' \<longleftrightarrow>
     (\<exists>n. cancelled_at sel n \<and>
        w' = snd (run_state (rounds health record (effective_interval interval) (Suc n) True) w))"
proof
  assume ret: "Run_heartbeat health record interval sel w = Some w'"
  with run_heartbeat_returns obtain n where "cancelled_from sel 0 n"
    unfolding Run_heartbeat_def by blast
  with run_heartbeat_cancelled [OF this, of health "record" "effective_interval interval" True w] ret
  show "\<exists>n. cancelled_at sel n \<and>
      w' = snd (run_state (rounds health record (effective_interval interval) (Suc n) True) w)"
    unfolding Run_heartbeat_def cancelled_at_def by (intro exI [of _ n]) simp
next
  assume "\<exists>n. cancelled_at sel n \<and>
      w' = snd (run_state (rounds health record (effective_interval interval) (Suc n) True) w)"
  then show "Run_heartbeat health record interval sel w = Some w'"
    unfolding Run_heartbeat_def cancelled_at_def by (auto simp: run_heartbeat_cancelled)
qed

section \<open>What it reports\<close>

text \<open>The reference: one probe and one record per round, a line per change.\<close>

fun heartbeat_log :: "int64 \<Rightarrow> bool \<Rightarrow> error option list \<Rightarrow> process_event list" where
  "heartbeat_log timeout lastUp [] = []"
| "heartbeat_log timeout lastUp (r # rs) =
     [Probed timeout r, GaugeSet (if r = None then 1 else 0)] @
     (case r of
        None \<Rightarrow> if lastUp then [] else [LogInfo ''garage admin API reachable'' []]
      | Some e \<Rightarrow> if lastUp then [LogError e ''garage admin API unreachable'' []] else []) @
     heartbeat_log timeout (r = None) rs"

lemma heartbeat_round_produces:
  "produces (heartbeat_round health SetAPIUp timeout lastUp)
     (\<lambda>isUp es. \<exists>r. isUp = (r = None) \<and> es = heartbeat_log timeout lastUp [r])"
  unfolding heartbeat_round_def probe_def SetAPIUp_def Let_def
  by (intro produces_intros) (auto split: option.splits)

lemma rounds_produce:
  "produces (rounds health SetAPIUp timeout n lastUp)
     (\<lambda>isUp es. \<exists>rs. length rs = n \<and> es = heartbeat_log timeout lastUp rs)"
proof (induction n arbitrary: lastUp)
  case 0
  show ?case by (auto intro!: produces_return)
next
  case (Suc n)
  have join: "\<exists>rs. length rs = Suc n \<and> es @ fs = heartbeat_log timeout lastUp rs"
    if "es = heartbeat_log timeout lastUp [r]" "length rs = n"
      "fs = heartbeat_log timeout (r = None) rs" for es fs r rs
    using that by (intro exI [of _ "r # rs"]) simp
  show ?case
  proof (simp only: rounds.simps, rule produces_bind, rule produces_mono [OF heartbeat_round_produces])
    fix isUp es
    assume "\<exists>r. isUp = (r = None) \<and> es = heartbeat_log timeout lastUp [r]"
    then obtain r where r: "isUp = (r = None)" "es = heartbeat_log timeout lastUp [r]" by blast
    show "produces (rounds health SetAPIUp timeout n isUp) (\<lambda>b fs. \<exists>rs. length rs = Suc n \<and>
        es @ fs = heartbeat_log timeout lastUp rs)"
      unfolding r(1) by (rule produces_mono [OF Suc]) (use join [OF r(2)] in blast)
  qed
qed

fun probe_results :: "process_event list \<Rightarrow> error option list" where
  "probe_results [] = []"
| "probe_results (Probed t r # es) = r # probe_results es"
| "probe_results (_ # es) = probe_results es"

fun gauge_values :: "process_event list \<Rightarrow> int list" where
  "gauge_values [] = []"
| "gauge_values (GaugeSet v # es) = v # gauge_values es"
| "gauge_values (_ # es) = gauge_values es"

definition up :: "error option \<Rightarrow> bool" where
  "up r \<longleftrightarrow> r = None"

text \<open>The lines a sequence of results calls for: one per change of reachability, the API
  counting as reachable at the start.\<close>

fun changes :: "bool \<Rightarrow> error option list \<Rightarrow> process_event list" where
  "changes lastUp [] = []"
| "changes lastUp (r # rs) =
     (if up r = lastUp then []
      else [case r of None \<Rightarrow> LogInfo ''garage admin API reachable'' []
            | Some e \<Rightarrow> LogError e ''garage admin API unreachable'' []]) @ changes (up r) rs"

fun log_line :: "process_event \<Rightarrow> bool" where
  "log_line (LogInfo m kv) = True"
| "log_line (LogError e m kv) = True"
| "log_line _ = False"

lemma heartbeat_log_views:
  "probe_results (heartbeat_log t lastUp rs) = rs"
  "gauge_values (heartbeat_log t lastUp rs) = map (\<lambda>r. if up r then 1 else 0) rs"
  "filter log_line (heartbeat_log t lastUp rs) = changes lastUp rs"
  "Probed t' r \<in> set (heartbeat_log t lastUp rs) \<Longrightarrow> t' = t"
  by (induction rs arbitrary: lastUp) (auto simp: up_def split: option.splits if_splits)

text \<open>
  C31: the heartbeat reports what it finds: a call of \<open>Run\<close> with the gauge of the metrics that
  returns has probed the API once per round, one round more than ticks were taken, each probe
  limited to the interval (30 seconds where the given one is not positive); it has set the
  gauge after every probe, to 1 exactly for a success, in order; and it has written a line
  exactly when the reachability changed, an error for a loss and a note for a recovery.
\<close>

theorem heartbeat_follows_probes:
  assumes ret: "Run_heartbeat health SetAPIUp interval sel w = Some w'"
    and es: "es = new_events w w'"
  shows "\<exists>n. cancelled_at sel n \<and> length (probe_results es) = Suc n \<and>
    gauge_values es = map (\<lambda>r. if up r then 1 else 0) (probe_results es) \<and>
    filter log_line es = changes True (probe_results es) \<and>
    (\<forall>t r. Probed t r \<in> set es \<longrightarrow>
       0 < sint interval \<and> t = interval \<or> sint interval \<le> 0 \<and> t = 30 * 1000000000)"
proof -
  from ret [unfolded Run_heartbeat_def] run_heartbeat_returns obtain n where n: "cancelled_from sel 0 n"
    by blast
  let ?m = "rounds health SetAPIUp (effective_interval interval) (Suc n) True"
  from ret run_heartbeat_cancelled [OF n, of health SetAPIUp "effective_interval interval" True w]
  have "w' = snd (run_state ?m w)" by (simp only: Run_heartbeat_def option.inject)
  moreover obtain rs where "length rs = Suc n"
    "log (snd (run_state ?m w)) = log w @ heartbeat_log (effective_interval interval) True rs"
    using produces_log [OF rounds_produce, of health "effective_interval interval" "Suc n" True w]
    by blast
  ultimately have "length rs = Suc n" "es = heartbeat_log (effective_interval interval) True rs"
    by (simp_all add: es new_events_def)
  with n show ?thesis
    by (intro exI [of _ n]) (auto simp: cancelled_at_def heartbeat_log_views effective_interval_def
        defaultInterval_def)
qed

text \<open>Three rounds: reachable, lost, recovered.\<close>

definition flaky :: "nat checker" where
  "flaky t s = (if s = 1 then Some (ErrorString ''boom'') else None, Suc s)"

definition two_ticks :: "nat \<Rightarrow> select_case option" where
  "two_ticks n = Some (if n < 2 then Tick else CtxDone)"

definition start_world :: "nat hworld" where
  "start_world = \<lparr>ext = 0, log = []\<rparr>"

lemma flaky_run:
  "Run_heartbeat flaky SetAPIUp 0 two_ticks start_world = Some \<lparr>ext = 3, log =
     [Probed defaultInterval None, GaugeSet 1,
      Probed defaultInterval (Some (ErrorString ''boom'')), GaugeSet 0,
      LogError (ErrorString ''boom'') ''garage admin API unreachable'' [],
      Probed defaultInterval None, GaugeSet 1, LogInfo ''garage admin API reachable'' []]\<rparr>"
proof -
  have "cancelled_from two_ticks 0 2" by (simp add: two_ticks_def numeral_2_eq_2)
  from run_heartbeat_cancelled [OF this, of flaky SetAPIUp defaultInterval True start_world]
  show ?thesis
    by (simp add: Run_heartbeat_def effective_interval_def numeral_2_eq_2 heartbeat_round_def
        probe_def SetAPIUp_def flaky_def start_world_def run_eval Let_def)
qed

theorem heartbeat_follows_probes_witness:
  "cancelled_at two_ticks 2"
  using heartbeat_follows_probes [OF flaky_run refl]
  by (auto simp: new_events_def start_world_def numeral_2_eq_2)

end
