(* ===== verification/Startup.thy ===== *)
theory Startup
  imports Health
begin

text \<open>
  How the process starts: \<open>loadConfig\<close> (\<^verbatim>\<open>cmd/config.go\<close>) and \<open>main\<close> (\<^verbatim>\<open>cmd/main.go\<close>), from the
  parsed flags and the environment to the running manager.

  The manager of controller-runtime, the registry of the metrics and the loading of the
  client configuration are the parameter \<open>'s manager\<close>, one function per call; the answer to
  the token check is a parameter as well.  The log holds the calls in order and the lines
  written.  The heartbeat is a goroutine of its own, so only its start is an event here.
\<close>

section \<open>config.go\<close>

record controllerConfig =
  garageAPIToken :: string
  garageAPIEndpoint :: string
  garageS3Endpoint :: string

type_synonym environment = "string \<Rightarrow> string option"

text \<open>\<open>os.LookupEnv\<close>: the value, or the empty string, and whether the variable is set.\<close>

definition LookupEnv :: "environment \<Rightarrow> string \<Rightarrow> string \<times> bool" where
  "LookupEnv env key = (case env key of None \<Rightarrow> ([], False) | Some v \<Rightarrow> (v, True))"

definition loadConfig :: "environment \<Rightarrow> error + controllerConfig" where
  "loadConfig env =
    (let missing = [];
         (apiToken, got) = LookupEnv env ''GARAGE_API_TOKEN'';
         missing = (if \<not> got then missing @ [''GARAGE_API_TOKEN''] else missing);
         (apiEndpoint, got) = LookupEnv env ''GARAGE_API_ENDPOINT'';
         missing = (if \<not> got then missing @ [''GARAGE_API_ENDPOINT''] else missing);
         (s3Endpoint, got) = LookupEnv env ''GARAGE_S3_API_ENDPOINT'';
         missing = (if \<not> got then missing @ [''GARAGE_S3_API_ENDPOINT''] else missing)
     in if 0 < length missing
        then Inl (ErrorString (''missing required env: '' @ intercalate '', '' missing))
        else Inr \<lparr>garageAPIToken = apiToken, garageAPIEndpoint = apiEndpoint,
                   garageS3Endpoint = s3Endpoint\<rparr>)"

definition required_env :: "string list" where
  "required_env = [''GARAGE_API_TOKEN'', ''GARAGE_API_ENDPOINT'', ''GARAGE_S3_API_ENDPOINT'']"

definition missing_env :: "environment \<Rightarrow> string list" where
  "missing_env env = filter (\<lambda>v. env v = None) required_env"

lemma loadConfig_missing:
  "loadConfig env =
    (if missing_env env = []
     then Inr \<lparr>garageAPIToken = the (env ''GARAGE_API_TOKEN''),
       garageAPIEndpoint = the (env ''GARAGE_API_ENDPOINT''),
       garageS3Endpoint = the (env ''GARAGE_S3_API_ENDPOINT'')\<rparr>
     else Inl (ErrorString (''missing required env: '' @ intercalate '', '' (missing_env env))))"
  by (cases "env ''GARAGE_API_TOKEN''"; cases "env ''GARAGE_API_ENDPOINT''";
      cases "env ''GARAGE_S3_API_ENDPOINT''")
    (simp_all add: loadConfig_def LookupEnv_def missing_env_def required_env_def Let_def)

section \<open>Flags and options\<close>

record main_flags =
  metricsAddr :: string
  metricsCertPath :: string
  metricsCertName :: string
  metricsCertKey :: string
  webhookCertPath :: string
  webhookCertName :: string
  webhookCertKey :: string
  enableLeaderElection :: bool
  probeAddr :: string
  secureMetrics :: bool
  enableHTTP2 :: bool

text \<open>The defaults the flags are declared with.\<close>

definition default_flags :: main_flags where
  "default_flags =
     \<lparr>metricsAddr = ''0'', metricsCertPath = [], metricsCertName = ''tls.crt'',
      metricsCertKey = ''tls.key'', webhookCertPath = [], webhookCertName = ''tls.crt'',
      webhookCertKey = ''tls.key'', enableLeaderElection = False, probeAddr = '':8081'',
      secureMetrics = True, enableHTTP2 = False\<rparr>"

record tls_config =
  NextProtos :: "string list"

type_synonym tls_option = "tls_config \<Rightarrow> tls_config"

definition disableHTTP2 :: tls_option where
  "disableHTTP2 c = c\<lparr>NextProtos := [''http/1.1'']\<rparr>"

definition tlsOpts :: "main_flags \<Rightarrow> tls_option list" where
  "tlsOpts f = (if \<not> enableHTTP2 f then [disableHTTP2] else [])"

record server_certs =
  CertDir :: string
  CertName :: string
  KeyName :: string

definition no_certs :: server_certs where
  "no_certs = \<lparr>CertDir = [], CertName = [], KeyName = []\<rparr>"

record webhook_options =
  wo_TLSOpts :: "tls_option list"
  wo_Certs :: server_certs

record metrics_options =
  mo_BindAddress :: string
  mo_SecureServing :: bool
  mo_TLSOpts :: "tls_option list"
  mo_Authenticated :: bool
  mo_Certs :: server_certs

record manager_options =
  op_Metrics :: metrics_options
  op_WebhookServer :: webhook_options
  op_HealthProbeBindAddress :: string
  op_LeaderElection :: bool
  op_LeaderElectionID :: string
  op_CacheDisableFor :: "string list"

definition webhookServerOptions :: "main_flags \<Rightarrow> webhook_options" where
  "webhookServerOptions f =
    (let o' = \<lparr>wo_TLSOpts = tlsOpts f, wo_Certs = no_certs\<rparr>
     in if 0 < length (webhookCertPath f)
        then o'\<lparr>wo_Certs := \<lparr>CertDir = webhookCertPath f, CertName = webhookCertName f,
                              KeyName = webhookCertKey f\<rparr>\<rparr>
        else o')"

text \<open>\<open>mo_Authenticated\<close>: \<open>FilterProvider\<close> is \<open>filters.WithAuthenticationAndAuthorization\<close>.\<close>

definition metricsServerOptions :: "main_flags \<Rightarrow> metrics_options" where
  "metricsServerOptions f =
    (let o' = \<lparr>mo_BindAddress = metricsAddr f, mo_SecureServing = secureMetrics f,
               mo_TLSOpts = tlsOpts f, mo_Authenticated = False, mo_Certs = no_certs\<rparr>;
         o' = (if secureMetrics f then o'\<lparr>mo_Authenticated := True\<rparr> else o')
     in if 0 < length (metricsCertPath f)
        then o'\<lparr>mo_Certs := \<lparr>CertDir = metricsCertPath f, CertName = metricsCertName f,
                              KeyName = metricsCertKey f\<rparr>\<rparr>
        else o')"

definition manager_options_of :: "main_flags \<Rightarrow> manager_options" where
  "manager_options_of f =
     \<lparr>op_Metrics = metricsServerOptions f, op_WebhookServer = webhookServerOptions f,
      op_HealthProbeBindAddress = probeAddr f, op_LeaderElection = enableLeaderElection f,
      op_LeaderElectionID = ''754171dd.getclustered.net'',
      op_CacheDisableFor = [''Secret'', ''ConfigMap'']\<rparr>"

section \<open>main\<close>

record 's manager =
  mgr_GetConfig :: "'s \<Rightarrow> error option \<times> 's"
  mgr_New :: "manager_options \<Rightarrow> 's \<Rightarrow> error option \<times> 's"
  mgr_Register :: "'s \<Rightarrow> error option \<times> 's"
  mgr_Setup :: "string \<Rightarrow> 's \<Rightarrow> error option \<times> 's"
  mgr_AddHealthz :: "'s \<Rightarrow> error option \<times> 's"
  mgr_AddReadyz :: "'s \<Rightarrow> error option \<times> 's"
  mgr_Start :: "'s \<Rightarrow> error option \<times> 's"

datatype process_end = ExitCode nat | ProcessPanicked

text \<open>A call whose error ends the process: \<open>if err != nil { setupLog.Error(...); os.Exit(1) }\<close>.\<close>

definition or_exit ::
  "('s \<Rightarrow> error option \<times> 's) \<Rightarrow> manager_call \<Rightarrow> string \<Rightarrow> (string \<times> log_value) list \<Rightarrow>
     ('s hworld, process_end) state \<Rightarrow>
     ('s hworld, process_end) state" where
  "or_exit f c msg kv continue = do {
     err \<leftarrow> call f (ManagerCall c);
     (case err of
        Some e \<Rightarrow> do { _ \<leftarrow> emit (LogError e msg kv); State_Monad.return (ExitCode 1) }
      | None \<Rightarrow> continue)
   }"

definition garage_client_of :: "controllerConfig \<Rightarrow> adminAPIHttpClient" where
  "garage_client_of cfg = NewClient (garageAPIEndpoint cfg) (garageAPIToken cfg) [WithMetrics]"

text \<open>The lines \<open>main\<close> writes about the certificates of a server.\<close>

definition log_certs :: "string \<Rightarrow> string \<Rightarrow> string \<Rightarrow> string \<Rightarrow> ('s hworld, unit) state" where
  "log_certs server path name key =
     (if 0 < length path
      then emit (LogInfo (''Initializing '' @ server @ '' certificate watcher using provided certificates'')
        [(server @ ''-cert-path'', VStr path), (server @ ''-cert-name'', VStr name),
         (server @ ''-cert-key'', VStr key)])
      else State_Monad.return ())"

definition main ::
  "environment \<Rightarrow> main_flags \<Rightarrow> 's manager \<Rightarrow>
     (adminAPIHttpClient \<Rightarrow> int64 \<Rightarrow> 's \<Rightarrow> (error + AdminTokenInfo) \<times> 's) \<Rightarrow>
     ('s hworld, process_end) state" where
  "main env flags M tokenInfo =
    (case loadConfig env of
       Inl err \<Rightarrow> do {
         _ \<leftarrow> emit (LogError err ''loading controller config'' []);
         State_Monad.return (ExitCode 1)
       }
     | Inr cfg \<Rightarrow> do {
         _ \<leftarrow> log_certs ''webhook'' (webhookCertPath flags) (webhookCertName flags) (webhookCertKey flags);
         _ \<leftarrow> log_certs ''metrics'' (metricsCertPath flags) (metricsCertName flags) (metricsCertKey flags);
         config \<leftarrow> call (mgr_GetConfig M) (ManagerCall GetConfigOrDie);
         (case config of
            Some e \<Rightarrow> State_Monad.return (ExitCode 1)
          | None \<Rightarrow>
              or_exit (mgr_New M (manager_options_of flags)) NewManager ''unable to start manager'' [] (do {
                registered \<leftarrow> call (mgr_Register M) (ManagerCall MustRegister);
                (case registered of
                   Some e \<Rightarrow> State_Monad.return ProcessPanicked
                 | None \<Rightarrow> do {
                     let timeout = 10 * 1000000000;
                     _ \<leftarrow> PreflightCheck (call (tokenInfo (garage_client_of cfg) timeout) (AskTokenInfo timeout));
                     or_exit (mgr_Setup M ''Bucket'') (SetupWithManager ''Bucket'')
                       ''unable to create controller'' [(''controller'', VStr ''Bucket'')]
                       (or_exit (mgr_Setup M ''AccessKey'') (SetupWithManager ''AccessKey'')
                       ''unable to create controller'' [(''controller'', VStr ''AccessKey'')]
                         (or_exit (mgr_Setup M ''AccessPolicy'') (SetupWithManager ''AccessPolicy'')
                       ''unable to create controller'' [(''controller'', VStr ''AccessPolicy'')]
                           (or_exit (mgr_AddHealthz M) AddHealthzCheck ''unable to set up health check'' []
                             (or_exit (mgr_AddReadyz M) AddReadyzCheck ''unable to set up ready check'' [] (do {
                               _ \<leftarrow> emit (HeartbeatStarted (30 * 1000000000));
                               _ \<leftarrow> emit (LogInfo ''starting manager'' []);
                               or_exit (mgr_Start M) StartManager ''problem running manager'' []
                                 (State_Monad.return (ExitCode 0))
                             })))))
                   })
              }))
       })"

section \<open>What the start does\<close>

text \<open>The steps that matter: calls to the manager, the question about the token, the start of
  the heartbeat.  \<open>follows plan out es\<close>: the steps \<open>es\<close> go through the plan in order; a manager
  call that fails ends the process, with what is left undone, the answer to the question does
  not matter.\<close>

fun milestone :: "process_event \<Rightarrow> bool" where
  "milestone (ManagerCall c r) = True"
| "milestone (AskTokenInfo t r) = True"
| "milestone (HeartbeatStarted i) = True"
| "milestone _ = False"

datatype startup_step = Manage manager_call | Ask int64 | Beat int64

definition failed_end :: "manager_call \<Rightarrow> process_end" where
  "failed_end c = (if c = MustRegister then ProcessPanicked else ExitCode 1)"

fun follows :: "startup_step list \<Rightarrow> process_end \<Rightarrow> process_event list \<Rightarrow> bool" where
  "follows [] out es \<longleftrightarrow> es = [] \<and> out = ExitCode 0"
| "follows (Manage c # plan) out es \<longleftrightarrow>
     (\<exists>e. es = [ManagerCall c (Some e)] \<and> out = failed_end c) \<or>
     (\<exists>es'. es = ManagerCall c None # es' \<and> follows plan out es')"
| "follows (Ask t # plan) out es \<longleftrightarrow> (\<exists>r es'. es = AskTokenInfo t r # es' \<and> follows plan out es')"
| "follows (Beat i # plan) out es \<longleftrightarrow> (\<exists>es'. es = HeartbeatStarted i # es' \<and> follows plan out es')"

definition startup_plan :: "startup_step list" where
  "startup_plan = [Manage GetConfigOrDie, Manage NewManager, Manage MustRegister,
     Ask (10 * 1000000000), Manage (SetupWithManager ''Bucket''),
     Manage (SetupWithManager ''AccessKey''), Manage (SetupWithManager ''AccessPolicy''),
     Manage AddHealthzCheck, Manage AddReadyzCheck, Beat (30 * 1000000000), Manage StartManager]"

definition planned :: "startup_step list \<Rightarrow> process_end \<Rightarrow> process_event list \<Rightarrow> bool" where
  "planned plan out es \<longleftrightarrow> follows plan out (filter milestone es)"

lemma planned_or_exit:
  assumes "produces m (planned plan)" and "c \<noteq> MustRegister"
  shows "produces (or_exit f c msg kv m) (planned (Manage c # plan))"
  unfolding or_exit_def
  by (intro produces_intros produces_mono [OF assms(1)])
    (auto simp: planned_def failed_end_def assms(2))

lemma planned_quiet:
  assumes "produces m (\<lambda>u es. filter milestone es = [])" and "produces k (planned plan)"
  shows "produces (m \<bind> (\<lambda>_. k)) (planned plan)"
  by (intro produces_bind produces_mono [OF assms(1)] produces_mono [OF assms(2)])
    (auto simp: planned_def)

lemma log_certs_quiet: "produces (log_certs server path name key) (\<lambda>u es. filter milestone es = [])"
  unfolding log_certs_def by (intro produces_intros) auto

lemma planned_ask:
  assumes "produces k (planned plan)"
  shows "produces (PreflightCheck (call f (AskTokenInfo t)) \<bind> (\<lambda>_. k)) (planned (Ask t # plan))"
  unfolding PreflightCheck_def
  by (intro produces_intros produces_mono [OF assms]) (auto simp: planned_def)

lemma planned_beat:
  assumes "produces k (planned plan)"
  shows "produces (emit (HeartbeatStarted i) \<bind> (\<lambda>_. k)) (planned (Beat i # plan))"
  by (intro produces_intros produces_mono [OF assms]) (auto simp: planned_def)

lemma planned_call:
  assumes "produces k (planned plan)" and "\<And>e. produces (h e) (\<lambda>out es. out = failed_end c \<and> es = [])"
  shows "produces (call f (ManagerCall c) \<bind> case_option k h)
    (planned (Manage c # plan))"
  by (intro produces_intros produces_mono [OF assms(1)] produces_mono [OF assms(2)])
    (auto simp: planned_def)

lemma planned_note:
  assumes "produces k (planned plan)"
  shows "produces (emit (LogInfo m kv) \<bind> (\<lambda>_. k)) (planned plan)"
  by (intro produces_intros produces_mono [OF assms]) (auto simp: planned_def)

lemma planned_done: "produces (State_Monad.return (ExitCode 0)) (planned [])"
  by (intro produces_intros) (simp add: planned_def)

lemma main_planned:
  assumes "missing_env env = []"
  shows "produces (main env flags M tokenInfo) (planned startup_plan)"
  unfolding main_def loadConfig_missing Let_def startup_plan_def
  by (simp only: assms if_True sum.case simp_thms)
    ((rule planned_quiet [OF log_certs_quiet] planned_note planned_call planned_ask planned_beat
        planned_or_exit planned_done)+,
     auto intro!: produces_return simp: failed_end_def)

text \<open>
  C33: the process starts completely or not at all: without one of the three required variables
  it ends with code 1 before any call is made, and its one line names exactly the variables
  that are not set; otherwise it goes through the steps in order: configuration, manager,
  metrics, the token check within 10 seconds, the three controllers, the two probes, the
  heartbeat every 30 seconds, the manager.  The first step that fails ends it with code 1 (a
  panic for the metrics) and nothing after it is done; the answer of the token check never
  does; and code 0 is reached only through all of them.
\<close>

theorem main_starts:
  assumes run: "run_state (main env flags M tokenInfo) w = (out, w')"
  shows "if missing_env env = [] then follows startup_plan out (filter milestone (new_events w w'))
    else out = ExitCode 1 \<and> new_events w w' =
      [LogError (ErrorString (''missing required env: '' @ intercalate '', '' (missing_env env)))
         ''loading controller config'' []]"
proof (cases "missing_env env = []")
  case True
  with produces_run [OF main_planned [OF True] run] show ?thesis by (simp add: planned_def)
next
  case False
  then have "produces (main env flags M tokenInfo) (\<lambda>out es. out = ExitCode 1 \<and> es =
      [LogError (ErrorString (''missing required env: '' @ intercalate '', '' (missing_env env)))
         ''loading controller config'' []])"
    unfolding main_def loadConfig_missing by (auto intro!: produces_intros)
  from produces_run [OF this run] False show ?thesis by simp
qed

text \<open>A manager that cannot be set up for access keys.\<close>

definition ex_env :: environment where
  "ex_env = [''GARAGE_API_TOKEN'' \<mapsto> ''token'', ''GARAGE_API_ENDPOINT'' \<mapsto> ''http://garage:3903'',
     ''GARAGE_S3_API_ENDPOINT'' \<mapsto> ''http://garage:3900'']"

definition ex_manager :: "unit manager" where
  "ex_manager = \<lparr>mgr_GetConfig = Pair None, mgr_New = \<lambda>opts. Pair None, mgr_Register = Pair None,
     mgr_Setup = \<lambda>n. Pair (if n = ''AccessKey'' then Some (ErrorString ''no CRD'') else None),
     mgr_AddHealthz = Pair None, mgr_AddReadyz = Pair None, mgr_Start = Pair None\<rparr>"

definition ex_main :: "environment \<Rightarrow> process_end \<times> unit hworld" where
  "ex_main env = run_state (main env default_flags ex_manager
     (\<lambda>c t. Pair (Inl (ErrorString ''refused'')))) \<lparr>ext = (), log = []\<rparr>"

lemma ex_env_missing:
  "missing_env ex_env = []"
  "missing_env (ex_env(''GARAGE_API_TOKEN'' := None)) = [''GARAGE_API_TOKEN'']"
  by (simp_all add: missing_env_def required_env_def ex_env_def)

theorem main_starts_witness:
  "follows startup_plan (fst (ex_main ex_env)) (filter milestone (log (snd (ex_main ex_env)))) \<and>
   fst (ex_main (ex_env(''GARAGE_API_TOKEN'' := None))) = ExitCode 1"
  using main_starts [OF surjective_pairing, of ex_env default_flags ex_manager
      "\<lambda>c t. Pair (Inl (ErrorString ''refused''))" "\<lparr>ext = (), log = []\<rparr>"]
    main_starts [OF surjective_pairing, of "ex_env(''GARAGE_API_TOKEN'' := None)" default_flags
      ex_manager "\<lambda>c t. Pair (Inl (ErrorString ''refused''))" "\<lparr>ext = (), log = []\<rparr>"]
  by (simp add: ex_env_missing ex_main_def new_events_def)

section \<open>HTTP/2\<close>

definition configure :: "tls_option list \<Rightarrow> tls_config \<Rightarrow> tls_config" where
  "configure opts c = fold (\<lambda>opt c. opt c) opts c"

text \<open>
  HTTP/2 is off unless it was asked for: whatever else the flags say, the options the
  manager is created with leave both servers, metrics and webhook, \<open>http/1.1\<close> as the only
  protocol, and with \<open>--enable-http2\<close> they do not touch the protocols; the metrics endpoint
  asks for authentication exactly when it is served securely, which is the default; and a
  server has certificates of its own exactly when a path was given.
\<close>

theorem main_http1:
  "NextProtos (configure (mo_TLSOpts (op_Metrics (manager_options_of f))) c) =
     (if enableHTTP2 f then NextProtos c else [''http/1.1'']) \<and>
   NextProtos (configure (wo_TLSOpts (op_WebhookServer (manager_options_of f))) c) =
     (if enableHTTP2 f then NextProtos c else [''http/1.1'']) \<and>
   mo_Authenticated (op_Metrics (manager_options_of f)) = secureMetrics f \<and>
   mo_SecureServing (op_Metrics (manager_options_of f)) = secureMetrics f \<and>
   secureMetrics default_flags \<and> \<not> enableHTTP2 default_flags \<and>
   mo_Certs (op_Metrics (manager_options_of f)) =
     (if metricsCertPath f = [] then no_certs
      else \<lparr>CertDir = metricsCertPath f, CertName = metricsCertName f, KeyName = metricsCertKey f\<rparr>) \<and>
   wo_Certs (op_WebhookServer (manager_options_of f)) =
     (if webhookCertPath f = [] then no_certs
      else \<lparr>CertDir = webhookCertPath f, CertName = webhookCertName f, KeyName = webhookCertKey f\<rparr>)"
  by (simp add: configure_def manager_options_of_def metricsServerOptions_def
      webhookServerOptions_def tlsOpts_def disableHTTP2_def default_flags_def Let_def)

end
