(* ===== verification/GoHeap.thy ===== *)
theory GoHeap
  imports ApiTypes
begin

text \<open>
  A heap for the one place where aliasing matters: the deep copies of the custom resources
  (\<^verbatim>\<open>api/v1alpha1/zz_generated.deepcopy.go\<close>).  Elsewhere in this development a resource is a
  value; here its slices and pointers are addresses of cells.

  The locale \<open>copyable\<close> is the contract of a deep copy: \<open>view\<close> reads the value a Go value
  stands for, \<open>cells\<close> are the addresses it reaches, and \<open>copy\<close> gives a Go value that stands
  for the same and reaches new cells only.  The rules after it build copies of compound
  values from copies of their parts.
\<close>

section \<open>Cells\<close>

type_synonym addr = nat

record slice =
  sl_array :: addr
  sl_start :: nat
  sl_len :: nat

record TypeMeta =
  tm_Kind :: string
  tm_APIVersion :: string

text \<open>The resources as Go lays them out; \<open>'x\<close> stands for the values of library types:
  \<open>ObjectMeta\<close>, \<open>ListMeta\<close> and \<open>Quantity\<close>.\<close>

record 'x goBucketSpec =
  gbs_Name :: string
  gbs_ExistingBucket :: "addr option"
  gbs_MaxSize :: 'x
  gbs_MaxObjects :: int64
  gbs_ConfigMapName :: string

record goBucketStatus =
  gbst_ObservedGeneration :: int64
  gbst_Conditions :: "slice option"
  gbst_BucketID :: string
  gbst_BucketName :: string
  gbst_LastSync :: "addr option"

record 'x goBucket =
  gb_TypeMeta :: TypeMeta
  gb_ObjectMeta :: 'x
  gb_Spec :: "'x goBucketSpec"
  gb_Status :: goBucketStatus

record goAccessKeyStatus =
  gkst_Conditions :: "slice option"
  gkst_ObservedGeneration :: int64
  gkst_AccessKeyID :: string
  gkst_SecretName :: string

record 'x goAccessKey =
  gk_TypeMeta :: TypeMeta
  gk_ObjectMeta :: 'x
  gk_Spec :: AccessKeySpec
  gk_Status :: goAccessKeyStatus

record goAccessPolicyStatus =
  gpst_Conditions :: "slice option"
  gpst_ObservedGeneration :: int64
  gpst_BucketID :: string
  gpst_AccessKeyID :: string

record 'x goAccessPolicy =
  ga_TypeMeta :: TypeMeta
  ga_ObjectMeta :: 'x
  ga_Spec :: AccessPolicySpec
  ga_Status :: goAccessPolicyStatus

text \<open>The lists of the three kinds have the same fields.\<close>

record 'x goList =
  gl_TypeMeta :: TypeMeta
  gl_ListMeta :: 'x
  gl_Items :: "slice option"

datatype 'x cell =
    LibCell 'x
  | TimeCell int
  | ExistingCell ExistingBucketSpec
  | ConditionArray "condition list"
  | BucketArray "'x goBucket list"
  | AccessKeyArray "'x goAccessKey list"
  | AccessPolicyArray "'x goAccessPolicy list"

record 'x heap =
  mem :: "addr \<rightharpoonup> 'x cell"
  next_addr :: addr

definition alloc :: "'x cell \<Rightarrow> ('x heap, addr) state" where
  "alloc c = State (\<lambda>h. (next_addr h,
     h\<lparr>mem := (mem h)(next_addr h \<mapsto> c), next_addr := Suc (next_addr h)\<rparr>))"

definition load :: "('x heap \<Rightarrow> 'a) \<Rightarrow> ('x heap, 'a) state" where
  "load f = State (\<lambda>h. (f h, h))"

lemma run_alloc [simp]: "run_state (alloc c) h = (next_addr h,
    h\<lparr>mem := (mem h)(next_addr h \<mapsto> c), next_addr := Suc (next_addr h)\<rparr>)"
  by (simp add: alloc_def)

lemma run_load [simp]: "run_state (load f) h = (f h, h)"
  by (simp add: load_def)

section \<open>The contract of a deep copy\<close>

definition agree :: "addr set \<Rightarrow> 'x heap \<Rightarrow> 'x heap \<Rightarrow> bool" where
  "agree A h h' \<longleftrightarrow> (\<forall>a \<in> A. mem h' a = mem h a)"

abbreviation allocated :: "'x heap \<Rightarrow> addr set" where
  "allocated h \<equiv> {..<next_addr h}"

definition extends :: "'x heap \<Rightarrow> 'x heap \<Rightarrow> bool" where
  "extends h h' \<longleftrightarrow> next_addr h \<le> next_addr h' \<and> agree (allocated h) h h'"

lemma agree_sub: "agree A h h' \<Longrightarrow> B \<subseteq> A \<Longrightarrow> agree B h h'"
  by (auto simp: agree_def)

lemma agree_Un [simp]: "agree (A \<union> B) h h' \<longleftrightarrow> agree A h h' \<and> agree B h h'"
  by (auto simp: agree_def)

lemma extends_refl [simp]: "extends h h"
  by (simp add: extends_def agree_def)

lemma extends_trans: "extends h h1 \<Longrightarrow> extends h1 h2 \<Longrightarrow> extends h h2"
  by (auto simp: extends_def agree_def)

lemma extends_agree: "extends h h' \<Longrightarrow> A \<subseteq> allocated h \<Longrightarrow> agree A h h'"
  by (auto simp: extends_def agree_def)

lemma extends_allocated: "extends h h' \<Longrightarrow> A \<subseteq> allocated h \<Longrightarrow> A \<subseteq> allocated h'"
  by (auto simp: extends_def)

lemma extends_alloc [simp]:
  "extends h (h\<lparr>mem := (mem h)(next_addr h \<mapsto> c), next_addr := Suc (next_addr h)\<rparr>)"
  by (auto simp: extends_def agree_def)

text \<open>What a snapshot is good for: right after the copy both stand for the old value, and
  whatever is then done to the cells of the one, and to cells allocated later, the other keeps
  that value.\<close>

definition keeps_apart ::
  "('x heap \<Rightarrow> 'a \<Rightarrow> 'v) \<Rightarrow> ('x heap \<Rightarrow> 'a \<Rightarrow> addr set) \<Rightarrow> ('a \<Rightarrow> ('x heap, 'a) state) \<Rightarrow> bool" where
  "keeps_apart view cells copy \<longleftrightarrow>
     (\<forall>h x y h' h''. cells h x \<subseteq> allocated h \<longrightarrow> run_state (copy x) h = (y, h') \<longrightarrow>
        view h' y = view h x \<and> view h' x = view h x \<and>
        (agree (allocated h' - cells h' x) h' h'' \<longrightarrow> view h'' y = view h x) \<and>
        (agree (allocated h' - cells h' y) h' h'' \<longrightarrow> view h'' x = view h x))"

locale copyable =
  fixes view :: "'x heap \<Rightarrow> 'a \<Rightarrow> 'v"
    and cells :: "'x heap \<Rightarrow> 'a \<Rightarrow> addr set"
    and copy :: "'a \<Rightarrow> ('x heap, 'a) state"
  assumes local_view: "agree (cells h x) h h' \<Longrightarrow> view h' x = view h x"
    and local_cells: "agree (cells h x) h h' \<Longrightarrow> cells h' x = cells h x"
    and copies: "cells h x \<subseteq> allocated h \<Longrightarrow> run_state (copy x) h = (y, h') \<Longrightarrow>
      extends h h' \<and> view h' y = view h x \<and> cells h' y \<subseteq> allocated h' - allocated h"
begin

lemma original_kept:
  assumes "cells h x \<subseteq> allocated h" and "run_state (copy x) h = (y, h')"
  shows "view h' x = view h x" and "cells h' x = cells h x"
proof -
  have "agree (cells h x) h h'" using copies [OF assms] assms(1) by (simp add: extends_agree)
  then show "view h' x = view h x" and "cells h' x = cells h x"
    by (fact local_view, fact local_cells)
qed

lemma apart:
  assumes "cells h x \<subseteq> allocated h" and "run_state (copy x) h = (y, h')"
  shows "cells h' x \<inter> cells h' y = {}"
  using copies [OF assms] assms(1) by (subst original_kept(2) [OF assms]) blast

text \<open>Whatever is done to the cells of the one, the other keeps its value.\<close>

lemma isolated:
  assumes "cells h x \<subseteq> allocated h" and "run_state (copy x) h = (y, h')"
  shows "view h' y = view h x"
    and "agree (allocated h' - cells h' x) h' h'' \<Longrightarrow> view h'' y = view h x"
    and "agree (allocated h' - cells h' y) h' h'' \<Longrightarrow> view h'' x = view h x"
proof -
  note c = copies [OF assms]
  from c show "view h' y = view h x" by simp
  show "view h'' y = view h x" if "agree (allocated h' - cells h' x) h' h''"
  proof -
    have "cells h' y \<subseteq> allocated h' - cells h' x" using c apart [OF assms] by auto
    with that have "agree (cells h' y) h' h''" by (rule agree_sub)
    with local_view c show ?thesis by metis
  qed
  show "view h'' x = view h x" if "agree (allocated h' - cells h' y) h' h''"
  proof -
    have "cells h' x \<subseteq> allocated h' - cells h' y"
      using c apart [OF assms] original_kept [OF assms] assms(1) extends_allocated by blast
    with that have "agree (cells h' x) h' h''" by (rule agree_sub)
    with local_view original_kept [OF assms] show ?thesis by metis
  qed
qed

lemma snapshot: "keeps_apart view cells copy"
  unfolding keeps_apart_def using isolated original_kept(1) by blast

end

section \<open>Copies of compound values\<close>

text \<open>Plain values.\<close>

lemma copyable_value: "copyable (\<lambda>h x. f x) (\<lambda>h x. {}) State_Monad.return"
  by unfold_locales (auto simp: agree_def)

text \<open>Part of what a value stands for.\<close>

lemma copyable_part:
  assumes f: "copyable v c f"
  shows "copyable (\<lambda>h x. g (v h x)) c f"
proof unfold_locales
  fix h h' x y
  assume "c h x \<subseteq> allocated h" and "run_state (f x) h = (y, h')"
  from copyable.copies [OF f this]
  show "extends h h' \<and> g (v h' y) = g (v h x) \<and> c h' y \<subseteq> allocated h' - allocated h" by simp
qed (simp_all add: copyable.local_view [OF f] copyable.local_cells [OF f])

text \<open>Two values, one copied after the other.\<close>

definition copy_pair ::
  "('a \<Rightarrow> ('x heap, 'a) state) \<Rightarrow> ('b \<Rightarrow> ('x heap, 'b) state) \<Rightarrow>
     'a \<times> 'b \<Rightarrow> ('x heap, 'a \<times> 'b) state" where
  "copy_pair f g p = do { x \<leftarrow> f (fst p); y \<leftarrow> g (snd p); State_Monad.return (x, y) }"

text \<open>The second copy leaves the first one's old and new cells alone.\<close>

lemma copies_seq:
  assumes "extends h h1" "C \<subseteq> allocated h1 - allocated h"
    and "extends h1 h'" "D \<subseteq> allocated h' - allocated h1"
  shows "extends h h'" and "C \<union> D \<subseteq> allocated h' - allocated h" and "agree C h1 h'"
  using assms by (auto simp: extends_def agree_def)

lemma copyable_pair:
  assumes f: "copyable v c f" and g: "copyable u d g"
  shows "copyable (\<lambda>h p. (v h (fst p), u h (snd p))) (\<lambda>h p. c h (fst p) \<union> d h (snd p))
    (copy_pair f g)"
proof unfold_locales
  fix h h' p
  assume "agree (c h (fst p) \<union> d h (snd p)) h h'"
  then have a: "agree (c h (fst p)) h h'" "agree (d h (snd p)) h h'" by simp_all
  from copyable.local_view [OF f a(1)] copyable.local_view [OF g a(2)]
  show "(v h' (fst p), u h' (snd p)) = (v h (fst p), u h (snd p))" by simp
  from copyable.local_cells [OF f a(1)] copyable.local_cells [OF g a(2)]
  show "c h' (fst p) \<union> d h' (snd p) = c h (fst p) \<union> d h (snd p)" by simp
next
  fix h h' p q
  assume sub: "c h (fst p) \<union> d h (snd p) \<subseteq> allocated h"
    and run: "run_state (copy_pair f g p) h = (q, h')"
  obtain x h1 where x: "run_state (f (fst p)) h = (x, h1)" by fastforce
  with run obtain y where y: "run_state (g (snd p)) h1 = (y, h')" and q: "q = (x, y)"
    by (auto simp: copy_pair_def split: prod.splits)
  from sub have 0: "c h (fst p) \<subseteq> allocated h" "d h (snd p) \<subseteq> allocated h" by auto
  note 1 = copyable.copies [OF f 0(1) x]
  from 1 0 have "agree (d h (snd p)) h h1" by (simp add: extends_agree)
  from copyable.local_cells [OF g this] copyable.local_view [OF g this]
  have d: "d h1 (snd p) = d h (snd p)" "u h1 (snd p) = u h (snd p)" .
  from 1 extends_allocated [OF _ 0(2)] have "d h1 (snd p) \<subseteq> allocated h1" unfolding d by blast
  note 2 = copyable.copies [OF g this y]
  note both = copies_seq [of h h1 "c h1 x" h' "d h' y"]
  from 1 2 have "agree (c h1 x) h1 h'" by (intro both(3)) auto
  from copyable.local_cells [OF f this] copyable.local_view [OF f this]
  have "c h' x = c h1 x" "v h' x = v h1 x" .
  with 1 2 d q both show "extends h h' \<and> (v h' (fst q), u h' (snd q)) = (v h (fst p), u h (snd p)) \<and>
      c h' (fst q) \<union> d h' (snd q) \<subseteq> allocated h' - allocated h" by simp
qed

text \<open>A struct, some of whose fields are copied and put back; the others are assigned.\<close>

lemma copyable_struct:
  assumes f: "copyable v c f"
    and put: "\<And>p s. get (put p s) = p" "\<And>p s r. V (put p s) r = V s r"
  shows "copyable (\<lambda>h s. V s (v h (get s))) (\<lambda>h s. c h (get s))
    (\<lambda>s. do { p \<leftarrow> f (get s); State_Monad.return (put p s) })"
proof unfold_locales
  fix h h' s
  assume "agree (c h (get s)) h h'"
  from copyable.local_view [OF f this] copyable.local_cells [OF f this]
  show "V s (v h' (get s)) = V s (v h (get s))" "c h' (get s) = c h (get s)" by simp_all
next
  fix h h' s t
  assume "c h (get s) \<subseteq> allocated h"
    and "run_state (do { p \<leftarrow> f (get s); State_Monad.return (put p s) }) h = (t, h')"
  with copyable.copies [OF f this(1)]
  show "extends h h' \<and> V t (v h' (get t)) = V s (v h (get s)) \<and>
      c h' (get t) \<subseteq> allocated h' - allocated h"
    by (auto simp: put split: prod.splits)
qed

text \<open>The elements of a list, one after the other.\<close>

fun copy_all :: "('a \<Rightarrow> ('x heap, 'a) state) \<Rightarrow> 'a list \<Rightarrow> ('x heap, 'a list) state" where
  "copy_all f [] = State_Monad.return []"
| "copy_all f (x # xs) = do { y \<leftarrow> f x; ys \<leftarrow> copy_all f xs; State_Monad.return (y # ys) }"

lemma all_local:
  assumes f: "copyable v c f" and a: "agree (\<Union>x \<in> set xs. c h x) h h'"
  shows "map (v h') xs = map (v h) xs" and "(\<Union>x \<in> set xs. c h' x) = (\<Union>x \<in> set xs. c h x)"
proof -
  have "agree (c h x) h h'" if "x \<in> set xs" for x
    using a that by (auto simp: agree_def)
  with copyable.local_view [OF f] copyable.local_cells [OF f]
  have "v h' x = v h x \<and> c h' x = c h x" if "x \<in> set xs" for x using that by blast
  then show "map (v h') xs = map (v h) xs" and "(\<Union>x \<in> set xs. c h' x) = (\<Union>x \<in> set xs. c h x)"
    by auto
qed

lemma all_copies:
  assumes f: "copyable v c f"
  shows "(\<Union>x \<in> set xs. c h x) \<subseteq> allocated h \<Longrightarrow> run_state (copy_all f xs) h = (ys, h') \<Longrightarrow>
    extends h h' \<and> map (v h') ys = map (v h) xs \<and> (\<Union>y \<in> set ys. c h' y) \<subseteq> allocated h' - allocated h"
proof (induction xs arbitrary: h ys)
  case (Cons x xs)
  obtain y h1 where x: "run_state (f x) h = (y, h1)" by fastforce
  with Cons.prems(2) obtain zs where zs: "run_state (copy_all f xs) h1 = (zs, h')" and ys: "ys = y # zs"
    by (auto split: prod.splits)
  from Cons.prems(1) have 0: "c h x \<subseteq> allocated h" "(\<Union>x \<in> set xs. c h x) \<subseteq> allocated h" by auto
  note 1 = copyable.copies [OF f 0(1) x]
  from 1 0 have "agree (\<Union>x \<in> set xs. c h x) h h1" by (simp add: extends_agree)
  note rest = all_local [OF f this]
  from 1 extends_allocated [OF _ 0(2)] have "(\<Union>x \<in> set xs. c h1 x) \<subseteq> allocated h1"
    unfolding rest by blast
  note 2 = Cons.IH [OF this zs]
  note both = copies_seq [of h h1 "c h1 y" h' "\<Union>y \<in> set zs. c h' y"]
  from 1 2 have "agree (c h1 y) h1 h'" by (intro both(3)) auto
  from copyable.local_cells [OF f this] copyable.local_view [OF f this]
  have "c h' y = c h1 y" "v h' y = v h1 y" .
  with 1 2 ys rest both show ?case by simp
qed simp

lemma copyable_all:
  assumes f: "copyable v c f"
  shows "copyable (\<lambda>h. map (v h)) (\<lambda>h xs. \<Union>x \<in> set xs. c h x) (copy_all f)"
  by unfold_locales (fact all_local [OF f] all_copies [OF f])+

text \<open>
  A slice: \<open>make\<close> and the loop that copies the elements into the new array.  \<open>arr h a\<close> is the
  array at \<open>a\<close>, \<open>cell xs\<close> a cell that holds the array \<open>xs\<close>.
\<close>

definition window :: "('x heap \<Rightarrow> addr \<Rightarrow> 'a list) \<Rightarrow> 'x heap \<Rightarrow> slice \<Rightarrow> 'a list" where
  "window arr h s = take (sl_len s) (drop (sl_start s) (arr h (sl_array s)))"

definition copy_slice ::
  "('x heap \<Rightarrow> addr \<Rightarrow> 'a list) \<Rightarrow> ('a list \<Rightarrow> 'x cell) \<Rightarrow> ('a \<Rightarrow> ('x heap, 'a) state) \<Rightarrow>
     slice option \<Rightarrow> ('x heap, slice option) state" where
  "copy_slice arr cell f s = (case s of
     None \<Rightarrow> State_Monad.return None
   | Some s \<Rightarrow> do {
       xs \<leftarrow> load (\<lambda>h. window arr h s);
       ys \<leftarrow> copy_all f xs;
       a \<leftarrow> alloc (cell ys);
       State_Monad.return (Some \<lparr>sl_array = a, sl_start = 0, sl_len = length ys\<rparr>)
     })"

definition slice_list ::
  "('x heap \<Rightarrow> addr \<Rightarrow> 'a list) \<Rightarrow> 'x heap \<Rightarrow> slice option \<Rightarrow> 'a list" where
  "slice_list arr h s = (case s of None \<Rightarrow> [] | Some s \<Rightarrow> window arr h s)"

definition slice_cells ::
  "('x heap \<Rightarrow> addr \<Rightarrow> 'a list) \<Rightarrow> ('x heap \<Rightarrow> 'a \<Rightarrow> addr set) \<Rightarrow> 'x heap \<Rightarrow> slice option \<Rightarrow> addr set"
where
  "slice_cells arr c h s = (case s of None \<Rightarrow> {} | Some s \<Rightarrow>
     insert (sl_array s) (\<Union>x \<in> set (window arr h s). c h x))"

lemma window_local:
  assumes f: "copyable v c f"
    and arr: "\<And>h h' a. mem h' a = mem h a \<Longrightarrow> arr h' a = arr h a"
    and ag: "agree (slice_cells arr c h (Some s)) h h'"
  shows "window arr h' s = window arr h s" "map (v h') (window arr h s) = map (v h) (window arr h s)"
    and "(\<Union>x \<in> set (window arr h s). c h' x) = (\<Union>x \<in> set (window arr h s). c h x)"
proof -
  from ag have m: "mem h' (sl_array s) = mem h (sl_array s)"
    and a: "agree (\<Union>x \<in> set (window arr h s). c h x) h h'"
    by (auto simp: slice_cells_def agree_def)
  show "window arr h' s = window arr h s" by (simp only: window_def arr [OF m])
  from all_local [OF f a] show "map (v h') (window arr h s) = map (v h) (window arr h s)"
    "(\<Union>x \<in> set (window arr h s). c h' x) = (\<Union>x \<in> set (window arr h s). c h x)" .
qed

lemma slice_copied:
  assumes f: "copyable v c f" and cell: "\<And>h a xs. mem h a = Some (cell xs) \<Longrightarrow> arr h a = xs"
    and sub: "slice_cells arr c h (Some s) \<subseteq> allocated h"
    and run: "run_state (copy_slice arr cell f (Some s)) h = (t, h')"
  shows "extends h h' \<and> map (v h') (slice_list arr h' t) = map (v h) (slice_list arr h (Some s)) \<and>
    slice_cells arr c h' t \<subseteq> allocated h' - allocated h"
proof -
  obtain ys h1 where ys: "run_state (copy_all f (window arr h s)) h = (ys, h1)" by fastforce
  from sub have "(\<Union>x \<in> set (window arr h s). c h x) \<subseteq> allocated h"
    by (simp add: slice_cells_def)
  note 1 = all_copies [OF f this ys]
  from run ys have t: "t = Some \<lparr>sl_array = next_addr h1, sl_start = 0, sl_len = length ys\<rparr>"
    and h': "h' = h1\<lparr>mem := (mem h1)(next_addr h1 \<mapsto> cell ys), next_addr := Suc (next_addr h1)\<rparr>"
    by (auto simp: copy_slice_def)
  have w: "window arr h' \<lparr>sl_array = next_addr h1, sl_start = 0, sl_len = length ys\<rparr> = ys"
    using cell [of h' "next_addr h1" ys] by (simp add: window_def h')
  have "agree (\<Union>y \<in> set ys. c h1 y) h1 h'" using 1 by (auto simp: h' agree_def)
  from all_local [OF f this] 1 w t show ?thesis
    by (auto simp: slice_list_def slice_cells_def h' extends_def agree_def)
qed

lemma copyable_slice:
  assumes f: "copyable v c f"
    and arr: "\<And>h h' a. mem h' a = mem h a \<Longrightarrow> arr h' a = arr h a"
    and cell: "\<And>h a xs. mem h a = Some (cell xs) \<Longrightarrow> arr h a = xs"
  shows "copyable (\<lambda>h s. map (v h) (slice_list arr h s)) (slice_cells arr c) (copy_slice arr cell f)"
proof unfold_locales
  fix h h' s
  assume "agree (slice_cells arr c h s) h h'"
  then show "map (v h') (slice_list arr h' s) = map (v h) (slice_list arr h s)"
    and "slice_cells arr c h' s = slice_cells arr c h s"
  proof (atomize (full), cases s)
    case (Some s')
    assume "agree (slice_cells arr c h s) h h'"
    note w = window_local [OF f arr this [unfolded Some]]
    show "map (v h') (slice_list arr h' s) = map (v h) (slice_list arr h s) \<and>
        slice_cells arr c h' s = slice_cells arr c h s"
      by (simp only: Some slice_list_def slice_cells_def option.case w)
  qed (simp add: slice_list_def slice_cells_def)
next
  fix h h' s t
  assume sub: "slice_cells arr c h s \<subseteq> allocated h"
    and run: "run_state (copy_slice arr cell f s) h = (t, h')"
  show "extends h h' \<and> map (v h') (slice_list arr h' t) = map (v h) (slice_list arr h s) \<and>
      slice_cells arr c h' t \<subseteq> allocated h' - allocated h"
  proof (cases s)
    case None
    with run show ?thesis by (auto simp: copy_slice_def slice_list_def slice_cells_def)
  next
    case (Some s')
    with slice_copied [OF f cell] sub run show ?thesis by simp
  qed
qed

text \<open>A pointer to a plain value: \<open>new\<close> and the assignment.\<close>

definition copy_ptr ::
  "('x heap \<Rightarrow> addr \<Rightarrow> 'a) \<Rightarrow> ('a \<Rightarrow> 'x cell) \<Rightarrow> addr option \<Rightarrow> ('x heap, addr option) state" where
  "copy_ptr at cell p = (case p of
     None \<Rightarrow> State_Monad.return None
   | Some a \<Rightarrow> do {
       x \<leftarrow> load (\<lambda>h. at h a);
       b \<leftarrow> alloc (cell x);
       State_Monad.return (Some b)
     })"

definition ptr_cells :: "'x heap \<Rightarrow> addr option \<Rightarrow> addr set" where
  "ptr_cells h p = set_option p"

lemma copyable_ptr:
  fixes at :: "'x heap \<Rightarrow> addr \<Rightarrow> 'a"
  assumes at: "\<And>h h' a. mem h' a = mem h a \<Longrightarrow> at h' a = at h a"
    and cell: "\<And>h a x. mem h a = Some (cell x) \<Longrightarrow> at h a = x"
  shows "copyable (\<lambda>h. map_option (at h)) ptr_cells (copy_ptr at cell)"
proof unfold_locales
  fix h h' :: "'x heap" and p
  assume "agree (ptr_cells h p) h h'"
  then show "map_option (at h') p = map_option (at h) p" and "ptr_cells h' p = ptr_cells h p"
    using at [of h' _ h] by (cases p; simp add: ptr_cells_def agree_def)+
next
  fix h h' :: "'x heap" and p q
  assume "ptr_cells h p \<subseteq> allocated h" and "run_state (copy_ptr at cell p) h = (q, h')"
  with cell show "extends h h' \<and> map_option (at h') q = map_option (at h) p \<and>
      ptr_cells h' q \<subseteq> allocated h' - allocated h"
    by (auto simp: copy_ptr_def ptr_cells_def split: option.splits)
qed

text \<open>A pointer to a struct is the struct, or \<open>None\<close> for \<open>nil\<close>: \<open>new\<close> gives a struct of its own,
  which nothing else points to.\<close>

definition copy_new ::
  "('a \<Rightarrow> ('x heap, 'a) state) \<Rightarrow> 'a option \<Rightarrow> ('x heap, 'a option) state" where
  "copy_new f p = (case p of
     None \<Rightarrow> State_Monad.return None
   | Some x \<Rightarrow> do { out \<leftarrow> f x; State_Monad.return (Some out) })"

definition new_cells :: "('x heap \<Rightarrow> 'a \<Rightarrow> addr set) \<Rightarrow> 'x heap \<Rightarrow> 'a option \<Rightarrow> addr set" where
  "new_cells c h p = (case p of None \<Rightarrow> {} | Some x \<Rightarrow> c h x)"

lemma copyable_new:
  assumes f: "copyable v c f"
  shows "copyable (\<lambda>h. map_option (v h)) (new_cells c) (copy_new f)"
proof unfold_locales
  fix h h' p
  assume a: "agree (new_cells c h p) h h'"
  show "map_option (v h') p = map_option (v h) p" and "new_cells c h' p = new_cells c h p"
    using a copyable.local_view [OF f, of h _ h'] copyable.local_cells [OF f, of h _ h']
    by (cases p; simp add: new_cells_def)+
next
  fix h h' p q
  assume sub: "new_cells c h p \<subseteq> allocated h" and run: "run_state (copy_new f p) h = (q, h')"
  show "extends h h' \<and> map_option (v h') q = map_option (v h) p \<and>
      new_cells c h' q \<subseteq> allocated h' - allocated h"
  proof (cases p)
    case None
    with run show ?thesis by (simp add: copy_new_def new_cells_def)
  next
    case (Some x)
    with run obtain y where "run_state (f x) h = (y, h')" and q: "q = Some y"
      by (auto simp: copy_new_def split: prod.splits)
    with copyable.copies [OF f _ this(1)] sub Some show ?thesis by (simp add: new_cells_def)
  qed
qed

end
