(* ===== verification/DeepCopy.thy ===== *)
theory DeepCopy
  imports GoHeap
begin

text \<open>
  The deep copies of the custom resources (\<^verbatim>\<open>api/v1alpha1/zz_generated.deepcopy.go\<close>), by which
  the controllers keep the status they compare with at the end of a run.  \<open>T_DeepCopyInto\<close>
  gives the struct it writes to \<open>*out\<close>; \<open>T_DeepCopy\<close> and \<open>T_DeepCopyObject\<close> take and give
  pointers.  The copies of the library types are parameters (\<open>copylib\<close>), with what they
  promise in \<open>copylib_laws\<close>; \<open>object_meta\<close>, \<open>list_meta\<close> and \<open>quantity\<close> say what a value of
  a library type stands for, and \<open>lib_cells\<close> which cells it reaches.
\<close>

record ('x, 'l) copylib =
  ObjectMeta_DeepCopyInto :: "'x \<Rightarrow> ('x heap, 'x) state"
  ListMeta_DeepCopyInto :: "'x \<Rightarrow> ('x heap, 'x) state"
  Quantity_DeepCopy :: "'x \<Rightarrow> ('x heap, 'x) state"
  Condition_DeepCopyInto :: "condition \<Rightarrow> ('x heap, condition) state"
  Time_DeepCopy :: "addr option \<Rightarrow> ('x heap, addr option) state"
  object_meta :: "'x heap \<Rightarrow> 'x \<Rightarrow> objmeta"
  list_meta :: "'x heap \<Rightarrow> 'x \<Rightarrow> 'l"
  quantity :: "'x heap \<Rightarrow> 'x \<Rightarrow> string"
  lib_cells :: "'x heap \<Rightarrow> 'x \<Rightarrow> addr set"

section \<open>Reading the cells\<close>

definition time_at :: "'x heap \<Rightarrow> addr \<Rightarrow> int" where
  "time_at h a = (case mem h a of Some (TimeCell t) \<Rightarrow> t | _ \<Rightarrow> 0)"

definition existing_at :: "'x heap \<Rightarrow> addr \<Rightarrow> ExistingBucketSpec" where
  "existing_at h a = (case mem h a of Some (ExistingCell e) \<Rightarrow> e
     | _ \<Rightarrow> \<lparr>eb_Name = [], eb_OwnerKeySecret = []\<rparr>)"

definition condition_array :: "'x heap \<Rightarrow> addr \<Rightarrow> condition list" where
  "condition_array h a = (case mem h a of Some (ConditionArray cs) \<Rightarrow> cs | _ \<Rightarrow> [])"

definition bucket_array :: "'x heap \<Rightarrow> addr \<Rightarrow> 'x goBucket list" where
  "bucket_array h a = (case mem h a of Some (BucketArray bs) \<Rightarrow> bs | _ \<Rightarrow> [])"

definition access_key_array :: "'x heap \<Rightarrow> addr \<Rightarrow> 'x goAccessKey list" where
  "access_key_array h a = (case mem h a of Some (AccessKeyArray ks) \<Rightarrow> ks | _ \<Rightarrow> [])"

definition access_policy_array :: "'x heap \<Rightarrow> addr \<Rightarrow> 'x goAccessPolicy list" where
  "access_policy_array h a = (case mem h a of Some (AccessPolicyArray as) \<Rightarrow> as | _ \<Rightarrow> [])"

definition copylib_laws :: "('x, 'l) copylib \<Rightarrow> bool" where
  "copylib_laws L \<longleftrightarrow>
     copyable (object_meta L) (lib_cells L) (ObjectMeta_DeepCopyInto L) \<and>
     copyable (list_meta L) (lib_cells L) (ListMeta_DeepCopyInto L) \<and>
     copyable (quantity L) (lib_cells L) (Quantity_DeepCopy L) \<and>
     copyable (\<lambda>h c. c) (\<lambda>h c. {}) (Condition_DeepCopyInto L) \<and>
     copyable (\<lambda>h. map_option (time_at h)) ptr_cells (Time_DeepCopy L)"

section \<open>Specifications and their parts\<close>

definition ExistingBucketSpec_DeepCopyInto ::
  "ExistingBucketSpec \<Rightarrow> ('x heap, ExistingBucketSpec) state" where
  "ExistingBucketSpec_DeepCopyInto e = State_Monad.return e"

definition ExistingBucketSpec_DeepCopy ::
  "ExistingBucketSpec option \<Rightarrow> ('x heap, ExistingBucketSpec option) state" where
  "ExistingBucketSpec_DeepCopy = copy_new ExistingBucketSpec_DeepCopyInto"

definition Permissions_DeepCopyInto :: "Permissions \<Rightarrow> ('x heap, Permissions) state" where
  "Permissions_DeepCopyInto p = State_Monad.return p"

definition Permissions_DeepCopy :: "Permissions option \<Rightarrow> ('x heap, Permissions option) state" where
  "Permissions_DeepCopy = copy_new Permissions_DeepCopyInto"

definition AccessKeySpec_DeepCopyInto :: "AccessKeySpec \<Rightarrow> ('x heap, AccessKeySpec) state" where
  "AccessKeySpec_DeepCopyInto s = State_Monad.return s"

definition AccessKeySpec_DeepCopy ::
  "AccessKeySpec option \<Rightarrow> ('x heap, AccessKeySpec option) state" where
  "AccessKeySpec_DeepCopy = copy_new AccessKeySpec_DeepCopyInto"

definition AccessPolicySpec_DeepCopyInto ::
  "AccessPolicySpec \<Rightarrow> ('x heap, AccessPolicySpec) state" where
  "AccessPolicySpec_DeepCopyInto s = State_Monad.return (s\<lparr>ps_Permissions := ps_Permissions s\<rparr>)"

definition AccessPolicySpec_DeepCopy ::
  "AccessPolicySpec option \<Rightarrow> ('x heap, AccessPolicySpec option) state" where
  "AccessPolicySpec_DeepCopy = copy_new AccessPolicySpec_DeepCopyInto"

definition BucketSpec_DeepCopyInto ::
  "('x, 'l) copylib \<Rightarrow> 'x goBucketSpec \<Rightarrow> ('x heap, 'x goBucketSpec) state" where
  "BucketSpec_DeepCopyInto L s = do {
     e \<leftarrow> copy_ptr existing_at ExistingCell (gbs_ExistingBucket s);
     q \<leftarrow> Quantity_DeepCopy L (gbs_MaxSize s);
     State_Monad.return (s\<lparr>gbs_ExistingBucket := e, gbs_MaxSize := q\<rparr>)
   }"

definition BucketSpec_DeepCopy ::
  "('x, 'l) copylib \<Rightarrow> 'x goBucketSpec option \<Rightarrow> ('x heap, 'x goBucketSpec option) state" where
  "BucketSpec_DeepCopy L = copy_new (BucketSpec_DeepCopyInto L)"

section \<open>Statuses\<close>

definition BucketStatus_DeepCopyInto ::
  "('x, 'l) copylib \<Rightarrow> goBucketStatus \<Rightarrow> ('x heap, goBucketStatus) state" where
  "BucketStatus_DeepCopyInto L s = do {
     cs \<leftarrow> copy_slice condition_array ConditionArray (Condition_DeepCopyInto L) (gbst_Conditions s);
     t \<leftarrow> (case gbst_LastSync s of
           None \<Rightarrow> State_Monad.return None
         | Some a \<Rightarrow> Time_DeepCopy L (Some a));
     State_Monad.return (s\<lparr>gbst_Conditions := cs, gbst_LastSync := t\<rparr>)
   }"

definition BucketStatus_DeepCopy ::
  "('x, 'l) copylib \<Rightarrow> goBucketStatus option \<Rightarrow> ('x heap, goBucketStatus option) state" where
  "BucketStatus_DeepCopy L = copy_new (BucketStatus_DeepCopyInto L)"

definition AccessKeyStatus_DeepCopyInto ::
  "('x, 'l) copylib \<Rightarrow> goAccessKeyStatus \<Rightarrow> ('x heap, goAccessKeyStatus) state" where
  "AccessKeyStatus_DeepCopyInto L s = do {
     cs \<leftarrow> copy_slice condition_array ConditionArray (Condition_DeepCopyInto L) (gkst_Conditions s);
     State_Monad.return (s\<lparr>gkst_Conditions := cs\<rparr>)
   }"

definition AccessKeyStatus_DeepCopy ::
  "('x, 'l) copylib \<Rightarrow> goAccessKeyStatus option \<Rightarrow> ('x heap, goAccessKeyStatus option) state" where
  "AccessKeyStatus_DeepCopy L = copy_new (AccessKeyStatus_DeepCopyInto L)"

definition AccessPolicyStatus_DeepCopyInto ::
  "('x, 'l) copylib \<Rightarrow> goAccessPolicyStatus \<Rightarrow> ('x heap, goAccessPolicyStatus) state" where
  "AccessPolicyStatus_DeepCopyInto L s = do {
     cs \<leftarrow> copy_slice condition_array ConditionArray (Condition_DeepCopyInto L) (gpst_Conditions s);
     State_Monad.return (s\<lparr>gpst_Conditions := cs\<rparr>)
   }"

definition AccessPolicyStatus_DeepCopy ::
  "('x, 'l) copylib \<Rightarrow> goAccessPolicyStatus option \<Rightarrow> ('x heap, goAccessPolicyStatus option) state"
where
  "AccessPolicyStatus_DeepCopy L = copy_new (AccessPolicyStatus_DeepCopyInto L)"

section \<open>Resources\<close>

definition Bucket_DeepCopyInto ::
  "('x, 'l) copylib \<Rightarrow> 'x goBucket \<Rightarrow> ('x heap, 'x goBucket) state" where
  "Bucket_DeepCopyInto L b = do {
     m \<leftarrow> ObjectMeta_DeepCopyInto L (gb_ObjectMeta b);
     sp \<leftarrow> BucketSpec_DeepCopyInto L (gb_Spec b);
     st \<leftarrow> BucketStatus_DeepCopyInto L (gb_Status b);
     State_Monad.return (b\<lparr>gb_ObjectMeta := m, gb_Spec := sp, gb_Status := st\<rparr>)
   }"

definition Bucket_DeepCopy ::
  "('x, 'l) copylib \<Rightarrow> 'x goBucket option \<Rightarrow> ('x heap, 'x goBucket option) state" where
  "Bucket_DeepCopy L = copy_new (Bucket_DeepCopyInto L)"

definition AccessKey_DeepCopyInto ::
  "('x, 'l) copylib \<Rightarrow> 'x goAccessKey \<Rightarrow> ('x heap, 'x goAccessKey) state" where
  "AccessKey_DeepCopyInto L k = do {
     m \<leftarrow> ObjectMeta_DeepCopyInto L (gk_ObjectMeta k);
     st \<leftarrow> AccessKeyStatus_DeepCopyInto L (gk_Status k);
     State_Monad.return (k\<lparr>gk_ObjectMeta := m, gk_Status := st\<rparr>)
   }"

definition AccessKey_DeepCopy ::
  "('x, 'l) copylib \<Rightarrow> 'x goAccessKey option \<Rightarrow> ('x heap, 'x goAccessKey option) state" where
  "AccessKey_DeepCopy L = copy_new (AccessKey_DeepCopyInto L)"

definition AccessPolicy_DeepCopyInto ::
  "('x, 'l) copylib \<Rightarrow> 'x goAccessPolicy \<Rightarrow> ('x heap, 'x goAccessPolicy) state" where
  "AccessPolicy_DeepCopyInto L a = do {
     m \<leftarrow> ObjectMeta_DeepCopyInto L (ga_ObjectMeta a);
     st \<leftarrow> AccessPolicyStatus_DeepCopyInto L (ga_Status a);
     State_Monad.return (a\<lparr>ga_ObjectMeta := m, ga_Status := st\<rparr>)
   }"

definition AccessPolicy_DeepCopy ::
  "('x, 'l) copylib \<Rightarrow> 'x goAccessPolicy option \<Rightarrow> ('x heap, 'x goAccessPolicy option) state" where
  "AccessPolicy_DeepCopy L = copy_new (AccessPolicy_DeepCopyInto L)"

section \<open>Lists\<close>

definition BucketList_DeepCopyInto ::
  "('x, 'l) copylib \<Rightarrow> 'x goList \<Rightarrow> ('x heap, 'x goList) state" where
  "BucketList_DeepCopyInto L l = do {
     m \<leftarrow> ListMeta_DeepCopyInto L (gl_ListMeta l);
     items \<leftarrow> copy_slice bucket_array BucketArray (Bucket_DeepCopyInto L) (gl_Items l);
     State_Monad.return (l\<lparr>gl_ListMeta := m, gl_Items := items\<rparr>)
   }"

definition BucketList_DeepCopy ::
  "('x, 'l) copylib \<Rightarrow> 'x goList option \<Rightarrow> ('x heap, 'x goList option) state" where
  "BucketList_DeepCopy L = copy_new (BucketList_DeepCopyInto L)"

definition AccessKeyList_DeepCopyInto ::
  "('x, 'l) copylib \<Rightarrow> 'x goList \<Rightarrow> ('x heap, 'x goList) state" where
  "AccessKeyList_DeepCopyInto L l = do {
     m \<leftarrow> ListMeta_DeepCopyInto L (gl_ListMeta l);
     items \<leftarrow> copy_slice access_key_array AccessKeyArray (AccessKey_DeepCopyInto L) (gl_Items l);
     State_Monad.return (l\<lparr>gl_ListMeta := m, gl_Items := items\<rparr>)
   }"

definition AccessKeyList_DeepCopy ::
  "('x, 'l) copylib \<Rightarrow> 'x goList option \<Rightarrow> ('x heap, 'x goList option) state" where
  "AccessKeyList_DeepCopy L = copy_new (AccessKeyList_DeepCopyInto L)"

definition AccessPolicyList_DeepCopyInto ::
  "('x, 'l) copylib \<Rightarrow> 'x goList \<Rightarrow> ('x heap, 'x goList) state" where
  "AccessPolicyList_DeepCopyInto L l = do {
     m \<leftarrow> ListMeta_DeepCopyInto L (gl_ListMeta l);
     items \<leftarrow> copy_slice access_policy_array AccessPolicyArray (AccessPolicy_DeepCopyInto L) (gl_Items l);
     State_Monad.return (l\<lparr>gl_ListMeta := m, gl_Items := items\<rparr>)
   }"

definition AccessPolicyList_DeepCopy ::
  "('x, 'l) copylib \<Rightarrow> 'x goList option \<Rightarrow> ('x heap, 'x goList option) state" where
  "AccessPolicyList_DeepCopy L = copy_new (AccessPolicyList_DeepCopyInto L)"

section \<open>As runtime objects\<close>

text \<open>A \<open>runtime.Object\<close> is an interface: \<open>None\<close> is the nil interface, not an interface that
  holds a nil pointer.\<close>

datatype 'x runtime_object =
    BucketObject "'x goBucket"
  | BucketListObject "'x goList"
  | AccessKeyObject "'x goAccessKey"
  | AccessKeyListObject "'x goList"
  | AccessPolicyObject "'x goAccessPolicy"
  | AccessPolicyListObject "'x goList"

definition as_object ::
  "('a \<Rightarrow> 'x runtime_object) \<Rightarrow> ('x heap, 'a option) state \<Rightarrow> ('x heap, 'x runtime_object option) state"
where
  "as_object obj copy = do {
     c \<leftarrow> copy;
     (case c of
        Some c \<Rightarrow> State_Monad.return (Some (obj c))
      | None \<Rightarrow> State_Monad.return None)
   }"

definition Bucket_DeepCopyObject ::
  "('x, 'l) copylib \<Rightarrow> 'x goBucket option \<Rightarrow> ('x heap, 'x runtime_object option) state" where
  "Bucket_DeepCopyObject L b = as_object BucketObject (Bucket_DeepCopy L b)"

definition BucketList_DeepCopyObject ::
  "('x, 'l) copylib \<Rightarrow> 'x goList option \<Rightarrow> ('x heap, 'x runtime_object option) state" where
  "BucketList_DeepCopyObject L l = as_object BucketListObject (BucketList_DeepCopy L l)"

definition AccessKey_DeepCopyObject ::
  "('x, 'l) copylib \<Rightarrow> 'x goAccessKey option \<Rightarrow> ('x heap, 'x runtime_object option) state" where
  "AccessKey_DeepCopyObject L k = as_object AccessKeyObject (AccessKey_DeepCopy L k)"

definition AccessKeyList_DeepCopyObject ::
  "('x, 'l) copylib \<Rightarrow> 'x goList option \<Rightarrow> ('x heap, 'x runtime_object option) state" where
  "AccessKeyList_DeepCopyObject L l = as_object AccessKeyListObject (AccessKeyList_DeepCopy L l)"

definition AccessPolicy_DeepCopyObject ::
  "('x, 'l) copylib \<Rightarrow> 'x goAccessPolicy option \<Rightarrow> ('x heap, 'x runtime_object option) state" where
  "AccessPolicy_DeepCopyObject L a = as_object AccessPolicyObject (AccessPolicy_DeepCopy L a)"

definition AccessPolicyList_DeepCopyObject ::
  "('x, 'l) copylib \<Rightarrow> 'x goList option \<Rightarrow> ('x heap, 'x runtime_object option) state" where
  "AccessPolicyList_DeepCopyObject L l = as_object AccessPolicyListObject (AccessPolicyList_DeepCopy L l)"

end
