(* ===== verification/DeepCopyProps.thy ===== *)
theory DeepCopyProps
  imports DeepCopy
begin

text \<open>
  The deep copies keep their contract: a copy stands for the same resource and shares no cell
  with the original, so neither sees what is done to the other.  This is what lets the rest
  of the development treat resources as values.
\<close>

section \<open>What the Go values stand for\<close>

definition bucket_spec :: "('x, 'l) copylib \<Rightarrow> 'x heap \<Rightarrow> 'x goBucketSpec \<Rightarrow> BucketSpec" where
  "bucket_spec L h s =
     \<lparr>bs_Name = gbs_Name s, bs_ExistingBucket = map_option (existing_at h) (gbs_ExistingBucket s),
      bs_MaxSize = quantity L h (gbs_MaxSize s), bs_MaxObjects = gbs_MaxObjects s,
      bs_ConfigMapName = gbs_ConfigMapName s\<rparr>"

definition bucket_status :: "'x heap \<Rightarrow> goBucketStatus \<Rightarrow> BucketStatus" where
  "bucket_status h s =
     \<lparr>bst_ObservedGeneration = gbst_ObservedGeneration s,
      bst_Conditions = slice_list condition_array h (gbst_Conditions s),
      bst_BucketID = gbst_BucketID s, bst_BucketName = gbst_BucketName s,
      bst_LastSync = map_option (time_at h) (gbst_LastSync s)\<rparr>"

definition bucket :: "('x, 'l) copylib \<Rightarrow> 'x heap \<Rightarrow> 'x goBucket \<Rightarrow> TypeMeta \<times> Bucket" where
  "bucket L h b = (gb_TypeMeta b,
     \<lparr>b_Meta = object_meta L h (gb_ObjectMeta b), b_Spec = bucket_spec L h (gb_Spec b),
      b_Status = bucket_status h (gb_Status b)\<rparr>)"

definition access_key_status :: "'x heap \<Rightarrow> goAccessKeyStatus \<Rightarrow> AccessKeyStatus" where
  "access_key_status h s =
     \<lparr>kst_Conditions = slice_list condition_array h (gkst_Conditions s),
      kst_ObservedGeneration = gkst_ObservedGeneration s, kst_AccessKeyID = gkst_AccessKeyID s,
      kst_SecretName = gkst_SecretName s\<rparr>"

definition access_key :: "('x, 'l) copylib \<Rightarrow> 'x heap \<Rightarrow> 'x goAccessKey \<Rightarrow> TypeMeta \<times> AccessKey" where
  "access_key L h k = (gk_TypeMeta k,
     \<lparr>k_Meta = object_meta L h (gk_ObjectMeta k), k_Spec = gk_Spec k,
      k_Status = access_key_status h (gk_Status k)\<rparr>)"

definition access_policy_status :: "'x heap \<Rightarrow> goAccessPolicyStatus \<Rightarrow> AccessPolicyStatus" where
  "access_policy_status h s =
     \<lparr>pst_Conditions = slice_list condition_array h (gpst_Conditions s),
      pst_ObservedGeneration = gpst_ObservedGeneration s, pst_BucketID = gpst_BucketID s,
      pst_AccessKeyID = gpst_AccessKeyID s\<rparr>"

definition access_policy ::
  "('x, 'l) copylib \<Rightarrow> 'x heap \<Rightarrow> 'x goAccessPolicy \<Rightarrow> TypeMeta \<times> AccessPolicy" where
  "access_policy L h a = (ga_TypeMeta a,
     \<lparr>a_Meta = object_meta L h (ga_ObjectMeta a), a_Spec = ga_Spec a,
      a_Status = access_policy_status h (ga_Status a)\<rparr>)"

definition list_of ::
  "('x, 'l) copylib \<Rightarrow> ('x heap \<Rightarrow> addr \<Rightarrow> 'a list) \<Rightarrow> ('x heap \<Rightarrow> 'a \<Rightarrow> 'v) \<Rightarrow> 'x heap \<Rightarrow> 'x goList \<Rightarrow>
     TypeMeta \<times> 'l \<times> 'v list" where
  "list_of L arr v h l = (gl_TypeMeta l, list_meta L h (gl_ListMeta l),
     map (v h) (slice_list arr h (gl_Items l)))"

section \<open>Which cells they reach\<close>

definition condition_cells :: "'x heap \<Rightarrow> slice option \<Rightarrow> addr set" where
  "condition_cells = slice_cells condition_array (\<lambda>h c. {})"

definition bucket_status_cells :: "'x heap \<Rightarrow> goBucketStatus \<Rightarrow> addr set" where
  "bucket_status_cells h s =
     condition_cells h (gbst_Conditions s) \<union> ptr_cells h (gbst_LastSync s)"

definition bucket_cells :: "('x, 'l) copylib \<Rightarrow> 'x heap \<Rightarrow> 'x goBucket \<Rightarrow> addr set" where
  "bucket_cells L h b = lib_cells L h (gb_ObjectMeta b) \<union>
     (ptr_cells h (gbs_ExistingBucket (gb_Spec b)) \<union> lib_cells L h (gbs_MaxSize (gb_Spec b)) \<union>
      bucket_status_cells h (gb_Status b))"

definition access_key_status_cells :: "'x heap \<Rightarrow> goAccessKeyStatus \<Rightarrow> addr set" where
  "access_key_status_cells h s = condition_cells h (gkst_Conditions s)"

definition access_key_cells :: "('x, 'l) copylib \<Rightarrow> 'x heap \<Rightarrow> 'x goAccessKey \<Rightarrow> addr set" where
  "access_key_cells L h k =
     lib_cells L h (gk_ObjectMeta k) \<union> access_key_status_cells h (gk_Status k)"

definition access_policy_status_cells :: "'x heap \<Rightarrow> goAccessPolicyStatus \<Rightarrow> addr set" where
  "access_policy_status_cells h s = condition_cells h (gpst_Conditions s)"

definition access_policy_cells :: "('x, 'l) copylib \<Rightarrow> 'x heap \<Rightarrow> 'x goAccessPolicy \<Rightarrow> addr set" where
  "access_policy_cells L h a =
     lib_cells L h (ga_ObjectMeta a) \<union> access_policy_status_cells h (ga_Status a)"

definition list_cells ::
  "('x, 'l) copylib \<Rightarrow> ('x heap \<Rightarrow> addr \<Rightarrow> 'a list) \<Rightarrow> ('x heap \<Rightarrow> 'a \<Rightarrow> addr set) \<Rightarrow> 'x heap \<Rightarrow>
     'x goList \<Rightarrow> addr set" where
  "list_cells L arr c h l = lib_cells L h (gl_ListMeta l) \<union> slice_cells arr c h (gl_Items l)"

section \<open>The copies keep the contract\<close>

lemma lib_copyable:
  assumes "copylib_laws L"
  shows "copyable (object_meta L) (lib_cells L) (ObjectMeta_DeepCopyInto L)"
    and "copyable (list_meta L) (lib_cells L) (ListMeta_DeepCopyInto L)"
    and "copyable (quantity L) (lib_cells L) (Quantity_DeepCopy L)"
    and "copyable (\<lambda>h c. c) (\<lambda>h c. {}) (Condition_DeepCopyInto L)"
    and "copyable (\<lambda>h. map_option (time_at h)) ptr_cells (Time_DeepCopy L)"
  using assms by (simp_all add: copylib_laws_def)

lemma existing_copyable:
  "copyable (\<lambda>h. map_option (existing_at h)) ptr_cells (copy_ptr existing_at ExistingCell)"
  by (rule copyable_ptr) (simp_all add: existing_at_def)

interpretation existing_ptr:
  copyable "\<lambda>h. map_option (existing_at h)" ptr_cells "copy_ptr existing_at ExistingCell"
  by (rule existing_copyable)

interpretation policy_spec: copyable "\<lambda>h s. s" "\<lambda>h s. {}" AccessPolicySpec_DeepCopyInto
  by unfold_locales (auto simp: AccessPolicySpec_DeepCopyInto_def agree_def)

lemma conditions_copyable:
  assumes "copylib_laws L"
  shows "copyable (slice_list condition_array) condition_cells
    (copy_slice condition_array ConditionArray (Condition_DeepCopyInto L))"
  using copyable_slice [OF lib_copyable(4) [OF assms], of condition_array ConditionArray]
  by (simp add: condition_array_def condition_cells_def)

lemma last_sync_copyable:
  fixes L :: "('x, 'l) copylib"
  assumes "copylib_laws L"
  shows "copyable (\<lambda>h. map_option (time_at h)) ptr_cells
    (\<lambda>p. case p of None \<Rightarrow> State_Monad.return None | Some a \<Rightarrow> Time_DeepCopy L (Some a))"
proof -
  note t = lib_copyable(5) [OF assms]
  show ?thesis
  proof unfold_locales
    fix h h' :: "'x heap" and p
    assume "agree (ptr_cells h p) h h'"
    from copyable.local_view [OF t this] copyable.local_cells [OF t this]
    show "map_option (time_at h') p = map_option (time_at h) p" "ptr_cells h' p = ptr_cells h p" .
  next
    fix h h' :: "'x heap" and p q
    assume sub: "ptr_cells h p \<subseteq> allocated h" and run: "run_state (case p of
      None \<Rightarrow> State_Monad.return None | Some a \<Rightarrow> Time_DeepCopy L (Some a)) h = (q, h')"
    show "extends h h' \<and> map_option (time_at h') q = map_option (time_at h) p \<and>
        ptr_cells h' q \<subseteq> allocated h' - allocated h"
      using run copyable.copies [OF t sub]
      by (cases p) (auto simp: ptr_cells_def)
  qed
qed

lemma bucket_spec_copyable:
  assumes "copylib_laws L"
  shows "copyable (bucket_spec L)
    (\<lambda>h s. ptr_cells h (gbs_ExistingBucket s) \<union> lib_cells L h (gbs_MaxSize s))
    (BucketSpec_DeepCopyInto L)"
  using copyable_struct [OF copyable_pair [OF existing_copyable lib_copyable(3) [OF assms]],
    of "\<lambda>s. (gbs_ExistingBucket s, gbs_MaxSize s)"
      "\<lambda>(e, q) s. s\<lparr>gbs_ExistingBucket := e, gbs_MaxSize := q\<rparr>"
      "\<lambda>s (e, q). \<lparr>bs_Name = gbs_Name s, bs_ExistingBucket = e, bs_MaxSize = q,
        bs_MaxObjects = gbs_MaxObjects s, bs_ConfigMapName = gbs_ConfigMapName s\<rparr>"]
  by (simp add: bucket_spec_def [abs_def] BucketSpec_DeepCopyInto_def [abs_def] copy_pair_def case_prod_beta)

lemma bucket_status_copyable:
  assumes "copylib_laws L"
  shows "copyable bucket_status bucket_status_cells (BucketStatus_DeepCopyInto L)"
  using copyable_struct [OF copyable_pair [OF conditions_copyable [OF assms] last_sync_copyable [OF assms]],
    of "\<lambda>s. (gbst_Conditions s, gbst_LastSync s)"
      "\<lambda>(cs, t) s. s\<lparr>gbst_Conditions := cs, gbst_LastSync := t\<rparr>"
      "\<lambda>s (cs, t). \<lparr>bst_ObservedGeneration = gbst_ObservedGeneration s, bst_Conditions = cs,
        bst_BucketID = gbst_BucketID s, bst_BucketName = gbst_BucketName s, bst_LastSync = t\<rparr>"]
  by (simp add: bucket_status_def [abs_def] bucket_status_cells_def [abs_def] BucketStatus_DeepCopyInto_def [abs_def] 
      copy_pair_def case_prod_beta)

lemma bucket_copyable:
  assumes "copylib_laws L"
  shows "copyable (bucket L) (bucket_cells L) (Bucket_DeepCopyInto L)"
  using copyable_struct [OF copyable_pair [OF lib_copyable(1) [OF assms]
      copyable_pair [OF bucket_spec_copyable [OF assms] bucket_status_copyable [OF assms]]],
    of "\<lambda>b. (gb_ObjectMeta b, gb_Spec b, gb_Status b)"
      "\<lambda>(m, sp, st) b. b\<lparr>gb_ObjectMeta := m, gb_Spec := sp, gb_Status := st\<rparr>"
      "\<lambda>b (m, sp, st). (gb_TypeMeta b, \<lparr>b_Meta = m, b_Spec = sp, b_Status = st\<rparr>)"]
  by (simp add: bucket_def [abs_def] bucket_cells_def [abs_def] Bucket_DeepCopyInto_def [abs_def]
      copy_pair_def case_prod_beta)

lemma access_key_status_copyable:
  assumes "copylib_laws L"
  shows "copyable access_key_status access_key_status_cells
    (AccessKeyStatus_DeepCopyInto L)"
  using copyable_struct [OF conditions_copyable [OF assms], of gkst_Conditions
      "\<lambda>cs s. s\<lparr>gkst_Conditions := cs\<rparr>"
      "\<lambda>s cs. \<lparr>kst_Conditions = cs, kst_ObservedGeneration = gkst_ObservedGeneration s,
        kst_AccessKeyID = gkst_AccessKeyID s, kst_SecretName = gkst_SecretName s\<rparr>"]
  by (simp add: access_key_status_def [abs_def] access_key_status_cells_def [abs_def]
      AccessKeyStatus_DeepCopyInto_def [abs_def])

lemma access_key_copyable:
  assumes "copylib_laws L"
  shows "copyable (access_key L) (access_key_cells L) (AccessKey_DeepCopyInto L)"
  using copyable_struct [OF copyable_pair [OF lib_copyable(1) [OF assms] access_key_status_copyable [OF assms]],
    of "\<lambda>k. (gk_ObjectMeta k, gk_Status k)" "\<lambda>(m, st) k. k\<lparr>gk_ObjectMeta := m, gk_Status := st\<rparr>"
      "\<lambda>k (m, st). (gk_TypeMeta k, \<lparr>k_Meta = m, k_Spec = gk_Spec k, k_Status = st\<rparr>)"]
  by (simp add: access_key_def [abs_def] access_key_cells_def [abs_def]
      AccessKey_DeepCopyInto_def [abs_def] copy_pair_def case_prod_beta)

lemma access_policy_status_copyable:
  assumes "copylib_laws L"
  shows "copyable access_policy_status access_policy_status_cells
    (AccessPolicyStatus_DeepCopyInto L)"
  using copyable_struct [OF conditions_copyable [OF assms], of gpst_Conditions
      "\<lambda>cs s. s\<lparr>gpst_Conditions := cs\<rparr>"
      "\<lambda>s cs. \<lparr>pst_Conditions = cs, pst_ObservedGeneration = gpst_ObservedGeneration s,
        pst_BucketID = gpst_BucketID s, pst_AccessKeyID = gpst_AccessKeyID s\<rparr>"]
  by (simp add: access_policy_status_def [abs_def] access_policy_status_cells_def [abs_def]
      AccessPolicyStatus_DeepCopyInto_def [abs_def])

lemma access_policy_copyable:
  assumes "copylib_laws L"
  shows "copyable (access_policy L) (access_policy_cells L) (AccessPolicy_DeepCopyInto L)"
  using copyable_struct [OF copyable_pair [OF lib_copyable(1) [OF assms]
      access_policy_status_copyable [OF assms]],
    of "\<lambda>a. (ga_ObjectMeta a, ga_Status a)" "\<lambda>(m, st) a. a\<lparr>ga_ObjectMeta := m, ga_Status := st\<rparr>"
      "\<lambda>a (m, st). (ga_TypeMeta a, \<lparr>a_Meta = m, a_Spec = ga_Spec a, a_Status = st\<rparr>)"]
  by (simp add: access_policy_def [abs_def] access_policy_cells_def [abs_def]
      AccessPolicy_DeepCopyInto_def [abs_def] copy_pair_def case_prod_beta)

text \<open>A list: its metadata, and the slice of its items.\<close>

lemma list_copyable:
  assumes L: "copylib_laws L" and f: "copyable v c f"
    and arr: "\<And>h h' a. mem h' a = mem h a \<Longrightarrow> arr h' a = arr h a"
    and cell: "\<And>h a xs. mem h a = Some (cell xs) \<Longrightarrow> arr h a = xs"
  shows "copyable (list_of L arr v) (list_cells L arr c) (\<lambda>l. do {
     m \<leftarrow> ListMeta_DeepCopyInto L (gl_ListMeta l);
     items \<leftarrow> copy_slice arr cell f (gl_Items l);
     State_Monad.return (l\<lparr>gl_ListMeta := m, gl_Items := items\<rparr>)
   })"
  using copyable_struct [OF copyable_pair [OF lib_copyable(2) [OF L] copyable_slice [OF f arr cell]],
    where get = "\<lambda>l. (gl_ListMeta l, gl_Items l)" and V = "\<lambda>l (m, s). (gl_TypeMeta l, m, s)"
      and put = "\<lambda>(m, s) l. l\<lparr>gl_ListMeta := m, gl_Items := s\<rparr>"]
  by (simp add: list_of_def [abs_def] list_cells_def [abs_def] copy_pair_def case_prod_beta)

lemma lists_copyable:
  assumes L: "copylib_laws L"
  shows "copyable (list_of L bucket_array (bucket L)) (list_cells L bucket_array (bucket_cells L))
      (BucketList_DeepCopyInto L)"
    and "copyable (list_of L access_key_array (access_key L))
      (list_cells L access_key_array (access_key_cells L)) (AccessKeyList_DeepCopyInto L)"
    and "copyable (list_of L access_policy_array (access_policy L))
      (list_cells L access_policy_array (access_policy_cells L)) (AccessPolicyList_DeepCopyInto L)"
  unfolding BucketList_DeepCopyInto_def [abs_def] AccessKeyList_DeepCopyInto_def [abs_def]
    AccessPolicyList_DeepCopyInto_def [abs_def]
  by (rule list_copyable [OF L bucket_copyable [OF L]];
      simp add: bucket_array_def)
    (rule list_copyable [OF L access_key_copyable [OF L]] list_copyable [OF L access_policy_copyable [OF L]];
      simp add: access_key_array_def access_policy_array_def)+

lemmas new_copies = copyable.snapshot [OF copyable_new]

text \<open>
  C37: the deep copies by which the controllers remember a status or an object are snapshots:
  for each of the three statuses, the three kinds of resource and their lists, the copy stands
  for the same value as the original, and from then on neither can see a change made to the
  other, be it to the conditions in their shared-looking array, to a time or a specification
  behind a pointer, or to the labels; a nil pointer gives nil.
\<close>

theorem deep_copies_are_snapshots:
  assumes L: "copylib_laws L"
  shows "keeps_apart (\<lambda>h. map_option (bucket_status h)) (new_cells bucket_status_cells)
      (BucketStatus_DeepCopy L) \<and>
    keeps_apart (\<lambda>h. map_option (access_key_status h)) (new_cells access_key_status_cells)
      (AccessKeyStatus_DeepCopy L) \<and>
    keeps_apart (\<lambda>h. map_option (access_policy_status h)) (new_cells access_policy_status_cells)
      (AccessPolicyStatus_DeepCopy L) \<and>
    keeps_apart (\<lambda>h. map_option (bucket L h)) (new_cells (bucket_cells L)) (Bucket_DeepCopy L) \<and>
    keeps_apart (\<lambda>h. map_option (access_key L h)) (new_cells (access_key_cells L))
      (AccessKey_DeepCopy L) \<and>
    keeps_apart (\<lambda>h. map_option (access_policy L h)) (new_cells (access_policy_cells L))
      (AccessPolicy_DeepCopy L) \<and>
    keeps_apart (\<lambda>h. map_option (list_of L bucket_array (bucket L) h))
      (new_cells (list_cells L bucket_array (bucket_cells L))) (BucketList_DeepCopy L) \<and>
    keeps_apart (\<lambda>h. map_option (list_of L access_key_array (access_key L) h))
      (new_cells (list_cells L access_key_array (access_key_cells L))) (AccessKeyList_DeepCopy L) \<and>
    keeps_apart (\<lambda>h. map_option (list_of L access_policy_array (access_policy L) h))
      (new_cells (list_cells L access_policy_array (access_policy_cells L))) (AccessPolicyList_DeepCopy L)"
  unfolding BucketStatus_DeepCopy_def AccessKeyStatus_DeepCopy_def AccessPolicyStatus_DeepCopy_def
    Bucket_DeepCopy_def AccessKey_DeepCopy_def AccessPolicy_DeepCopy_def BucketList_DeepCopy_def
    AccessKeyList_DeepCopy_def AccessPolicyList_DeepCopy_def
  by (intro conjI new_copies bucket_status_copyable access_key_status_copyable
      access_policy_status_copyable bucket_copyable access_key_copyable access_policy_copyable
      lists_copyable L)

text \<open>As runtime objects: nil stays the nil interface.\<close>

lemma deep_copy_object:
  "run_state (Bucket_DeepCopyObject L b) h =
     (case run_state (Bucket_DeepCopy L b) h of (c, h') \<Rightarrow> (map_option BucketObject c, h'))"
  "run_state (AccessKey_DeepCopyObject L k) h =
     (case run_state (AccessKey_DeepCopy L k) h of (c, h') \<Rightarrow> (map_option AccessKeyObject c, h'))"
  "run_state (AccessPolicy_DeepCopyObject L a) h =
     (case run_state (AccessPolicy_DeepCopy L a) h of (c, h') \<Rightarrow> (map_option AccessPolicyObject c, h'))"
  by (auto simp: Bucket_DeepCopyObject_def AccessKey_DeepCopyObject_def
      AccessPolicy_DeepCopyObject_def as_object_def split: prod.splits option.splits)

section \<open>An instance of the library\<close>

text \<open>Object metadata with its labels behind a pointer; list metadata and quantities are texts.\<close>

datatype plain_value = MetaValue objmeta "addr option" | LabelMap "string \<rightharpoonup> string" | TextValue string

definition labels_at :: "plain_value heap \<Rightarrow> addr \<Rightarrow> string \<rightharpoonup> string" where
  "labels_at h a = (case mem h a of Some (LibCell (LabelMap m)) \<Rightarrow> m | _ \<Rightarrow> Map.empty)"

definition plain_copy :: "plain_value \<Rightarrow> (plain_value heap, plain_value) state" where
  "plain_copy v = (case v of
     MetaValue m p \<Rightarrow> do {
       q \<leftarrow> copy_ptr labels_at (\<lambda>ls. LibCell (LabelMap ls)) p;
       State_Monad.return (MetaValue m q)
     }
   | _ \<Rightarrow> State_Monad.return v)"

definition plain_meta :: "plain_value heap \<Rightarrow> plain_value \<Rightarrow> objmeta" where
  "plain_meta h v = (case v of
     MetaValue m p \<Rightarrow> m\<lparr>m_Labels := map_option (labels_at h) p\<rparr> | _ \<Rightarrow> new_meta [] [])"

definition plain_text :: "plain_value heap \<Rightarrow> plain_value \<Rightarrow> string" where
  "plain_text h v = (case v of TextValue s \<Rightarrow> s | _ \<Rightarrow> [])"

definition plain_cells :: "plain_value heap \<Rightarrow> plain_value \<Rightarrow> addr set" where
  "plain_cells h v = (case v of MetaValue m p \<Rightarrow> ptr_cells h p | _ \<Rightarrow> {})"

definition plain_copylib :: "(plain_value, string) copylib" where
  "plain_copylib = \<lparr>ObjectMeta_DeepCopyInto = plain_copy, ListMeta_DeepCopyInto = plain_copy,
     Quantity_DeepCopy = plain_copy, Condition_DeepCopyInto = State_Monad.return,
     Time_DeepCopy = copy_ptr time_at TimeCell, object_meta = plain_meta, list_meta = plain_text,
     quantity = plain_text, lib_cells = plain_cells\<rparr>"

interpretation label_ptr:
  copyable "\<lambda>h. map_option (labels_at h)" ptr_cells "copy_ptr labels_at (\<lambda>ls. LibCell (LabelMap ls))"
  by (rule copyable_ptr) (simp_all add: labels_at_def)

lemma plain_copyable: "copyable (\<lambda>h v. (plain_meta h v, plain_text h v)) plain_cells plain_copy"
proof unfold_locales
  fix h h' v
  assume "agree (plain_cells h v) h h'"
  then show "(plain_meta h' v, plain_text h' v) = (plain_meta h v, plain_text h v)"
    and "plain_cells h' v = plain_cells h v"
    using label_ptr.local_view [of h _ h']
    by (cases v; simp add: plain_meta_def plain_text_def plain_cells_def ptr_cells_def)+
next
  fix h h' v u
  assume sub: "plain_cells h v \<subseteq> allocated h" and run: "run_state (plain_copy v) h = (u, h')"
  show "extends h h' \<and> (plain_meta h' u, plain_text h' u) = (plain_meta h v, plain_text h v) \<and>
      plain_cells h' u \<subseteq> allocated h' - allocated h"
  proof (cases v)
    case (MetaValue m p)
    with run obtain q where "run_state (copy_ptr labels_at (\<lambda>ls. LibCell (LabelMap ls)) p) h = (q, h')"
      and "u = MetaValue m q" by (auto simp: plain_copy_def split: prod.splits)
    with label_ptr.copies [OF _ this(1)] sub MetaValue show ?thesis
      by (simp add: plain_meta_def plain_text_def plain_cells_def)
  qed (use run in \<open>auto simp: plain_copy_def plain_cells_def\<close>)
qed

lemma plain_copylib_laws: "copylib_laws plain_copylib"
proof -
  have "copyable (\<lambda>h. map_option (time_at h)) ptr_cells (copy_ptr time_at TimeCell)"
    by (rule copyable_ptr) (simp_all add: time_at_def)
  then show ?thesis
    using copyable_part [OF plain_copyable, of fst] copyable_part [OF plain_copyable, of snd]
    by (simp add: copylib_laws_def plain_copylib_def copyable_value)
qed

text \<open>The three kinds of resource with this library: the contract on the model's own copies.\<close>

interpretation plain_bucket:
  copyable "bucket plain_copylib" "bucket_cells plain_copylib" "Bucket_DeepCopyInto plain_copylib"
  by (rule bucket_copyable [OF plain_copylib_laws])

interpretation plain_key: copyable "access_key plain_copylib" "access_key_cells plain_copylib"
    "AccessKey_DeepCopyInto plain_copylib"
  by (rule access_key_copyable [OF plain_copylib_laws])

interpretation plain_policy: copyable "access_policy plain_copylib" "access_policy_cells plain_copylib"
    "AccessPolicy_DeepCopyInto plain_copylib"
  by (rule access_policy_copyable [OF plain_copylib_laws])

text \<open>A status whose condition is changed in place after the snapshot; had the status only been
  assigned, the change would show in both.\<close>

definition unready :: condition where
  "unready = \<lparr>c_Type = ''Ready'', c_Status = ConditionFalse, c_ObservedGeneration = 1,
     c_LastTransitionTime = 0, c_Reason = ''Pending'', c_Message = []\<rparr>"

definition live_status :: goBucketStatus where
  "live_status = \<lparr>gbst_ObservedGeneration = 1,
     gbst_Conditions = Some \<lparr>sl_array = 0, sl_start = 0, sl_len = 1\<rparr>, gbst_BucketID = ''id1'',
     gbst_BucketName = ''photos'', gbst_LastSync = Some 1\<rparr>"

definition live_heap :: "plain_value heap" where
  "live_heap = \<lparr>mem = [0 \<mapsto> ConditionArray [unready], 1 \<mapsto> TimeCell 5], next_addr = 2\<rparr>"

definition set_ready :: "plain_value heap \<Rightarrow> plain_value heap" where
  "set_ready h = h\<lparr>mem := (mem h)(0 \<mapsto> ConditionArray [unready\<lparr>c_Status := ConditionTrue\<rparr>])\<rparr>"

lemma live_cells: "new_cells bucket_status_cells live_heap (Some live_status) \<subseteq> allocated live_heap"
  by (auto simp: new_cells_def bucket_status_cells_def condition_cells_def slice_cells_def
      ptr_cells_def live_status_def live_heap_def)

lemma assignment_shares:
  "bucket_status (set_ready live_heap) live_status \<noteq> bucket_status live_heap live_status"
  by (simp add: bucket_status_def slice_list_def window_def condition_array_def set_ready_def
      live_status_def live_heap_def unready_def)

theorem deep_copies_are_snapshots_witness:
  "case run_state (BucketStatus_DeepCopy plain_copylib (Some live_status)) live_heap of
     (orig, h) \<Rightarrow> map_option (bucket_status (set_ready h)) orig = Some (bucket_status live_heap live_status)"
proof -
  let ?r = "run_state (BucketStatus_DeepCopy plain_copylib (Some live_status)) live_heap"
  have "agree (allocated (snd ?r) - new_cells bucket_status_cells (snd ?r) (Some live_status))
      (snd ?r) (set_ready (snd ?r))"
    by (auto simp: agree_def set_ready_def new_cells_def bucket_status_cells_def condition_cells_def
        slice_cells_def live_status_def)
  with deep_copies_are_snapshots [OF plain_copylib_laws, THEN conjunct1, unfolded keeps_apart_def,
      rule_format, OF live_cells surjective_pairing]
  show ?thesis by (simp add: case_prod_beta)
qed

end
