(* ===== verification/Metrics.thy ===== *)
theory Metrics
  imports GarageClient
begin

text \<open>
  The metrics of the client (\<^verbatim>\<open>internal/garage/metrics.go\<close>) as values: a counter per status
  class, the observed durations, the gauge.  The client's log says which class is recorded
  after which exchange; here the records are added up, with the durations \<open>ds\<close> the clock gave.
\<close>

record collector_opts =
  co_Namespace :: string
  co_Subsystem :: string
  co_Name :: string
  co_Help :: string

record Metrics =
  m_requests :: "collector_opts \<times> string list \<times> (string \<Rightarrow> nat)"
  m_duration :: "collector_opts \<times> int64 list"
  m_up :: "collector_opts \<times> int"

definition metricsNamespace :: string where "metricsNamespace = ''garage_controller''"
definition metricsSubsystem :: string where "metricsSubsystem = ''admin_api''"

definition NewMetrics :: Metrics where
  "NewMetrics =
     \<lparr>m_requests =
        (\<lparr>co_Namespace = metricsNamespace, co_Subsystem = metricsSubsystem,
          co_Name = ''requests_total'',
          co_Help = ''Total Garage admin API requests by response status class (2xx/4xx/5xx or error).''\<rparr>,
         [''status_class''], \<lambda>_. 0),
      m_duration =
        (\<lparr>co_Namespace = metricsNamespace, co_Subsystem = metricsSubsystem,
          co_Name = ''request_duration_seconds'',
          co_Help = ''Duration of Garage admin API requests in seconds.''\<rparr>, []),
      m_up =
        (\<lparr>co_Namespace = metricsNamespace, co_Subsystem = metricsSubsystem, co_Name = ''up'',
          co_Help = ''Gauge for the Garage admin API: 1 reachable, 0 not.''\<rparr>, 0)\<rparr>"

text \<open>The full name Prometheus gives a collector, and what \<open>Collectors\<close> hands to a registry.\<close>

definition full_name :: "collector_opts \<Rightarrow> string" where
  "full_name co = co_Namespace co @ ''_'' @ co_Subsystem co @ ''_'' @ co_Name co"

definition Collectors :: "Metrics \<Rightarrow> collector_opts list" where
  "Collectors m = [fst (m_requests m), fst (m_duration m), fst (m_up m)]"

definition Metrics_record :: "string \<Rightarrow> int64 \<Rightarrow> Metrics \<Rightarrow> Metrics" where
  "Metrics_record code d m =
     (case m_duration m of (co, ds) \<Rightarrow>
      case m_requests m of (rco, labels, n) \<Rightarrow>
        m\<lparr>m_duration := (co, ds @ [d]), m_requests := (rco, labels, n(code := n code + 1))\<rparr>)"

definition Metrics_SetAPIUp :: "bool \<Rightarrow> Metrics \<Rightarrow> Metrics" where
  "Metrics_SetAPIUp isUp m =
     (if isUp then m\<lparr>m_up := (fst (m_up m), 1)\<rparr> else m\<lparr>m_up := (fst (m_up m), 0)\<rparr>)"

section \<open>Adding up the log\<close>

fun exchanges :: "http_event list \<Rightarrow> (error + http_response) list" where
  "exchanges [] = []"
| "exchanges (Exchange rq r # es) = r # exchanges es"
| "exchanges (Recorded code # es) = exchanges es"

fun recorded :: "http_event list \<Rightarrow> string list" where
  "recorded [] = []"
| "recorded (Exchange rq r # es) = recorded es"
| "recorded (Recorded code # es) = code # recorded es"

lemma exchanges_append [simp]: "exchanges (es @ fs) = exchanges es @ exchanges fs"
  by (induction es rule: exchanges.induct) simp_all

lemma recorded_append [simp]: "recorded (es @ fs) = recorded es @ recorded fs"
  by (induction es rule: recorded.induct) simp_all

definition metrics_after :: "http_event list \<Rightarrow> int64 list \<Rightarrow> Metrics \<Rightarrow> Metrics" where
  "metrics_after es ds m = fold (\<lambda>(code, d). Metrics_record code d) (zip (recorded es) ds) m"

definition requests_of :: "Metrics \<Rightarrow> string \<Rightarrow> nat" where
  "requests_of m = snd (snd (m_requests m))"

lemma Metrics_record_values [simp]:
  "requests_of (Metrics_record code d m) = (requests_of m)(code := requests_of m code + 1)"
  "snd (m_duration (Metrics_record code d m)) = snd (m_duration m) @ [d]"
  "m_up (Metrics_record code d m) = m_up m" "Collectors (Metrics_record code d m) = Collectors m"
  by (simp_all add: Metrics_record_def requests_of_def Collectors_def split: prod.splits)

lemma metrics_totals:
  "length cs = length ds \<Longrightarrow>
     requests_of (fold (\<lambda>(code, d). Metrics_record code d) (zip cs ds) m) l = requests_of m l + count_list cs l \<and>
     snd (m_duration (fold (\<lambda>(code, d). Metrics_record code d) (zip cs ds) m)) = snd (m_duration m) @ ds \<and>
     m_up (fold (\<lambda>(code, d). Metrics_record code d) (zip cs ds) m) = m_up m \<and>
     Collectors (fold (\<lambda>(code, d). Metrics_record code d) (zip cs ds) m) = Collectors m"
  by (induction cs ds arbitrary: m rule: list_induct2) simp_all

section \<open>Every exchange is recorded once\<close>

definition class_of :: "error + http_response \<Rightarrow> string" where
  "class_of r = (case r of Inl e \<Rightarrow> ''error'' | Inr resp \<Rightarrow>
     if rs_StatusCode resp div 100 = 2 then ''2xx''
     else if rs_StatusCode resp div 100 = 3 then ''3xx''
     else if rs_StatusCode resp div 100 = 4 then ''4xx'' else ''5xx'')"

definition accounted :: "adminAPIHttpClient \<Rightarrow> ('s gworld, 'a) state \<Rightarrow> bool" where
  "accounted c m \<longleftrightarrow> produces m (\<lambda>_ es. recorded es =
     (if hc_metrics c then map class_of (exchanges es) else []))"

named_theorems accounted_intros "composition of accounted computations"

lemma accounted_return [accounted_intros]: "accounted c (State_Monad.return x)"
  by (simp add: accounted_def produces_return)

lemma accounted_bind [accounted_intros]:
  assumes "accounted c m" and "\<And>a. accounted c (f a)"
  shows "accounted c (State_Monad.bind m f)"
  unfolding accounted_def
proof (rule produces_bind, rule produces_mono [OF assms(1) [unfolded accounted_def]])
  fix a es
  assume "recorded es = (if hc_metrics c then map class_of (exchanges es) else [])"
  then show "produces (f a) (\<lambda>b fs. recorded (es @ fs) =
      (if hc_metrics c then map class_of (exchanges (es @ fs)) else []))"
    by (intro produces_mono [OF assms(2) [unfolded accounted_def]]) simp
qed

lemma accounted_if [accounted_intros]:
  "accounted c m \<Longrightarrow> accounted c n \<Longrightarrow> accounted c (if b then m else n)"
  by simp

lemma accounted_case_option [accounted_intros]:
  "accounted c m \<Longrightarrow> (\<And>v. accounted c (f v)) \<Longrightarrow> accounted c (case x of None \<Rightarrow> m | Some v \<Rightarrow> f v)"
  by (cases x) simp_all

lemma class_of_status: "class_of (Inr resp) = statusClass (rs_StatusCode resp)"
proof -
  have d: "n div 100 = k \<longleftrightarrow> 100 * k \<le> n \<and> n < 100 * k + 100" for n k :: int by auto
  show ?thesis
    by (simp add: class_of_def statusClass_def d codeHTTP2xx_def codeHTTP3xx_def codeHTTP4xx_def
        codeHTTP5xx_def)
qed

lemma class_of_error: "class_of (Inl e) = codeError"
  by (simp add: class_of_def codeError_def)

lemma doRequest_accounted [accounted_intros]: "accounted c (doRequest T c method path query body)"
  unfolding accounted_def doRequest_def send_def Let_def
  by (intro produces_intros) (auto simp: class_of_status class_of_error split: sum.splits)

lemmas get_accounted [accounted_intros] =
  accounted_bind [OF doRequest_accounted accounted_return, folded AccessKeyClient_get_def]

lemma client_accounted:
  "accounted c (Health T c)" "accounted c (CurrentTokenInfo T c)"
  "accounted c (AccessKeyClient_Create T c name)" "accounted c (AccessKeyClient_Get T c ident)"
  "accounted c (AccessKeyClient_Lookup T c search)" "accounted c (AccessKeyClient_Delete T c ident)"
  "accounted c (BucketClient_Create T c alias)" "accounted c (BucketClient_Get T c alias)"
  "accounted c (BucketClient_Update T c ident quotas)"
  "accounted c (SetPermissions T c k b p)" "accounted c (GetPermissions T c k b)"
  unfolding Health_def CurrentTokenInfo_def AccessKeyClient_Create_def AccessKeyClient_Get_def
    AccessKeyClient_Lookup_def AccessKeyClient_Delete_def BucketClient_Create_def BucketClient_Get_def
    getBucketResponse_def BucketClient_Update_def SetPermissions_def allowBucketKey_def
    denyBucketKey_def GetPermissions_def AccessKeyClient_get_def Let_def
  by (intro accounted_intros)+

text \<open>
  The metrics after an operation, from any state of them: each class has grown by the number
  of exchanges of that class, one duration was observed per exchange, nothing else changed.
\<close>

definition counts_exchanges :: "adminAPIHttpClient \<Rightarrow> ('s gworld, 'a) state \<Rightarrow> bool" where
  "counts_exchanges c op \<longleftrightarrow>
     (\<forall>w a w' m ds. run_state op w = (a, w') \<longrightarrow>
        (let es = new_events w w'; n = (if hc_metrics c then length (exchanges es) else 0);
             m' = metrics_after es ds m
         in length ds = length (recorded es) \<longrightarrow>
           length ds = n \<and> snd (m_duration m') = snd (m_duration m) @ ds \<and>
           (\<forall>l. requests_of m' l = requests_of m l +
              (if hc_metrics c then count_list (map class_of (exchanges es)) l else 0)) \<and>
           m_up m' = m_up m \<and> Collectors m' = Collectors m))"

lemma accounted_counts:
  assumes "accounted c op"
  shows "counts_exchanges c op"
  unfolding counts_exchanges_def Let_def
proof (intro allI impI)
  fix w a w' m and ds :: "int64 list"
  assume run: "run_state op w = (a, w')" and len: "length ds = length (recorded (new_events w w'))"
  from produces_run [OF assms [unfolded accounted_def] run]
  have rec: "recorded (new_events w w') =
      (if hc_metrics c then map class_of (exchanges (new_events w w')) else [])" .
  note t = metrics_totals [OF len [symmetric], of m, folded metrics_after_def]
  show "length ds = (if hc_metrics c then length (exchanges (new_events w w')) else 0) \<and>
    snd (m_duration (metrics_after (new_events w w') ds m)) = snd (m_duration m) @ ds \<and>
    (\<forall>l. requests_of (metrics_after (new_events w w') ds m) l = requests_of m l +
       (if hc_metrics c then count_list (map class_of (exchanges (new_events w w'))) l else 0)) \<and>
    m_up (metrics_after (new_events w w') ds m) = m_up m \<and>
    Collectors (metrics_after (new_events w w') ds m) = Collectors m"
    using t len rec by simp
qed

text \<open>
  C34: the request metrics add up: every operation of the client, on whatever the server
  answers, adds to the counter of each status class exactly the number of its exchanges that
  ended in that class (\<open>error\<close> when no response came), and observes one duration per exchange;
  a client without metrics records nothing.  Registering the collectors gives the three names
  \<open>garage_controller_admin_api_requests_total\<close>, \<open>_request_duration_seconds\<close> and \<open>_up\<close>.
\<close>

theorem requests_accounted:
  "counts_exchanges c (Health T c) \<and> counts_exchanges c (CurrentTokenInfo T c) \<and>
   counts_exchanges c (AccessKeyClient_Create T c name) \<and> counts_exchanges c (AccessKeyClient_Get T c ident) \<and>
   counts_exchanges c (AccessKeyClient_Lookup T c search) \<and>
   counts_exchanges c (AccessKeyClient_Delete T c ident) \<and>
   counts_exchanges c (BucketClient_Create T c alias) \<and> counts_exchanges c (BucketClient_Get T c alias) \<and>
   counts_exchanges c (BucketClient_Update T c ident quotas) \<and>
   counts_exchanges c (SetPermissions T c k b p) \<and> counts_exchanges c (GetPermissions T c k b) \<and>
   map full_name (Collectors NewMetrics) =
     map (\<lambda>n. ''garage_controller_admin_api_'' @ n) [''requests_total'', ''request_duration_seconds'', ''up'']"
  by (intro conjI accounted_counts client_accounted)
    (simp add: Collectors_def NewMetrics_def full_name_def metricsNamespace_def metricsSubsystem_def)

end
