(* ===== verification/Spec2Isabelle.thy ===== *)
theory Spec2Isabelle
  imports GarageProps BucketPublish AccessKeyHistory System Rivals ReadyProps Startup
    DeepCopyProps Metrics
begin

text \<open>
  A model of the Garage storage controller, a Kubernetes operator in Go, and what makes it
  correct.

  \<^bold>\<open>The program.\<close>  Three reconcilers of controller-runtime keep a Garage cluster (an S3 store
  with an HTTP admin API) in line with three kinds of custom resources: a \<open>Bucket\<close> is a bucket
  in Garage, created or imported, with quotas and a ConfigMap that describes it; an
  \<open>AccessKey\<close> is an access key with a Secret that holds its credentials; an \<open>AccessPolicy\<close>
  gives a key permissions on a bucket.  The reconcilers share nothing but the cluster and
  Garage: a policy reads the IDs and the \<open>Ready\<close> conditions the other two write into their
  statuses.  One client talks to the admin API.  A heartbeat watches the API, and \<open>main\<close>
  reads the configuration and starts everything.

  \<^bold>\<open>How it is modelled.\<close>  The services the code calls are parameters: the Kubernetes client
  (\<open>kube\<close>), the functions of \<open>meta\<close>, \<open>apierrors\<close> and \<open>controllerutil\<close> (\<open>lib\<close>), the HTTP transport
  (\<open>transport\<close>), the manager of controller-runtime.  What the code relies on is stated in
  named hypotheses: \<open>cond_laws\<close>, \<open>error_laws\<close>, \<open>finalizer_laws\<close>, \<open>owner_laws\<close>,
  \<open>create_or_update_laws\<close>, \<open>read_laws\<close>, \<open>status_eq_laws\<close>, \<open>list_laws\<close>, \<open>adopts_free\<close>; theory
  \<open>Instances\<close> has concrete functions that satisfy them.  Every function of the code is a computation in the
  state monad over a world: the outside state, threaded through the calls, and the log of the
  calls with their answers (theory \<open>Prelude\<close>).  The code never reads the log; the theorems do.
  Errors are values (\<open>error\<close>, with \<open>%w\<close>, \<open>errors.Join\<close> and \<open>errors.Is\<close> as Go has them), a nil
  dereference is the outcome \<open>Panicked\<close>, \<open>int64\<close> is a 64-bit word.

  \<^bold>\<open>Theories.\<close>
  \<^item> \<open>Prelude\<close>: worlds, weakest preconditions (\<open>wp\<close>), traces (\<open>produces\<close>), evaluation;
    \<open>Simulation\<close>: computations that follow an abstract transition system (\<open>tracks\<close>).
  \<^item> \<open>GoBase\<close>: \<open>fmt\<close>, strings and errors; \<open>Sha256\<close>: the hash in resource names;
    \<open>S3\<close>: \<^verbatim>\<open>internal/s3/bucket.go\<close>.
  \<^item> \<open>Kube\<close>, \<open>ApiTypes\<close>, \<open>KubeClient\<close>: object metadata, conditions and library laws; the custom
    resources of \<^verbatim>\<open>api/v1alpha1\<close>; the calls to the cluster and the events of the log.
  \<^item> \<open>GoHeap\<close>, \<open>DeepCopy\<close>, \<open>DeepCopyProps\<close>: slices and pointers in a heap of cells; the generated
    deep copies of the custom resources; their contract (locale \<open>copyable\<close>), by which resources
    may be values in all other theories.
  \<^item> \<open>Conditions\<close>: the condition helpers of \<^verbatim>\<open>internal/controller\<close>; \<open>ReadySummary\<close>,
    \<open>ReadyProps\<close>: the contract of the three \<open>Ready\<close> switches (locale \<open>conditioned_resource\<close>)
    and their equality with one reference.
  \<^item> \<open>Backoff\<close>, \<open>Names\<close>: \<^verbatim>\<open>backoff.go\<close> on words, and the derived names.
  \<^item> \<open>GarageApi\<close>, \<open>GarageClient\<close>, \<open>GarageSpec\<close>, \<open>GarageProps\<close>: the messages with their JSON, the
    client of \<^verbatim>\<open>internal/garage\<close>, what it promises (locales \<open>bucket_service\<close>, \<open>key_service\<close>,
    \<open>permission_service\<close>, interpreted on the client for every transport), its properties.
  \<^item> \<open>BucketController\<close>, \<open>BucketTrace\<close>, \<open>BucketExample\<close>, \<open>BucketProps\<close>, \<open>BucketPublish\<close>;
    \<open>AccessKeyController\<close>, \<open>AccessKeyTrace\<close>, \<open>AccessKeyExample\<close>, \<open>AccessKeyProps\<close>,
    \<open>AccessKeyHistory\<close>; \<open>AccessPolicyController\<close>, \<open>AccessPolicyTrace\<close>, \<open>AccessPolicyExample\<close>,
    \<open>AccessPolicyProps\<close>: for each reconciler its functions, what each of them may log and
    return, concrete runs, and the properties.  \<open>AccessKeyHistory\<close> follows one resource over
    all its stored versions.
  \<^item> \<open>Wiring\<close>, \<open>System\<close>: the reconcilers on the Garage client as \<^verbatim>\<open>cmd/main.go\<close> connects them
    (locale \<open>garage_service\<close>, interpreted on the client), and what the three do together to
    Garage's permissions, buckets and keys.
  \<^item> \<open>Cluster\<close>, \<open>Resting\<close>, \<open>Convergence\<close>, \<open>Schedules\<close>: the objects an API server keeps and
    what each call does to them (\<open>cluster_server\<close>); the statuses that a run leaves as they are;
    what one run achieves when no call meets an obstacle (\<open>unobstructed\<close>); and what any
    schedule of runs of the three controllers comes to.
    \<open>ExampleCluster\<close>: a server and a Garage on which such a schedule is run.  \<open>Deletion\<close>: how
    deleted keys and policies leave the cluster, and what they leave in Garage.  \<open>Rivals\<close>: what two
    policies on the same key and bucket do to each other.
  \<^item> \<open>Health\<close>, \<open>Startup\<close>: the heartbeat and the token check of \<^verbatim>\<open>internal/health\<close>; \<^verbatim>\<open>cmd/config.go\<close>
    and \<open>main\<close>.
  \<^item> \<open>Metrics\<close>: the collectors of \<^verbatim>\<open>internal/garage/metrics.go\<close> and the sums the client's log gives.

  \<^bold>\<open>From the code to the model.\<close>  A Go function has the definition of the same name; a method
  that two types share has its receiver in the name (\<open>BucketReconciler_Reconcile\<close>,
  \<open>AccessKeyClient_Get\<close>).  A long function is cut where the code has a comment or an early
  return, into definitions that call each other in the order of the code: \<open>configureBucket\<close>,
  \<open>publishBucket\<close> and \<open>finishBucket\<close> are the rest of \<open>reconcileBucket\<close> and \<open>Reconcile\<close>.  A pointer
  to a resource that a function mutates is an argument and a result.

  \<^bold>\<open>What the lemmas show.\<close>  The \<open>_trace\<close> lemmas say, for any answers of the services, which
  events a function logs and what it returns; the safety properties read their evidence off
  these traces.  The \<open>_tracks\<close> lemmas carry the calls over to Garage's state.  The properties
  about \<open>Ready\<close> say what a reported condition stands for; the histories (\<open>key_history\<close>,
  \<open>system_history\<close>) say what holds after any sequence of runs and edits.  Safety needs no
  assumption on the services; the convergence theorem of \<open>Schedules\<close> is the other half: when
  the server stores what it is sent and the calls succeed, stored resources that are not being
  deleted become ready (apart from a key that gave up on a taken secret name) and Garage's
  table agrees with the policy, and then nothing is written any more; \<open>Deletion\<close> has the
  same for resources that go.  Four properties state what the code gets wrong: a failed
  revocation is forgotten, a policy on the same key and bucket as another one disarms it when it
  goes, a settled access key is never looked at again, and a failed quota update is reported
  with a reason the API server refuses.

  \<^bold>\<open>Bounds.\<close>  Nothing is run on fuel: the loops over lists are structural, and the heartbeat is a
  partial function whose \<open>None\<close> is a loop that never returns.  A run of a reconciler is atomic
  with respect to other runs in \<open>system_history\<close> and \<open>reconcile_all\<close>, while the cluster and the server may answer
  anything at every single call.  What Garage's permission table was at the start and
  which of the requests it did not acknowledge with status 200 it carried out all the same (a
  lost response) is a parameter (\<open>permission_server\<close>); only the controllers change the table.

  \<^bold>\<open>Not modelled.\<close>  The queues and caches of controller-runtime (of \<open>SetupWithManager\<close> the model
  keeps which requests a change of an object asks for); RBAC; the scheme registration; flag
  parsing and logging inside the reconcilers, and the line \<open>GetConfigOrDie\<close> logs before it
  exits; the boundaries of the duration histogram, and the conversion of an observed
  duration to seconds (the model keeps the nanoseconds); and the containers, \<open>kubectl\<close> calls and fixtures of the tests.
\<close>

end
